(* ===== verification/Prelude.thy ===== *)
theory Prelude
  imports Complex_Main "HOL-Library.Word" "HOL-Library.Char_ord" "HOL-Library.List_Lexorder"
begin

text \<open>
  Shared vocabulary of the development: the machine integer types of Go, the \<open>error\<close> values
  that the packages of the repository create and wrap, the results of fallible functions, the
  contexts (\<^verbatim>\<open>context.Context\<close>) whose \<open>Err\<close> method the components poll, and the generic lemmas and
  fact collections that the component theories use.
\<close>

section \<open>Fact collections\<close>

named_theorems go_eval \<open>equations that evaluate the modelled Go library routines on closed terms\<close>
named_theorems op_defs \<open>definitions of the program's own operations\<close>
named_theorems inv_intros \<open>preservation of a component's invariant by its operations\<close>

declare char_of_def [go_eval] Let_def [go_eval] bit_Suc_0_iff [go_eval] bit_1_iff [go_eval]

section \<open>Machine integers\<close>

type_synonym uint64 = "64 word"
type_synonym uint16 = "16 word"
type_synonym bytes = string

text \<open>
  A signed 64-bit Go integer is an \<open>int\<close> whose wrap-around is written out where an operation
  can leave the range: \<open>wrap64\<close> is the value of the two's complement pattern.
\<close>

definition wrap64 :: "int \<Rightarrow> int" where
  "wrap64 i = sint (word_of_int i :: uint64)"

definition in_int64 :: "int \<Rightarrow> bool" where
  "in_int64 i \<longleftrightarrow> - (2 ^ 63) \<le> i \<and> i < 2 ^ 63"

section \<open>Errors\<close>

text \<open>
  Go compares the sentinel errors of a package by identity, so each is a constructor of its own;
  an error made on the spot by \<^verbatim>\<open>errors.New\<close> or by \<^verbatim>\<open>fmt.Errorf\<close> without \<^verbatim>\<open>%w\<close> is \<open>ErrNew\<close> with its
  text. \<open>Wrap fmt args e\<close> is \<^verbatim>\<open>fmt.Errorf(fmt, args..., e)\<close> where the format holds \<^verbatim>\<open>%w\<close>.
  \<open>ErrLib\<close> is an error that a Go library routine returns (by the routine and the kind of failure)
  and \<open>ErrExternal\<close> one that a third-party client returns.
\<close>

datatype fmt_arg = ArgS string | ArgQ string | ArgD int

datatype err =
    ErrEmptyMessage
  | ErrEmptyService
  | ErrInvalidLevel
  | ErrBrokerClosed
  | ErrStoreClosed
  | Canceled
  | DeadlineExceeded
  | EOF
  | ErrNew string
  | ErrLib string string
  | ErrExternal string
  | Wrap string "fmt_arg list" err

type_synonym 'a res = "err + 'a"

text \<open>\<^verbatim>\<open>errors.Is\<close>: the error itself or one that it wraps.\<close>

primrec errors_Is :: "err \<Rightarrow> err \<Rightarrow> bool" where
  "errors_Is ErrEmptyMessage t = (t = ErrEmptyMessage)"
| "errors_Is ErrEmptyService t = (t = ErrEmptyService)"
| "errors_Is ErrInvalidLevel t = (t = ErrInvalidLevel)"
| "errors_Is ErrBrokerClosed t = (t = ErrBrokerClosed)"
| "errors_Is ErrStoreClosed t = (t = ErrStoreClosed)"
| "errors_Is Canceled t = (t = Canceled)"
| "errors_Is DeadlineExceeded t = (t = DeadlineExceeded)"
| "errors_Is EOF t = (t = EOF)"
| "errors_Is (ErrNew m) t = (t = ErrNew m)"
| "errors_Is (ErrLib r m) t = (t = ErrLib r m)"
| "errors_Is (ErrExternal m) t = (t = ErrExternal m)"
| "errors_Is (Wrap f as e) t = (t = Wrap f as e \<or> errors_Is e t)"

lemma errors_Is_refl [simp]: "errors_Is e e"
  by (cases e) simp_all

lemma errors_Is_Wrap [simp]: "errors_Is e t \<Longrightarrow> errors_Is (Wrap f as e) t"
  by simp

section \<open>Results\<close>

text \<open>A call whose error is returned at once: \<^verbatim>\<open>x, err := f(); if err != nil { return err }\<close>.\<close>

definition bind_res :: "'a res \<Rightarrow> ('a \<Rightarrow> 'b res) \<Rightarrow> 'b res" where
  "bind_res r k = (case r of Inl e \<Rightarrow> Inl e | Inr x \<Rightarrow> k x)"

lemma bind_res_simps [simp]:
  "bind_res (Inl e) k = Inl e"
  "bind_res (Inr x) k = k x"
  by (simp_all add: bind_res_def)

lemma bind_res_eq_Inr: "bind_res r k = Inr y \<longleftrightarrow> (\<exists>x. r = Inr x \<and> k x = Inr y)"
  by (cases r) auto

lemma bind_res_eq_Inl: "bind_res r k = Inl e \<longleftrightarrow> r = Inl e \<or> (\<exists>x. r = Inr x \<and> k x = Inl e)"
  by (cases r) auto

section \<open>Contexts\<close>

text \<open>
  A context is observed only through \<open>Err()\<close>; \<open>None\<close> is nil. The environment decides the value
  at each call, so an operation that polls a context once takes the value, and a loop takes a
  function from the number of the call to the value.
\<close>

type_synonym ctx = "err option"

definition ctx_ok :: "ctx \<Rightarrow> bool" where
  "ctx_ok c \<longleftrightarrow> c = None \<or> c = Some Canceled \<or> c = Some DeadlineExceeded"

section \<open>Generic lemmas\<close>

lemma sum_case_eq_Inr [simp]:
  "(case r of Inl e \<Rightarrow> Inl e | Inr x \<Rightarrow> Inr (f x)) = Inr y \<longleftrightarrow> (\<exists>x. r = Inr x \<and> y = f x)"
  by (cases r) auto

lemma in_int64_wrap64 [simp]: "in_int64 (wrap64 i)"
proof -
  have "- (2 ^ 63) \<le> sint (word_of_int i :: uint64)"
    using sint_ge [of "word_of_int i :: uint64"] by simp
  moreover have "sint (word_of_int i :: uint64) < 2 ^ 63"
    using sint_lt [of "word_of_int i :: uint64"] by simp
  ultimately show ?thesis by (simp add: wrap64_def in_int64_def)
qed

lemma wrap64_id: "in_int64 i \<Longrightarrow> wrap64 i = i"
  by (simp add: wrap64_def in_int64_def signed_take_bit_int_eq_self sint_sbintrunc')

end
