(* ===== verification/Go_Strings.thy ===== *)
theory Go_Strings
  imports Go_Unicode
begin

text \<open>
  The routines of Go's packages \<^verbatim>\<open>unicode/utf8\<close>, \<^verbatim>\<open>strings\<close> and \<^verbatim>\<open>strconv\<close> that the repository
  calls. A Go string is a sequence of bytes, here a list of \<open>char\<close>; a rune is its code point.
\<close>

section \<open>UTF-8\<close>

abbreviation byte :: "char \<Rightarrow> nat" where
  "byte c \<equiv> of_char c"

definition cont :: "nat \<Rightarrow> nat \<Rightarrow> char \<Rightarrow> bool" where
  "cont lo hi c \<longleftrightarrow> lo \<le> byte c \<and> byte c \<le> hi"

definition RuneError :: nat where
  "RuneError = 65533"

definition rune2 :: "char \<Rightarrow> char \<Rightarrow> nat" where
  "rune2 a b = (byte a - 192) * 64 + (byte b - 128)"

definition rune3 :: "char \<Rightarrow> char \<Rightarrow> char \<Rightarrow> nat" where
  "rune3 a b c = (byte a - 224) * 4096 + (byte b - 128) * 64 + (byte c - 128)"

definition rune4 :: "char \<Rightarrow> char \<Rightarrow> char \<Rightarrow> char \<Rightarrow> nat" where
  "rune4 a b c d =
     (byte a - 240) * 262144 + (byte b - 128) * 4096 + (byte c - 128) * 64 + (byte d - 128)"

text \<open>
  The second byte's accepted range depends on the first (no overlong forms, no surrogates,
  nothing above U+10FFFF).
\<close>

definition lo2 :: "nat \<Rightarrow> nat" where
  "lo2 a = (if a = 224 then 160 else if a = 240 then 144 else 128)"

definition hi2 :: "nat \<Rightarrow> nat" where
  "hi2 a = (if a = 237 then 159 else if a = 244 then 143 else 191)"

text \<open>\<^verbatim>\<open>utf8.DecodeRuneInString\<close>: the rune and the number of bytes it takes.\<close>

fun DecodeRune :: "string \<Rightarrow> nat \<times> nat" where
  "DecodeRune [] = (RuneError, 0)"
| "DecodeRune (a # s) =
     (if byte a < 128 then (byte a, 1)
      else if 194 \<le> byte a \<and> byte a \<le> 223 then
        (case s of b # _ \<Rightarrow> if cont 128 191 b then (rune2 a b, 2) else (RuneError, 1)
         | _ \<Rightarrow> (RuneError, 1))
      else if 224 \<le> byte a \<and> byte a \<le> 239 then
        (case s of b # c # _ \<Rightarrow>
           if cont (lo2 (byte a)) (hi2 (byte a)) b \<and> cont 128 191 c then (rune3 a b c, 3)
           else (RuneError, 1)
         | _ \<Rightarrow> (RuneError, 1))
      else if 240 \<le> byte a \<and> byte a \<le> 244 then
        (case s of b # c # d # _ \<Rightarrow>
           if cont (lo2 (byte a)) (hi2 (byte a)) b \<and> cont 128 191 c \<and> cont 128 191 d
           then (rune4 a b c d, 4)
           else (RuneError, 1)
         | _ \<Rightarrow> (RuneError, 1))
      else (RuneError, 1))"

lemma DecodeRune_size_pos: "s \<noteq> [] \<Longrightarrow> 0 < snd (DecodeRune s)"
  by (cases s) (auto split: list.splits)

text \<open>A code point that has an encoding: not a surrogate, at most U+10FFFF.\<close>

definition scalar :: "nat \<Rightarrow> bool" where
  "scalar r \<longleftrightarrow> r < 55296 \<or> (57343 < r \<and> r \<le> 1114111)"

text \<open>\<^verbatim>\<open>utf8.EncodeRune\<close>.\<close>

definition EncodeRune :: "nat \<Rightarrow> string" where
  "EncodeRune r0 =
     (let r = (if scalar r0 then r0 else RuneError) in
      if r < 128 then [char_of r]
      else if r < 2048 then [char_of (192 + r div 64), char_of (128 + r mod 64)]
      else if r < 65536 then
        [char_of (224 + r div 4096), char_of (128 + r div 64 mod 64), char_of (128 + r mod 64)]
      else [char_of (240 + r div 262144), char_of (128 + r div 4096 mod 64),
            char_of (128 + r div 64 mod 64), char_of (128 + r mod 64)])"

text \<open>The runes of a string, in order: what \<^verbatim>\<open>for _, r := range s\<close> visits.\<close>

function runes :: "string \<Rightarrow> nat list" where
  "runes s = (if s = [] then [] else fst (DecodeRune s) # runes (drop (snd (DecodeRune s)) s))"
  by pat_completeness auto
termination
  by (relation "measure length") (auto simp: DecodeRune_size_pos)

declare runes.simps [simp del]

definition encode_runes :: "nat list \<Rightarrow> string" where
  "encode_runes rs = concat (map EncodeRune rs)"

text \<open>
  A string with every invalid byte replaced by U+FFFD; \<open>valid_utf8\<close> strings are the ones this
  leaves alone.
\<close>

definition coerce_utf8 :: "string \<Rightarrow> string" where
  "coerce_utf8 s = encode_runes (runes s)"

definition valid_utf8 :: "string \<Rightarrow> bool" where
  "valid_utf8 s \<longleftrightarrow> coerce_utf8 s = s"

section \<open>Package strings\<close>

definition is_ascii :: "string \<Rightarrow> bool" where
  "is_ascii s \<longleftrightarrow> list_all (\<lambda>c. byte c < 128) s"

text \<open>\<^verbatim>\<open>strings.ToUpper\<close>, \<^verbatim>\<open>strings.ToLower\<close>: bytewise on ASCII, else \<^verbatim>\<open>strings.Map\<close> of the rune mapping.\<close>

definition ToUpper :: "string \<Rightarrow> string" where
  "ToUpper s =
     (if is_ascii s then map (\<lambda>c. char_of (ToUpper_rune (byte c))) s
      else encode_runes (map ToUpper_rune (runes s)))"

definition ToLower :: "string \<Rightarrow> string" where
  "ToLower s =
     (if is_ascii s then map (\<lambda>c. char_of (ToLower_rune (byte c))) s
      else encode_runes (map ToLower_rune (runes s)))"

text \<open>
  \<^verbatim>\<open>utf8.DecodeLastRuneInString\<close>: the size of the last rune; \<open>k\<close> bytes form it exactly when
  they decode to one rune of \<open>k\<close> bytes.
\<close>

definition last_rune_size :: "string \<Rightarrow> nat" where
  "last_rune_size s =
     (let ok = (\<lambda>k. k \<le> length s \<and> snd (DecodeRune (drop (length s - k) s)) = k) in
      if byte (last s) < 128 then 1 else if ok 2 then 2 else if ok 3 then 3
      else if ok 4 then 4 else 1)"

definition DecodeLastRune :: "string \<Rightarrow> nat \<times> nat" where
  "DecodeLastRune s =
     (let k = last_rune_size s in (fst (DecodeRune (drop (length s - k) s)), k))"

lemma last_rune_size_pos: "0 < last_rune_size s"
  by (simp add: last_rune_size_def Let_def)

text \<open>\<^verbatim>\<open>strings.TrimLeftFunc\<close> and \<^verbatim>\<open>strings.TrimRightFunc\<close> at \<open>unicode.IsSpace\<close>.\<close>

function trim_left :: "string \<Rightarrow> string" where
  "trim_left s =
     (if s \<noteq> [] \<and> IsSpace (fst (DecodeRune s)) then trim_left (drop (snd (DecodeRune s)) s) else s)"
  by pat_completeness auto
termination
  by (relation "measure length") (auto simp: DecodeRune_size_pos)

declare trim_left.simps [simp del]

function trim_right :: "string \<Rightarrow> string" where
  "trim_right s =
     (if s \<noteq> [] \<and> IsSpace (fst (DecodeLastRune s))
      then trim_right (take (length s - snd (DecodeLastRune s)) s) else s)"
  by pat_completeness auto
termination
  by (relation "measure length") (auto simp: DecodeLastRune_def Let_def last_rune_size_pos)

declare trim_right.simps [simp del]

definition TrimSpace :: "string \<Rightarrow> string" where
  "TrimSpace s = trim_right (trim_left s)"

fun HasPrefix :: "string \<Rightarrow> string \<Rightarrow> bool" where
  "HasPrefix s [] = True"
| "HasPrefix [] (c # cs) = False"
| "HasPrefix (a # s) (c # cs) = (a = c \<and> HasPrefix s cs)"

fun Contains :: "string \<Rightarrow> string \<Rightarrow> bool" where
  "Contains [] sub = HasPrefix [] sub"
| "Contains (a # s) sub = (HasPrefix (a # s) sub \<or> Contains s sub)"

text \<open>\<^verbatim>\<open>strings.Split\<close> at a one-byte separator.\<close>

fun Split :: "string \<Rightarrow> char \<Rightarrow> string list" where
  "Split [] sep = [[]]"
| "Split (a # s) sep =
     (if a = sep then [] # Split s sep
      else (case Split s sep of [] \<Rightarrow> [[a]] | p # ps \<Rightarrow> (a # p) # ps))"

section \<open>Package strconv: decimal integers\<close>

definition digit_char :: "nat \<Rightarrow> char" where
  "digit_char d = char_of (48 + d)"

definition is_digit :: "char \<Rightarrow> bool" where
  "is_digit c \<longleftrightarrow> 48 \<le> byte c \<and> byte c \<le> 57"

definition digit_val :: "char \<Rightarrow> nat" where
  "digit_val c = byte c - 48"

fun show_nat :: "nat \<Rightarrow> string" where
  "show_nat n = (if n < 10 then [digit_char n] else show_nat (n div 10) @ [digit_char (n mod 10)])"

declare show_nat.simps [simp del]

definition show_int :: "int \<Rightarrow> string" where
  "show_int i = (if i < 0 then CHR ''-'' # show_nat (nat (- i)) else show_nat (nat i))"

definition digits_val :: "string \<Rightarrow> nat" where
  "digits_val s = foldl (\<lambda>n c. 10 * n + digit_val c) 0 s"

text \<open>\<^verbatim>\<open>strconv.ParseUint(s, 10, 64)\<close> and \<^verbatim>\<open>strconv.ParseInt(s, 10, 64)\<close>; \<open>None\<close> is an error.\<close>

definition ParseUint :: "string \<Rightarrow> nat option" where
  "ParseUint s =
     (if s \<noteq> [] \<and> list_all is_digit s \<and> digits_val s < 2 ^ 64 then Some (digits_val s) else None)"

definition parse_signed :: "bool \<Rightarrow> string \<Rightarrow> int option" where
  "parse_signed neg s =
     (case ParseUint s of None \<Rightarrow> None
      | Some n \<Rightarrow>
          (let i = (if neg then - int n else int n) in if in_int64 i then Some i else None))"

definition ParseInt :: "string \<Rightarrow> int option" where
  "ParseInt s =
     (case s of [] \<Rightarrow> None
      | c # cs \<Rightarrow>
          if c = CHR ''-'' then parse_signed True cs
          else if c = CHR ''+'' then parse_signed False cs
          else parse_signed False s)"

lemmas go_strings_eval [go_eval] =
  cont_def RuneError_def rune2_def rune3_def rune4_def lo2_def hi2_def scalar_def EncodeRune_def
  runes.simps encode_runes_def coerce_utf8_def valid_utf8_def is_ascii_def ToUpper_def ToLower_def
  last_rune_size_def DecodeLastRune_def trim_left.simps trim_right.simps TrimSpace_def
  digit_char_def is_digit_def digit_val_def show_nat.simps show_int_def digits_val_def
  ParseUint_def parse_signed_def ParseInt_def

section \<open>Lemmas\<close>

lemma trim_left_Nil [simp]: "trim_left [] = []"
  by (simp add: trim_left.simps)

lemma trim_right_Nil [simp]: "trim_right [] = []"
  by (simp add: trim_right.simps)

lemma Split_not_Nil: "Split s c \<noteq> []"
  by (induction s) (auto split: list.splits)

lemma TrimSpace_Nil [simp]: "TrimSpace [] = []"
  by (simp add: TrimSpace_def)

lemma ToUpper_Nil [simp]: "ToUpper [] = []"
  by (simp add: ToUpper_def is_ascii_def)

lemma digits_val_append_digit:
  "digits_val (s @ [c]) = 10 * digits_val s + digit_val c"
  by (simp add: digits_val_def)

lemma digit_char_props [simp]:
  assumes "d < 10"
  shows "is_digit (digit_char d)" and "digit_val (digit_char d) = d"
  using assms by (simp_all add: is_digit_def digit_val_def digit_char_def)

lemma show_nat_digits: "list_all is_digit (show_nat n)"
proof (induction n rule: show_nat.induct)
  case (1 n)
  then show ?case by (subst show_nat.simps) (auto simp: list_all_iff)
qed

lemma show_nat_not_Nil [simp]: "show_nat n \<noteq> []"
  by (subst show_nat.simps) simp

lemma digits_val_show_nat [simp]: "digits_val (show_nat n) = n"
proof (induction n rule: show_nat.induct)
  case (1 n)
  show ?case
  proof (cases "n < 10")
    case True
    then show ?thesis by (subst show_nat.simps) (simp add: digits_val_def)
  next
    case False
    with 1 have "digits_val (show_nat (n div 10) @ [digit_char (n mod 10)]) = n"
      by (simp add: digits_val_append_digit)
    with False show ?thesis by (subst show_nat.simps) simp
  qed
qed

lemma ParseUint_show_nat [simp]: "n < 2 ^ 64 \<Longrightarrow> ParseUint (show_nat n) = Some n"
  by (simp add: ParseUint_def show_nat_digits)

end
