(* ===== verification/Go_Float.thy ===== *)
theory Go_Float
  imports Go_Strings
begin

text \<open>
  Go's \<^verbatim>\<open>float64\<close>: the IEEE 754 bit pattern, its value as a rational number, rounding to nearest
  even, and the conversions of package \<^verbatim>\<open>strconv\<close> between patterns and text. The conversions are
  stated by their result (the correctly rounded pattern; the shortest decimal that reads back as
  the pattern), which every algorithm that \<^verbatim>\<open>strconv\<close> chooses between computes.
\<close>

section \<open>Bit patterns\<close>

type_synonym float64 = uint64

definition f_neg :: "float64 \<Rightarrow> bool" where
  "f_neg f \<longleftrightarrow> 2 ^ 63 \<le> unat f"

definition f_exp :: "float64 \<Rightarrow> nat" where
  "f_exp f = unat f div 2 ^ 52 mod 2048"

definition f_man :: "float64 \<Rightarrow> nat" where
  "f_man f = unat f mod 2 ^ 52"

definition IsNaN :: "float64 \<Rightarrow> bool" where
  "IsNaN f \<longleftrightarrow> f_exp f = 2047 \<and> f_man f \<noteq> 0"

definition IsInf :: "float64 \<Rightarrow> bool" where
  "IsInf f \<longleftrightarrow> f_exp f = 2047 \<and> f_man f = 0"

definition f_finite :: "float64 \<Rightarrow> bool" where
  "f_finite f \<longleftrightarrow> f_exp f \<noteq> 2047"

definition f_bits :: "bool \<Rightarrow> nat \<Rightarrow> float64" where
  "f_bits neg b = of_nat (if neg then 2 ^ 63 + b else b)"

definition NaN :: float64 where
  "NaN = 0x7FF8000000000001"

definition Inf :: "bool \<Rightarrow> float64" where
  "Inf neg = f_bits neg (2047 * 2 ^ 52)"

section \<open>Values and rounding\<close>

definition pow_int :: "rat \<Rightarrow> int \<Rightarrow> rat" where
  "pow_int b k = (if 0 \<le> k then b ^ nat k else 1 / b ^ nat (- k))"

text \<open>The magnitude of a finite pattern.\<close>

definition f_abs :: "float64 \<Rightarrow> rat" where
  "f_abs f =
     (if f_exp f = 0 then of_nat (f_man f) * pow_int 2 (- 1074)
      else of_nat (2 ^ 52 + f_man f) * pow_int 2 (int (f_exp f) - 1075))"

text \<open>The largest \<open>k\<close> with \<open>b ^ k\<close> at most \<open>q\<close>, for positive \<open>q\<close>.\<close>

lemma floor_div_less:
  fixes x :: rat
  assumes "1 \<le> x" and "2 \<le> b"
  shows "nat \<lfloor>x / of_nat b\<rfloor> < nat \<lfloor>x\<rfloor>"
proof -
  have "x / of_nat b \<le> x / 2"
    using assms by (intro divide_left_mono) auto
  then have "\<lfloor>x / of_nat b\<rfloor> \<le> \<lfloor>x / 2\<rfloor>"
    by (rule floor_mono)
  moreover have "x / 2 < of_int \<lfloor>x\<rfloor>"
    using assms(1) floor_correct [of x] one_le_floor [of x] by linarith
  then have "\<lfloor>x / 2\<rfloor> < \<lfloor>x\<rfloor>"
    by (simp add: floor_less_iff)
  ultimately show ?thesis
    using assms(1) by linarith
qed

function flog :: "nat \<Rightarrow> rat \<Rightarrow> int" where
  "flog b q =
     (if b < 2 \<or> q \<le> 0 then 0
      else if of_nat b \<le> q then flog b (q / of_nat b) + 1
      else if q < 1 then flog b (q * of_nat b) - 1
      else 0)"
  by pat_completeness auto
termination
proof (relation "measure (\<lambda>(b, q). if of_nat b \<le> q then nat \<lfloor>q\<rfloor> else if q < 1 then nat \<lfloor>1 / q\<rfloor> else 0)",
    goal_cases)
  case 1
  show ?case by simp
next
  case (2 b q)
  have b: "2 \<le> b" and q: "of_nat b \<le> q" using 2 by auto
  have q1: "1 \<le> q" using b q by (metis of_nat_1 of_nat_le_iff one_le_numeral order_trans)
  have "\<not> q / of_nat b < 1" using b q by (simp add: field_simps)
  then show ?case
    using floor_div_less [OF q1 b] q q1 by auto
next
  case (3 b q)
  have b: "2 \<le> b" and q: "0 < q" "q < 1" using 3 by auto
  have inv: "1 \<le> 1 / q" using q by simp
  have "q * of_nat b < of_nat b" using b q by simp
  moreover have "nat \<lfloor>1 / (q * of_nat b)\<rfloor> < nat \<lfloor>1 / q\<rfloor>"
    using floor_div_less [OF inv b] by (simp add: field_simps)
  moreover have "0 < nat \<lfloor>1 / q\<rfloor>" using inv by simp
  ultimately show ?case
    using b q by auto
qed

declare flog.simps [simp del]

definition round_half_even :: "rat \<Rightarrow> int" where
  "round_half_even x =
     (let n = \<lfloor>x\<rfloor>; d = x - of_int n in
      if d < 1/2 \<or> (d = 1/2 \<and> even n) then n else n + 1)"

text \<open>
  The pattern nearest to a magnitude, ties to even, and whether it overflows. In the pattern of
  a magnitude \<open>m * 2 ^ e\<close> the carry of \<open>m = 2 ^ 53\<close> goes into the exponent field.
\<close>

definition round_bits :: "rat \<Rightarrow> nat" where
  "round_bits q =
     (if q \<le> 0 then 0
      else (let e = max (- 1074) (flog 2 q - 52) in
        nat ((e + 1074) * 2 ^ 52 + round_half_even (q / pow_int 2 e))))"

definition round_float :: "bool \<Rightarrow> rat \<Rightarrow> float64 option" where
  "round_float neg q =
     (let b = round_bits q in if b < 2047 * 2 ^ 52 then Some (f_bits neg b) else None)"

section \<open>Reading: strconv.ParseFloat\<close>

definition lower :: "char \<Rightarrow> char" where
  "lower c = char_of (ToLower_rune (byte c) mod 256)"

definition is_hex :: "char \<Rightarrow> bool" where
  "is_hex c \<longleftrightarrow> is_digit c \<or> (97 \<le> byte (lower c) \<and> byte (lower c) \<le> 102 \<and> byte c < 128)"

definition hex_val :: "char \<Rightarrow> nat" where
  "hex_val c = (if is_digit c then digit_val c else byte (lower c) - 87)"

definition digits_base :: "nat \<Rightarrow> string \<Rightarrow> nat" where
  "digits_base b s = foldl (\<lambda>n c. b * n + hex_val c) 0 s"

text \<open>\<^verbatim>\<open>underscoreOK\<close>: an underscore stands between digits, or between the base prefix and a digit.\<close>

fun us_ok :: "bool \<Rightarrow> char \<Rightarrow> string \<Rightarrow> bool" where
  "us_ok hex i [] = (i \<noteq> CHR ''_'')"
| "us_ok hex i (c # s) =
     (if is_digit c \<or> (hex \<and> is_hex c) then us_ok hex (CHR ''0'') s
      else if c = CHR ''_'' then i = CHR ''0'' \<and> us_ok hex (CHR ''_'') s
      else i \<noteq> CHR ''_'' \<and> us_ok hex (CHR ''!'') s)"

definition strip_sign :: "string \<Rightarrow> bool \<times> string" where
  "strip_sign s =
     (case s of c # r \<Rightarrow> if c = CHR ''-'' then (True, r) else if c = CHR ''+'' then (False, r) else (False, s)
      | [] \<Rightarrow> (False, s))"

definition hex_prefix :: "string \<Rightarrow> bool" where
  "hex_prefix s = (case s of a # b # _ \<Rightarrow> a = CHR ''0'' \<and> (b = CHR ''x'' \<or> b = CHR ''X'') | _ \<Rightarrow> False)"

definition underscoreOK :: "string \<Rightarrow> bool" where
  "underscoreOK s0 =
     (let s = snd (strip_sign s0) in
      case s of a # b # r \<Rightarrow>
          if a = CHR ''0'' \<and> lower b \<in> {CHR ''b'', CHR ''o'', CHR ''x''}
          then us_ok (lower b = CHR ''x'') (CHR ''0'') r
          else us_ok False (CHR ''^'') s
      | _ \<Rightarrow> us_ok False (CHR ''^'') s)"

text \<open>The mantissa: its digits, how many of them follow the point, and the rest of the text.\<close>

fun mantissa :: "(char \<Rightarrow> bool) \<Rightarrow> bool \<Rightarrow> string \<Rightarrow> string \<times> nat \<times> string" where
  "mantissa isd dot [] = ([], 0, [])"
| "mantissa isd dot (c # s) =
     (if c = CHR ''_'' then mantissa isd dot s
      else if c = CHR ''.'' then (if dot then ([], 0, c # s) else mantissa isd True s)
      else if isd c then
        (let (ds, n, r) = mantissa isd dot s in (c # ds, n + (if dot then 1 else 0), r))
      else ([], 0, c # s))"

text \<open>The digits of an exponent; the value stops growing at 10000.\<close>

definition exp_val :: "string \<Rightarrow> nat" where
  "exp_val s = foldl (\<lambda>e c. if e < 10000 then 10 * e + digit_val c else e) 0 s"

definition exponent :: "string \<Rightarrow> int option" where
  "exponent s =
     (let (neg, r) = strip_sign s in
      case r of [] \<Rightarrow> None
      | c # _ \<Rightarrow>
          if is_digit c \<and> list_all (\<lambda>c. is_digit c \<or> c = CHR ''_'') r then
            (let e = int (exp_val (filter is_digit r)) in Some (if neg then - e else e))
          else None)"

definition equal_fold :: "string \<Rightarrow> string \<Rightarrow> bool" where
  "equal_fold s low \<longleftrightarrow> map lower s = low"

text \<open>The sign and magnitude that a numeral denotes, or \<open>None\<close> for a syntax error.\<close>

definition read_float :: "string \<Rightarrow> (bool \<times> rat) option" where
  "read_float s =
     (let (neg, s1) = strip_sign s;
          hex = hex_prefix s1;
          s2 = (if hex then drop 2 s1 else s1);
          base = (if hex then 16 else 10);
          (ds, n, r) = mantissa (if hex then is_hex else is_digit) False s2;
          m = digits_base base ds
      in if ds = [] \<or> (CHR ''_'' \<in> set s \<and> \<not> underscoreOK s) then None
         else (case r of
             [] \<Rightarrow>
               if hex then None else Some (neg, of_nat m * pow_int 10 (- int n))
           | c # r' \<Rightarrow>
               if lower c = (if hex then CHR ''p'' else CHR ''e'') then
                 (case exponent r' of None \<Rightarrow> None
                  | Some e \<Rightarrow>
                      Some (neg, if hex then of_nat m * pow_int 2 (e - 4 * int n)
                                 else of_nat m * pow_int 10 (e - int n)))
               else None))"

text \<open>\<^verbatim>\<open>strconv.ParseFloat(s, 64)\<close>; \<open>None\<close> is a syntax or range error.\<close>

definition ParseFloat :: "string \<Rightarrow> float64 option" where
  "ParseFloat s =
     (let (neg, s1) = strip_sign s in
      if equal_fold s1 ''inf'' \<or> equal_fold s1 ''infinity'' then Some (Inf neg)
      else if equal_fold s ''nan'' then Some NaN
      else (case read_float s of None \<Rightarrow> None | Some (ng, q) \<Rightarrow> round_float ng q))"

section \<open>Writing: strconv.FormatFloat with the shortest precision\<close>

text \<open>
  A candidate of \<open>n\<close> digits for a magnitude \<open>q\<close> below \<open>10 ^ dp\<close> is the magnitude cut off or
  rounded up to \<open>n\<close> digits; it is good when it rounds to \<open>q\<close>'s pattern \<open>b\<close>. The result
  \<open>(D, p)\<close> stands for \<open>D * 10 ^ p\<close>.
\<close>

definition decimal_val :: "nat \<times> int \<Rightarrow> rat" where
  "decimal_val d = of_nat (fst d) * pow_int 10 (snd d)"

definition candidate :: "nat \<Rightarrow> rat \<Rightarrow> int \<Rightarrow> nat \<Rightarrow> (nat \<times> int) option" where
  "candidate b q dp n =
     (let p = dp - int n; x = q / pow_int 10 p; lo = nat \<lfloor>x\<rfloor>;
          okdown = round_bits (decimal_val (lo, p)) = b;
          okup = round_bits (decimal_val (lo + 1, p)) = b
      in if okdown \<and> okup then Some (nat (round_half_even x), p)
         else if okdown then Some (lo, p)
         else if okup then Some (lo + 1, p)
         else None)"

text \<open>
  The search for the fewest digits. Seventeen digits are enough for every pattern; a search that
  went past them would answer with the exact decimal expansion.
\<close>

definition exact_decimal :: "float64 \<Rightarrow> nat \<times> int" where
  "exact_decimal f =
     (let m = (if f_exp f = 0 then f_man f else 2 ^ 52 + f_man f);
          e = (if f_exp f = 0 then - 1074 else int (f_exp f) - 1075)
      in if 0 \<le> e then (m * 2 ^ nat e, 0) else (m * 5 ^ nat (- e), e))"

fun shortest_from :: "nat \<Rightarrow> nat \<Rightarrow> nat \<Rightarrow> rat \<Rightarrow> int \<Rightarrow> (nat \<times> int) option" where
  "shortest_from 0 n b q dp = None"
| "shortest_from (Suc fuel) n b q dp =
     (case candidate b q dp n of Some d \<Rightarrow> Some d | None \<Rightarrow> shortest_from fuel (n + 1) b q dp)"

text \<open>A decimal without trailing zeros.\<close>

function strip_zeros :: "nat \<Rightarrow> int \<Rightarrow> nat \<times> int" where
  "strip_zeros d p = (if d = 0 \<or> d mod 10 \<noteq> 0 then (d, p) else strip_zeros (d div 10) (p + 1))"
  by pat_completeness auto
termination
  by (relation "measure fst") auto

declare strip_zeros.simps [simp del]

definition shortest :: "float64 \<Rightarrow> nat \<times> int" where
  "shortest f =
     (let q = f_abs f; b = unat f mod 2 ^ 63; dp = flog 10 q + 1;
          d = (case shortest_from 17 1 b q dp of Some d \<Rightarrow> d | None \<Rightarrow> exact_decimal f)
      in strip_zeros (fst d) (snd d))"

text \<open>The two layouts of the digits \<open>ds\<close> of \<open>D\<close>, with \<open>D * 10 ^ p\<close> the magnitude.\<close>

definition layout_f :: "nat \<Rightarrow> int \<Rightarrow> string" where
  "layout_f d p =
     (let ds = show_nat d; nd = int (length ds); dp = nd + p in
      if d = 0 then ''0''
      else if 0 \<le> p then ds @ replicate (nat p) (CHR ''0'')
      else if 0 < dp then take (nat dp) ds @ ''.'' @ drop (nat dp) ds
      else ''0.'' @ replicate (nat (- dp)) (CHR ''0'') @ ds)"

definition exp_text :: "int \<Rightarrow> string" where
  "exp_text e =
     ''e'' @ (if e < 0 then ''-'' else ''+'')
     @ (if \<bar>e\<bar> < 10 then ''0'' else '''') @ show_nat (nat \<bar>e\<bar>)"

definition layout_e :: "nat \<Rightarrow> int \<Rightarrow> string" where
  "layout_e d p =
     (let ds = show_nat d; nd = length ds; e = (if d = 0 then 0 else int nd + p - 1) in
      take 1 ds @ (if 1 < nd then ''.'' @ drop 1 ds else []) @ exp_text e)"

definition sign_text :: "float64 \<Rightarrow> string" where
  "sign_text f = (if f_neg f then ''-'' else '''')"

text \<open>\<^verbatim>\<open>strconv.FormatFloat(f, 'f', -1, 64)\<close>.\<close>

definition FormatFloat_f :: "float64 \<Rightarrow> string" where
  "FormatFloat_f f =
     (if IsNaN f then ''NaN''
      else if IsInf f then (if f_neg f then ''-Inf'' else ''+Inf'')
      else sign_text f @ (let (d, p) = shortest f in layout_f d p))"

definition FormatFloat_e :: "float64 \<Rightarrow> string" where
  "FormatFloat_e f =
     (if IsNaN f then ''NaN''
      else if IsInf f then (if f_neg f then ''-Inf'' else ''+Inf'')
      else sign_text f @ (let (d, p) = shortest f in layout_e d p))"

text \<open>\<^verbatim>\<open>math.Ldexp\<close>: a finite pattern times a power of two, rounded once.\<close>

definition Ldexp :: "float64 \<Rightarrow> int \<Rightarrow> float64" where
  "Ldexp f k =
     (if \<not> f_finite f \<or> f_abs f = 0 then f
      else (case round_float (f_neg f) (f_abs f * pow_int 2 k) of
              Some g \<Rightarrow> g | None \<Rightarrow> Inf (f_neg f)))"

lemmas go_float_eval [go_eval] =
  f_neg_def f_exp_def f_man_def IsNaN_def IsInf_def f_finite_def f_bits_def NaN_def Inf_def
  pow_int_def f_abs_def flog.simps round_half_even_def round_bits_def round_float_def lower_def
  is_hex_def hex_val_def digits_base_def strip_sign_def hex_prefix_def underscoreOK_def exp_val_def
  exponent_def equal_fold_def read_float_def ParseFloat_def decimal_val_def candidate_def
  exact_decimal_def strip_zeros.simps shortest_def layout_f_def exp_text_def layout_e_def
  sign_text_def FormatFloat_f_def FormatFloat_e_def Ldexp_def

end
