(* ===== verification/Go_Time.thy ===== *)
theory Go_Time
  imports Go_Strings
begin

text \<open>
  The part of Go's package \<^verbatim>\<open>time\<close> that the repository uses: instants, their conversion from and
  to Unix milliseconds and nanoseconds, and the RFC 3339 text that \<^verbatim>\<open>time.Time\<close> writes and reads
  as JSON.
\<close>

section \<open>Instants\<close>

text \<open>
  \<open>t_sec\<close> counts seconds from January 1 of year 1, 00:00 UTC, and \<open>t_nsec\<close> the nanoseconds into
  that second, as in \<^verbatim>\<open>time.Time\<close>; \<open>t_off\<close> is the offset in seconds east of UTC that the
  time's location has at that instant (0 for UTC).
\<close>

record gotime =
  t_sec :: int
  t_nsec :: nat
  t_off :: int

definition time_wf :: "gotime \<Rightarrow> bool" where
  "time_wf t \<longleftrightarrow> t_nsec t < 1000000000"

definition zero_time :: gotime where
  "zero_time = \<lparr>t_sec = 0, t_nsec = 0, t_off = 0\<rparr>"

definition IsZero :: "gotime \<Rightarrow> bool" where
  "IsZero t \<longleftrightarrow> t_sec t = 0 \<and> t_nsec t = 0"

definition UTC :: "gotime \<Rightarrow> gotime" where
  "UTC t = t\<lparr>t_off := 0\<rparr>"

text \<open>Seconds from year 1 to 1970.\<close>

definition unixToInternal :: int where
  "unixToInternal = 62135596800"

text \<open>
  \<^verbatim>\<open>time.UnixMilli(ms).UTC()\<close> and \<^verbatim>\<open>time.Unix(0, ns).UTC()\<close>. Go divides towards zero and then
  borrows a second from a negative remainder, which is the rounding of \<open>div\<close>.
\<close>

definition UnixMilli_UTC :: "int \<Rightarrow> gotime" where
  "UnixMilli_UTC ms =
     \<lparr>t_sec = ms div 1000 + unixToInternal, t_nsec = nat (ms mod 1000) * 1000000, t_off = 0\<rparr>"

definition UnixNano_UTC :: "int \<Rightarrow> gotime" where
  "UnixNano_UTC ns =
     \<lparr>t_sec = ns div 1000000000 + unixToInternal, t_nsec = nat (ns mod 1000000000), t_off = 0\<rparr>"

text \<open>The method \<^verbatim>\<open>UnixMilli\<close>, with its result before the conversion to a machine integer.\<close>

definition UnixMilli :: "gotime \<Rightarrow> int" where
  "UnixMilli t = (t_sec t - unixToInternal) * 1000 + int (t_nsec t div 1000000)"

section \<open>Calendar\<close>

definition isLeap :: "int \<Rightarrow> bool" where
  "isLeap y \<longleftrightarrow> y mod 4 = 0 \<and> (y mod 100 \<noteq> 0 \<or> y mod 400 = 0)"

text \<open>
  Year and day of the year (from 0) of a day number (from January 1 of year 1): cycles of 400,
  100, 4 and 1 years are cut off in turn, and a fifth century or fifth year of a cycle, which is
  the cycle's extra leap day, is counted into the fourth.
\<close>

definition year_yday :: "int \<Rightarrow> int \<times> int" where
  "year_yday d =
     (let n400 = d div 146097; d1 = d mod 146097;
          n100 = min 3 (d1 div 36524); d2 = d1 - 36524 * n100;
          n4 = d2 div 1461; d3 = d2 mod 1461;
          n1 = min 3 (d3 div 365); d4 = d3 - 365 * n1
      in (400 * n400 + 100 * n100 + 4 * n4 + n1 + 1, d4))"

text \<open>Days before January 1 of a year.\<close>

definition days_before_year :: "int \<Rightarrow> int" where
  "days_before_year y =
     (let y0 = y - 1 in
      146097 * (y0 div 400) + 36524 * (y0 mod 400 div 100) + 1461 * (y0 mod 100 div 4)
      + 365 * (y0 mod 4))"

definition month_lengths :: "bool \<Rightarrow> int list" where
  "month_lengths leap = [31, if leap then 29 else 28, 31, 30, 31, 30, 31, 31, 30, 31, 30, 31]"

fun month_day :: "int list \<Rightarrow> int \<Rightarrow> int \<Rightarrow> int \<times> int" where
  "month_day [] m d = (m, d + 1)"
| "month_day (l # ls) m d = (if d < l then (m, d + 1) else month_day ls (m + 1) (d - l))"

definition days_before_month :: "bool \<Rightarrow> int \<Rightarrow> int" where
  "days_before_month leap m = sum_list (take (nat (m - 1)) (month_lengths leap))"

definition daysIn :: "int \<Rightarrow> int \<Rightarrow> int" where
  "daysIn m y = month_lengths (isLeap y) ! nat (m - 1)"

text \<open>\<^verbatim>\<open>time.Date(y, m, d, ...)\<close> for a month from 1 to 12, as a day number.\<close>

definition day_number :: "int \<Rightarrow> int \<Rightarrow> int \<Rightarrow> int" where
  "day_number y m d = days_before_year y + days_before_month (isLeap y) m + d - 1"

definition civil :: "int \<Rightarrow> int \<times> int \<times> int" where
  "civil dn =
     (let (y, yd) = year_yday dn; (m, d) = month_day (month_lengths (isLeap y)) 1 yd in (y, m, d))"

section \<open>RFC 3339 text\<close>

definition pad :: "nat \<Rightarrow> nat \<Rightarrow> string" where
  "pad w n = replicate (w - length (show_nat n)) (CHR ''0'') @ show_nat n"

definition pad_int :: "nat \<Rightarrow> int \<Rightarrow> string" where
  "pad_int w i = (if i < 0 then CHR ''-'' # pad w (nat (- i)) else pad w (nat i))"

text \<open>\<^verbatim>\<open>appendNano\<close>: nine digits without trailing zeros, nothing for 0.\<close>

definition frac_text :: "nat \<Rightarrow> string" where
  "frac_text ns =
     (if ns = 0 then [] else CHR ''.'' # rev (dropWhile (\<lambda>c. c = CHR ''0'') (rev (pad 9 ns))))"

definition zone_text :: "int \<Rightarrow> string" where
  "zone_text off =
     (if off = 0 then ''Z''
      else (let z = \<bar>off\<bar> div 60 in
        (if off \<le> -60 then CHR ''-'' else CHR ''+'')
        # pad 2 (nat (z div 60)) @ '':'' @ pad 2 (nat (z mod 60))))"

definition format_RFC3339Nano :: "gotime \<Rightarrow> string" where
  "format_RFC3339Nano t =
     (let ls = t_sec t + t_off t; (y, m, d) = civil (ls div 86400); s = ls mod 86400 in
      pad_int 4 y @ ''-'' @ pad 2 (nat m) @ ''-'' @ pad 2 (nat d) @ ''T''
      @ pad 2 (nat (s div 3600)) @ '':'' @ pad 2 (nat (s mod 3600 div 60)) @ '':''
      @ pad 2 (nat (s mod 60)) @ frac_text (t_nsec t) @ zone_text (t_off t))"

definition year_of :: "gotime \<Rightarrow> int" where
  "year_of t = fst (civil ((t_sec t + t_off t) div 86400))"

text \<open>
  \<^verbatim>\<open>Time.MarshalJSON\<close>: the quoted text, or an error for a year that does not have four digits or
  a zone of 24 hours or more.
\<close>

definition time_MarshalJSON :: "gotime \<Rightarrow> string res" where
  "time_MarshalJSON t =
     (if year_of t < 0 \<or> 9999 < year_of t then
        Inl (ErrLib ''Time.MarshalJSON'' ''year outside of range [0,9999]'')
      else if 24 \<le> \<bar>t_off t\<bar> div 3600 then
        Inl (ErrLib ''Time.MarshalJSON'' ''timezone hour outside of range [0,23]'')
      else Inr (''\"'' @ format_RFC3339Nano t @ ''\"''))"

text \<open>\<^verbatim>\<open>getnum\<close>: one or two digits, exactly two when \<open>fixed\<close>.\<close>

definition getnum :: "bool \<Rightarrow> string \<Rightarrow> (int \<times> string) option" where
  "getnum fixed s =
     (case s of
        a # b # r \<Rightarrow>
          if \<not> is_digit a then None
          else if is_digit b then Some (int (10 * digit_val a + digit_val b), r)
          else if fixed then None else Some (int (digit_val a), b # r)
      | [a] \<Rightarrow> if \<not> is_digit a \<or> fixed then None else Some (int (digit_val a), [])
      | [] \<Rightarrow> None)"

text \<open>\<open>getnum\<close>, the range test and the text that has to follow, in one step of the layout.\<close>

definition field :: "bool \<Rightarrow> int \<Rightarrow> int \<Rightarrow> string \<Rightarrow> string \<Rightarrow> (int \<times> string) option" where
  "field fixed lo hi suffix s =
     (case getnum fixed s of None \<Rightarrow> None
      | Some (x, r) \<Rightarrow>
          if lo \<le> x \<and> x \<le> hi \<and> HasPrefix r suffix then Some (x, drop (length suffix) r) else None)"

definition year_field :: "string \<Rightarrow> (int \<times> string) option" where
  "year_field s =
     (if 5 \<le> length s \<and> list_all is_digit (take 4 s) \<and> s ! 4 = CHR ''-''
      then Some (int (digits_val (take 4 s)), drop 5 s) else None)"

text \<open>A fraction after the seconds: a period or comma and digits, of which nine count.\<close>

definition frac_field :: "string \<Rightarrow> nat \<times> string" where
  "frac_field s =
     (case s of
        a # b # r \<Rightarrow>
          if (a = CHR ''.'' \<or> a = CHR '','') \<and> is_digit b then
            (let ds = takeWhile is_digit (b # r); d9 = take 9 ds in
             (digits_val d9 * 10 ^ (9 - length d9), dropWhile is_digit (b # r)))
          else (0, s)
      | _ \<Rightarrow> (0, s))"

text \<open>The zone: \<^verbatim>\<open>Z\<close>, or a sign, two digits, a colon and two digits, to the end of the text.\<close>

definition zone_field :: "string \<Rightarrow> int option" where
  "zone_field s =
     (if s = ''Z'' then Some 0
      else (case s of
        sg # r \<Rightarrow>
          (case field True 0 24 '':'' r of None \<Rightarrow> None
           | Some (h, r1) \<Rightarrow>
               (case field True 0 60 '''' r1 of None \<Rightarrow> None
                | Some (m, r2) \<Rightarrow>
                    if r2 \<noteq> [] then None
                    else if sg = CHR ''+'' then Some ((h * 60 + m) * 60)
                    else if sg = CHR ''-'' then Some (- ((h * 60 + m) * 60))
                    else None))
      | [] \<Rightarrow> None))"

text \<open>
  \<^verbatim>\<open>time.Parse(time.RFC3339, s)\<close>, with which \<^verbatim>\<open>Time.UnmarshalJSON\<close> reads a time. Go first tries a
  faster routine that accepts fewer texts and agrees with this one on them.
\<close>

definition Parse_RFC3339 :: "string \<Rightarrow> gotime option" where
  "Parse_RFC3339 s =
     (case year_field s of None \<Rightarrow> None | Some (y, s1) \<Rightarrow>
      (case field True 1 12 ''-'' s1 of None \<Rightarrow> None | Some (mo, s2) \<Rightarrow>
      (case field True 0 99 ''T'' s2 of None \<Rightarrow> None | Some (d, s3) \<Rightarrow>
      (case field False 0 23 '':'' s3 of None \<Rightarrow> None | Some (h, s4) \<Rightarrow>
      (case field True 0 59 '':'' s4 of None \<Rightarrow> None | Some (mi, s5) \<Rightarrow>
      (case field True 0 59 '''' s5 of None \<Rightarrow> None | Some (sc, s6) \<Rightarrow>
      (let (ns, s7) = frac_field s6 in
       (case zone_field s7 of None \<Rightarrow> None | Some off \<Rightarrow>
          if d < 1 \<or> daysIn mo y < d then None
          else Some \<lparr>t_sec = day_number y mo d * 86400 + h * 3600 + mi * 60 + sc - off,
                     t_nsec = ns, t_off = off\<rparr>))))))))"

text \<open>\<^verbatim>\<open>Time.UnmarshalJSON\<close> on the raw text of a JSON value; \<open>None\<close> leaves the time as it was.\<close>

definition time_UnmarshalJSON :: "string \<Rightarrow> gotime option res" where
  "time_UnmarshalJSON data =
     (if data = ''null'' then Inr None
      else if length data < 2 \<or> hd data \<noteq> CHR 0x22 \<or> last data \<noteq> CHR 0x22 then
        Inl (ErrLib ''Time.UnmarshalJSON'' ''input is not a JSON string'')
      else (case Parse_RFC3339 (butlast (tl data)) of
              None \<Rightarrow> Inl (ErrLib ''Time.UnmarshalJSON'' ''parsing time'')
            | Some t \<Rightarrow> Inr (Some t)))"

end
