(* ===== verification/Go_Map.thy ===== *)
theory Go_Map
  imports Prelude
begin

text \<open>
  Go's \<^verbatim>\<open>map[string]string\<close>. A map is the list of its entries in strictly increasing key order,
  which makes the representation unique; \<open>gm_wf\<close> is that order. A nil map is told apart from an
  empty one by \<open>option\<close> where the program's code can see the difference. The order in which
  \<^verbatim>\<open>range\<close> visits the entries is unspecified in Go; \<open>gm_put_all_perm\<close> shows that storing the
  entries of a map into another gives the same map in every order.
\<close>

type_synonym gomap = "(string \<times> string) list"

definition gm_empty :: gomap where
  "gm_empty = []"

definition gm_get :: "gomap \<Rightarrow> string \<Rightarrow> string option" where
  "gm_get m k = map_of m k"

fun gm_put :: "string \<Rightarrow> string \<Rightarrow> gomap \<Rightarrow> gomap" where
  "gm_put k v [] = [(k, v)]"
| "gm_put k v ((a, b) # m) =
     (if k = a then (k, v) # m else if k < a then (k, v) # (a, b) # m else (a, b) # gm_put k v m)"

definition gm_wf :: "gomap \<Rightarrow> bool" where
  "gm_wf m \<longleftrightarrow> sorted_wrt (<) (map fst m)"

text \<open>A nil map reads as an empty one.\<close>

definition entries :: "gomap option \<Rightarrow> gomap" where
  "entries m = (case m of None \<Rightarrow> gm_empty | Some es \<Rightarrow> es)"

definition gm_put_all :: "(string \<times> string) list \<Rightarrow> gomap \<Rightarrow> gomap" where
  "gm_put_all es m = foldl (\<lambda>out (k, v). gm_put k v out) m es"

declare gm_empty_def [go_eval] gm_get_def [go_eval] entries_def [go_eval] gm_put_all_def [go_eval]
  gm_wf_def [go_eval]

section \<open>The interface of a map\<close>

locale finite_string_map =
  fixes empty :: "'m"
    and get :: "'m \<Rightarrow> string \<Rightarrow> string option"
    and put :: "string \<Rightarrow> string \<Rightarrow> 'm \<Rightarrow> 'm"
    and wf :: "'m \<Rightarrow> bool"
  assumes wf_empty: "wf empty"
    and wf_put: "wf m \<Longrightarrow> wf (put k v m)"
    and get_empty: "get empty k = None"
    and get_put: "wf m \<Longrightarrow> get (put k v m) = (get m)(k \<mapsto> v)"
    and ext: "wf m \<Longrightarrow> wf n \<Longrightarrow> get m = get n \<Longrightarrow> m = n"
begin

definition put_all :: "(string \<times> string) list \<Rightarrow> 'm \<Rightarrow> 'm" where
  "put_all es m = foldl (\<lambda>out (k, v). put k v out) m es"

lemma put_all_Nil [simp]: "put_all [] m = m"
  by (simp add: put_all_def)

lemma put_all_Cons [simp]: "put_all ((k, v) # es) m = put_all es (put k v m)"
  by (simp add: put_all_def)

lemma wf_put_all: "wf m \<Longrightarrow> wf (put_all es m)"
  by (induction es arbitrary: m) (auto simp: wf_put)

lemma get_put_all: "wf m \<Longrightarrow> get (put_all es m) = get m ++ map_of (rev es)"
proof (induction es arbitrary: m)
  case Nil
  then show ?case by simp
next
  case (Cons e es)
  obtain k v where e: "e = (k, v)" by (cases e)
  have "get (put_all es (put k v m)) = (get m)(k \<mapsto> v) ++ map_of (rev es)"
    by (simp only: Cons.IH [OF wf_put] get_put Cons.prems)
  then show ?case by (simp add: e fun_eq_iff map_add_def split: option.splits)
qed

lemma get_put_all_distinct:
  assumes "wf m" and "distinct (map fst es)"
  shows "get (put_all es m) = get m ++ map_of es"
proof -
  have "map_of (rev es) = map_of es"
    using assms(2) by (simp add: map_of_inject_set rev_map [symmetric])
  with assms(1) show ?thesis by (simp add: get_put_all)
qed

lemma put_commute: "wf m \<Longrightarrow> k \<noteq> l \<Longrightarrow> put k v (put l w m) = put l w (put k v m)"
  by (rule ext) (auto simp: wf_put get_put fun_upd_twist)

text \<open>The order of the entries does not matter when the keys are distinct.\<close>

lemma put_all_perm:
  assumes "wf m" and "distinct (map fst es)" and "distinct (map fst es')" and "set es = set es'"
  shows "put_all es m = put_all es' m"
proof (rule ext)
  show "wf (put_all es m)" and "wf (put_all es' m)"
    using assms(1) by (simp_all add: wf_put_all)
  have "map_of es = map_of es'"
    using assms(2-4) by (simp add: map_of_inject_set)
  then show "get (put_all es m) = get (put_all es' m)"
    using assms(1-3) by (simp add: get_put_all_distinct)
qed

end

section \<open>The sorted entry list implements the interface\<close>

lemma fst_set_gm_put: "fst ` set (gm_put k v m) = insert k (fst ` set m)"
  by (induction k v m rule: gm_put.induct) auto

lemma gm_wf_Cons: "gm_wf ((a, b) # m) \<longleftrightarrow> (\<forall>k \<in> fst ` set m. a < k) \<and> gm_wf m"
  by (auto simp: gm_wf_def)

lemma gm_wf_Nil [simp]: "gm_wf []"
  by (simp add: gm_wf_def)

lemma gm_wf_put: "gm_wf m \<Longrightarrow> gm_wf (gm_put k v m)"
proof (induction k v m rule: gm_put.induct)
  case (1 k v)
  show ?case by (simp add: gm_wf_Cons)
next
  case (2 k v a b m)
  then show ?case
    by (auto simp: gm_wf_Cons fst_set_gm_put intro: order.strict_trans)
qed

lemma gm_get_put: "gm_get (gm_put k v m) = (gm_get m)(k \<mapsto> v)"
  by (induction k v m rule: gm_put.induct) (auto simp: gm_get_def fun_eq_iff)

lemma gm_wf_distinct: "gm_wf m \<Longrightarrow> distinct (map fst m)"
  by (simp add: gm_wf_def strict_sorted_iff)

lemma entries_from_keys:
  assumes "distinct (map fst m)"
  shows "map (\<lambda>k. (k, the (map_of m k))) (map fst m) = m"
  using assms by (auto intro!: map_idI simp: comp_def)

lemma gm_ext:
  assumes "gm_wf m" and "gm_wf n" and "gm_get m = gm_get n"
  shows "m = n"
proof -
  have map_of: "map_of m = map_of n"
    using fun_cong [OF assms(3)] by (simp add: gm_get_def fun_eq_iff)
  have "fst ` set m = fst ` set n"
    using arg_cong [OF map_of, of dom] by (simp add: dom_map_of_conv_image_fst)
  then have "map fst m = map fst n"
    using assms(1,2) by (intro strict_sorted_equal) (simp_all add: gm_wf_def)
  then have "map (\<lambda>k. (k, the (map_of m k))) (map fst m) =
      map (\<lambda>k. (k, the (map_of n k))) (map fst n)"
    by (simp only: map_of)
  then show ?thesis
    by (simp only: entries_from_keys gm_wf_distinct assms(1,2))
qed

interpretation gm: finite_string_map gm_empty gm_get gm_put gm_wf
  rewrites "finite_string_map.put_all gm_put = gm_put_all"
proof -
  show *: "finite_string_map gm_empty gm_get gm_put gm_wf"
    by unfold_locales (simp_all add: gm_wf_put gm_get_put gm_empty_def gm_get_def gm_ext)
  show "finite_string_map.put_all gm_put = gm_put_all"
    by (intro ext) (simp add: finite_string_map.put_all_def [OF *] gm_put_all_def)
qed

lemma gm_get_Nil [simp]: "gm_get [] k = None"
  by (simp add: gm_get_def)

end
