(* ===== verification/Go_Json.thy ===== *)
theory Go_Json
  imports Go_Strings Go_Float Go_Time Go_Map
begin

text \<open>
  Go's package \<^verbatim>\<open>encoding/json\<close>: the scanner and the syntax tree it accepts, quoting and unquoting
  of strings, the encoding of numbers and string maps, and the decoding of a tree into the Go
  types that the repository's structs are made of.
\<close>

section \<open>Strings\<close>

definition hex_digit :: "nat \<Rightarrow> char" where
  "hex_digit n = (if n < 10 then char_of (48 + n) else char_of (87 + n))"

abbreviation "DQUOTE \<equiv> CHR 0x22"
abbreviation "BSLASH \<equiv> CHR 0x5C"

text \<open>\<^verbatim>\<open>htmlSafeSet\<close>: what \<^verbatim>\<open>json.Marshal\<close> writes unescaped below U+0080.\<close>

definition html_safe :: "char \<Rightarrow> bool" where
  "html_safe c \<longleftrightarrow>
     32 \<le> byte c \<and> byte c < 128 \<and> c \<noteq> DQUOTE \<and> c \<noteq> BSLASH
     \<and> c \<noteq> CHR ''<'' \<and> c \<noteq> CHR ''>'' \<and> c \<noteq> CHR ''&''"

definition escape_ascii :: "char \<Rightarrow> string" where
  "escape_ascii c =
     (if html_safe c then [c]
      else if c = BSLASH \<or> c = DQUOTE then [BSLASH, c]
      else if byte c = 8 then [BSLASH, CHR ''b'']
      else if byte c = 12 then [BSLASH, CHR ''f'']
      else if byte c = 10 then [BSLASH, CHR ''n'']
      else if byte c = 13 then [BSLASH, CHR ''r'']
      else if byte c = 9 then [BSLASH, CHR ''t'']
      else [BSLASH, CHR ''u'', CHR ''0'', CHR ''0'', hex_digit (byte c div 16), hex_digit (byte c mod 16)])"

text \<open>
  \<^verbatim>\<open>appendString\<close>: an invalid byte becomes the escape of U+FFFD, the line and paragraph
  separators are escaped, every other rune above U+007F is copied.
\<close>

definition escape_rune :: "string \<Rightarrow> string" where
  "escape_rune s =
     (let (r, n) = DecodeRune s in
      if byte (hd s) < 128 then escape_ascii (hd s)
      else if r = RuneError \<and> n = 1 then BSLASH # ''ufffd''
      else if r = 8232 \<or> r = 8233 then BSLASH # ''u202'' @ [hex_digit (r mod 16)]
      else take n s)"

function escape_body :: "string \<Rightarrow> string" where
  "escape_body s = (if s = [] then [] else escape_rune s @ escape_body (drop (snd (DecodeRune s)) s))"
  by pat_completeness auto
termination
  by (relation "measure length") (auto simp: DecodeRune_size_pos)

declare escape_body.simps [simp del]

definition quote :: "string \<Rightarrow> string" where
  "quote s = DQUOTE # escape_body s @ [DQUOTE]"

text \<open>\<^verbatim>\<open>getu4\<close>: the four hexadecimal digits of an escape that starts with backslash and u.\<close>

definition getu4 :: "string \<Rightarrow> nat option" where
  "getu4 s =
     (case s of b # u # h1 # h2 # h3 # h4 # _ \<Rightarrow>
        if b = BSLASH \<and> u = CHR ''u'' \<and> list_all is_hex [h1, h2, h3, h4]
        then Some (digits_base 16 [h1, h2, h3, h4]) else None
      | _ \<Rightarrow> None)"

definition is_surrogate :: "nat \<Rightarrow> bool" where
  "is_surrogate r \<longleftrightarrow> 55296 \<le> r \<and> r < 57344"

text \<open>\<^verbatim>\<open>utf16.DecodeRune\<close> on a first unit and what follows it, if that is an escape.\<close>

definition surrogate_pair :: "nat \<Rightarrow> nat option \<Rightarrow> nat option" where
  "surrogate_pair r1 r2 =
     (case r2 of None \<Rightarrow> None
      | Some x \<Rightarrow>
          if 55296 \<le> r1 \<and> r1 < 56320 \<and> 56320 \<le> x \<and> x < 57344
          then Some ((r1 - 55296) * 1024 + (x - 56320) + 65536) else None)"

definition simple_escape :: "char \<Rightarrow> char" where
  "simple_escape e =
     (if e = CHR ''b'' then char_of (8::nat) else if e = CHR ''f'' then char_of (12::nat)
      else if e = CHR ''n'' then char_of (10::nat) else if e = CHR ''r'' then char_of (13::nat)
      else if e = CHR ''t'' then char_of (9::nat) else e)"

text \<open>
  One step of \<^verbatim>\<open>unquoteBytes\<close>: the bytes produced and the number of bytes consumed. The scanner has
  already refused an escape that is none of the grammar's; here it ends the text.
\<close>

definition unquote_step :: "string \<Rightarrow> string \<times> nat" where
  "unquote_step s =
     (if hd s = BSLASH then
        (case s of b # e # _ \<Rightarrow>
           if e = CHR ''u'' then
             (case getu4 s of None \<Rightarrow> ([], length s)
              | Some r \<Rightarrow>
                  if is_surrogate r then
                    (case surrogate_pair r (getu4 (drop 6 s)) of
                       Some x \<Rightarrow> (EncodeRune x, 12)
                     | None \<Rightarrow> (EncodeRune RuneError, 6))
                  else (EncodeRune r, 6))
           else if e \<in> {CHR ''b'', CHR ''f'', CHR ''n'', CHR ''r'', CHR ''t'', BSLASH, CHR ''/'', DQUOTE}
           then ([simple_escape e], 2)
           else ([], length s)
         | _ \<Rightarrow> ([], length s))
      else if byte (hd s) < 128 then ([hd s], 1)
      else (let (r, n) = DecodeRune s in (EncodeRune r, n)))"

lemma unquote_step_pos: "s \<noteq> [] \<Longrightarrow> 0 < snd (unquote_step s)"
  by (auto simp: unquote_step_def DecodeRune_size_pos split: list.splits option.splits prod.splits)

function unquote :: "string \<Rightarrow> string" where
  "unquote s = (if s = [] then [] else fst (unquote_step s) @ unquote (drop (snd (unquote_step s)) s))"
  by pat_completeness auto
termination
  by (relation "measure length") (auto simp: unquote_step_pos)

declare unquote.simps [simp del]

section \<open>Scanner\<close>

text \<open>
  The value tree. Strings and keys keep the text between their quotes and numbers their text,
  since \<^verbatim>\<open>Time.UnmarshalJSON\<close> and the number conversions read it.
\<close>

datatype json =
    JNull
  | JBool bool
  | JNum string
  | JStr string
  | JArr "json list"
  | JObj "(string \<times> json) list"

definition is_ws :: "char \<Rightarrow> bool" where
  "is_ws c \<longleftrightarrow> byte c \<in> {32, 9, 13, 10}"

definition skip_ws :: "string \<Rightarrow> string" where
  "skip_ws s = dropWhile is_ws s"

text \<open>The rest of a string literal after its opening quote: the text up to the closing one.\<close>

fun lex_string :: "string \<Rightarrow> (string \<times> string) option" where
  "lex_string [] = None"
| "lex_string (c # s) =
     (if c = DQUOTE then Some ([], s)
      else if c = BSLASH then
        (case s of [] \<Rightarrow> None
         | e # s1 \<Rightarrow>
             if e = CHR ''u'' then
               (case s1 of h1 # h2 # h3 # h4 # s2 \<Rightarrow>
                  if list_all is_hex [h1, h2, h3, h4]
                  then map_option (\<lambda>(t, r). (c # e # h1 # h2 # h3 # h4 # t, r)) (lex_string s2)
                  else None
                | _ \<Rightarrow> None)
             else if e \<in> {CHR ''b'', CHR ''f'', CHR ''n'', CHR ''r'', CHR ''t'', BSLASH, CHR ''/'', DQUOTE}
             then map_option (\<lambda>(t, r). (c # e # t, r)) (lex_string s1)
             else None)
      else if byte c < 32 then None
      else map_option (\<lambda>(t, r). (c # t, r)) (lex_string s))"

definition lex_digits :: "string \<Rightarrow> (string \<times> string) option" where
  "lex_digits s =
     (let ds = takeWhile is_digit s in if ds = [] then None else Some (ds, dropWhile is_digit s))"

definition lex_int :: "string \<Rightarrow> (string \<times> string) option" where
  "lex_int s =
     (case s of c # r \<Rightarrow> if c = CHR ''0'' then Some (''0'', r) else lex_digits s | [] \<Rightarrow> None)"

definition lex_frac :: "string \<Rightarrow> (string \<times> string) option" where
  "lex_frac s =
     (case s of c # r \<Rightarrow>
        if c = CHR ''.'' then map_option (\<lambda>(ds, r'). (c # ds, r')) (lex_digits r) else Some ([], s)
      | [] \<Rightarrow> Some ([], s))"

definition lex_exp :: "string \<Rightarrow> (string \<times> string) option" where
  "lex_exp s =
     (case s of c # r \<Rightarrow>
        if c = CHR ''e'' \<or> c = CHR ''E'' then
          (case r of g # r' \<Rightarrow>
             if g = CHR ''+'' \<or> g = CHR ''-''
             then map_option (\<lambda>(ds, r''). (c # g # ds, r'')) (lex_digits r')
             else map_option (\<lambda>(ds, r''). (c # ds, r'')) (lex_digits r)
           | [] \<Rightarrow> None)
        else Some ([], s)
      | [] \<Rightarrow> Some ([], s))"

definition lex_number :: "string \<Rightarrow> (string \<times> string) option" where
  "lex_number s =
     (let (sg, s0) = (case s of c # r \<Rightarrow> if c = CHR ''-'' then ([c], r) else ([], s) | [] \<Rightarrow> ([], s)) in
      case lex_int s0 of None \<Rightarrow> None | Some (i, s1) \<Rightarrow>
      (case lex_frac s1 of None \<Rightarrow> None | Some (f, s2) \<Rightarrow>
      (case lex_exp s2 of None \<Rightarrow> None | Some (e, s3) \<Rightarrow> Some (sg @ i @ f @ e, s3))))"

definition maxNestingDepth :: nat where
  "maxNestingDepth = 10000"

text \<open>
  The grammar. The first argument is fuel: at most two calls pass before a byte is consumed, so a
  fuel above twice the length of the text is never used up (\<open>parse_value_fuel\<close>). The second is the
  nesting depth, which the scanner bounds. \<open>None\<close> is a syntax error.
\<close>

fun parse_value :: "nat \<Rightarrow> nat \<Rightarrow> string \<Rightarrow> (json \<times> string) option"
  and parse_members :: "nat \<Rightarrow> nat \<Rightarrow> string \<Rightarrow> ((string \<times> json) list \<times> string) option"
  and parse_elements :: "nat \<Rightarrow> nat \<Rightarrow> string \<Rightarrow> (json list \<times> string) option" where
  "parse_value 0 d s = None"
| "parse_value (Suc n) d s =
     (case skip_ws s of [] \<Rightarrow> None
      | c # r \<Rightarrow>
          if c = CHR ''{'' then
            (if maxNestingDepth \<le> d then None
             else if HasPrefix (skip_ws r) ''}'' then Some (JObj [], tl (skip_ws r))
             else map_option (\<lambda>(ms, r'). (JObj ms, r')) (parse_members n (d + 1) r))
          else if c = CHR ''['' then
            (if maxNestingDepth \<le> d then None
             else if HasPrefix (skip_ws r) '']'' then Some (JArr [], tl (skip_ws r))
             else map_option (\<lambda>(vs, r'). (JArr vs, r')) (parse_elements n (d + 1) r))
          else if c = DQUOTE then map_option (\<lambda>(t, r'). (JStr t, r')) (lex_string r)
          else if HasPrefix (c # r) ''true'' then Some (JBool True, drop 4 (c # r))
          else if HasPrefix (c # r) ''false'' then Some (JBool False, drop 5 (c # r))
          else if HasPrefix (c # r) ''null'' then Some (JNull, drop 4 (c # r))
          else map_option (\<lambda>(t, r'). (JNum t, r')) (lex_number (c # r)))"
| "parse_members 0 d s = None"
| "parse_members (Suc n) d s =
     (case skip_ws s of [] \<Rightarrow> None
      | c # r \<Rightarrow>
          if c \<noteq> DQUOTE then None
          else (case lex_string r of None \<Rightarrow> None
            | Some (k, r1) \<Rightarrow>
                if \<not> HasPrefix (skip_ws r1) '':'' then None
                else (case parse_value n d (tl (skip_ws r1)) of None \<Rightarrow> None
                  | Some (v, r2) \<Rightarrow>
                      (case skip_ws r2 of [] \<Rightarrow> None
                       | e # r3 \<Rightarrow>
                           if e = CHR ''}'' then Some ([(k, v)], r3)
                           else if e = CHR '','' then
                             map_option (\<lambda>(ms, r4). ((k, v) # ms, r4)) (parse_members n d r3)
                           else None))))"
| "parse_elements 0 d s = None"
| "parse_elements (Suc n) d s =
     (case parse_value n d s of None \<Rightarrow> None
      | Some (v, r2) \<Rightarrow>
          (case skip_ws r2 of [] \<Rightarrow> None
           | e # r3 \<Rightarrow>
               if e = CHR '']'' then Some ([v], r3)
               else if e = CHR '','' then
                 map_option (\<lambda>(vs, r4). (v # vs, r4)) (parse_elements n d r3)
               else None))"

definition json_fuel :: "string \<Rightarrow> nat" where
  "json_fuel s = 2 * length s + 2"

text \<open>\<^verbatim>\<open>json.Unmarshal\<close> reads one value and nothing but white space after it.\<close>

definition parse_document :: "string \<Rightarrow> json res" where
  "parse_document s =
     (case parse_value (json_fuel s) 0 s of
        Some (v, r) \<Rightarrow> if skip_ws r = [] then Inr v else Inl (ErrLib ''json'' ''SyntaxError'')
      | None \<Rightarrow> Inl (ErrLib ''json'' ''SyntaxError''))"

text \<open>\<^verbatim>\<open>Decoder.Decode\<close> reads one value and leaves what follows it.\<close>

definition parse_prefix :: "string \<Rightarrow> json res" where
  "parse_prefix s =
     (case parse_value (json_fuel s) 0 s of
        Some (v, r) \<Rightarrow> Inr v
      | None \<Rightarrow> Inl (if skip_ws s = [] then EOF else ErrLib ''json'' ''SyntaxError''))"

section \<open>Encoding\<close>

fun join :: "string \<Rightarrow> string list \<Rightarrow> string" where
  "join sep [] = []"
| "join sep [x] = x"
| "join sep (x # y # xs) = x @ sep @ join sep (y # xs)"

text \<open>An object from its keys and the texts of its values.\<close>

definition member_text :: "string \<times> string \<Rightarrow> string" where
  "member_text kv = quote (fst kv) @ '':'' @ snd kv"

definition object_text :: "(string \<times> string) list \<Rightarrow> string" where
  "object_text ms = ''{'' @ join '','' (map member_text ms) @ ''}''"

text \<open>A string map, in key order.\<close>

definition strmap_text :: "gomap \<Rightarrow> string" where
  "strmap_text m = object_text (map (\<lambda>(k, v). (k, quote v)) m)"

text \<open>\<^verbatim>\<open>floatEncoder\<close>: exponents outside the range of ES6, without a leading zero.\<close>

definition fix_exp :: "string \<Rightarrow> string" where
  "fix_exp s =
     (let n = length s in
      if 4 \<le> n \<and> s ! (n - 4) = CHR ''e'' \<and> s ! (n - 3) = CHR ''-'' \<and> s ! (n - 2) = CHR ''0''
      then take (n - 2) s @ [last s] else s)"

definition float_text :: "float64 \<Rightarrow> string res" where
  "float_text f =
     (if \<not> f_finite f then Inl (ErrLib ''json'' ''UnsupportedValueError'')
      else Inr (if f_abs f \<noteq> 0 \<and> (f_abs f < f_abs 0x3EB0C6F7A0B5ED8D \<or> pow_int 10 21 \<le> f_abs f)
                then fix_exp (FormatFloat_e f) else FormatFloat_f f))"

section \<open>Decoding\<close>

definition type_error :: err where
  "type_error = ErrLib ''json'' ''UnmarshalTypeError''"

text \<open>
  A decoder of one Go type takes the old value and a tree and gives the new value and, for a value
  of the wrong type, the error that \<^verbatim>\<open>Unmarshal\<close> saves while it goes on.
\<close>

type_synonym 'a decoder = "'a \<Rightarrow> json \<Rightarrow> 'a \<times> err option"

definition dec_string :: "string decoder" where
  "dec_string old v =
     (case v of JNull \<Rightarrow> (old, None) | JStr t \<Rightarrow> (unquote t, None) | _ \<Rightarrow> (old, Some type_error))"

definition dec_uint :: "nat \<Rightarrow> ('w::len word) decoder" where
  "dec_uint bound old v =
     (case v of JNull \<Rightarrow> (old, None)
      | JNum t \<Rightarrow>
          (case ParseUint t of
             Some n \<Rightarrow> if n < bound then (of_nat n, None) else (old, Some type_error)
           | None \<Rightarrow> (old, Some type_error))
      | _ \<Rightarrow> (old, Some type_error))"

definition dec_uint64 :: "uint64 decoder" where
  "dec_uint64 = dec_uint (2 ^ 64)"

definition dec_uint16 :: "uint16 decoder" where
  "dec_uint16 = dec_uint (2 ^ 16)"

definition dec_int :: "int decoder" where
  "dec_int old v =
     (case v of JNull \<Rightarrow> (old, None)
      | JNum t \<Rightarrow> (case ParseInt t of Some i \<Rightarrow> (i, None) | None \<Rightarrow> (old, Some type_error))
      | _ \<Rightarrow> (old, Some type_error))"

definition dec_float :: "float64 decoder" where
  "dec_float old v =
     (case v of JNull \<Rightarrow> (old, None)
      | JNum t \<Rightarrow> (case ParseFloat t of Some f \<Rightarrow> (f, None) | None \<Rightarrow> (old, Some type_error))
      | _ \<Rightarrow> (old, Some type_error))"

text \<open>The first error is the one that is kept.\<close>

definition save_error :: "err option \<Rightarrow> err option \<Rightarrow> err option" where
  "save_error saved e = (case saved of None \<Rightarrow> e | Some _ \<Rightarrow> saved)"

text \<open>
  \<^verbatim>\<open>map[string]string\<close>: null makes the map nil, an object adds its entries to the map that is there
  (a null or mistyped value stores the empty string).
\<close>

fun dec_entries :: "gomap \<Rightarrow> err option \<Rightarrow> (string \<times> json) list \<Rightarrow> gomap \<times> err option" where
  "dec_entries m e [] = (m, e)"
| "dec_entries m e ((k, v) # ms) =
     (let (x, e') = dec_string [] v in dec_entries (gm_put (unquote k) x m) (save_error e e') ms)"

definition dec_strmap :: "gomap option decoder" where
  "dec_strmap old v =
     (case v of JNull \<Rightarrow> (None, None)
      | JObj ms \<Rightarrow> (let (m, e) = dec_entries (entries old) None ms in (Some m, e))
      | _ \<Rightarrow> (old, Some type_error))"

text \<open>
  Field names match a key exactly or, failing that, under case folding. Of the runes above U+007F
  only U+017F and U+212A fold to an ASCII letter (S and K).
\<close>

definition fold_rune :: "nat \<Rightarrow> nat" where
  "fold_rune r =
     (if 97 \<le> r \<and> r \<le> 122 then r - 32 else if r = 383 then 83 else if r = 8490 then 75 else r)"

definition fold_name :: "string \<Rightarrow> nat list" where
  "fold_name s = map fold_rune (runes s)"

definition match_field :: "string list \<Rightarrow> string \<Rightarrow> string option" where
  "match_field names key =
     (if key \<in> set names then Some key
      else find (\<lambda>f. fold_name f = fold_name key) names)"

lemmas go_json_eval [go_eval] =
  hex_digit_def html_safe_def escape_ascii_def escape_rune_def escape_body.simps quote_def getu4_def
  is_surrogate_def surrogate_pair_def simple_escape_def unquote_step_def unquote.simps is_ws_def
  skip_ws_def lex_digits_def lex_int_def lex_frac_def lex_exp_def lex_number_def maxNestingDepth_def
  json_fuel_def parse_document_def parse_prefix_def member_text_def object_text_def strmap_text_def
  fix_exp_def float_text_def type_error_def dec_string_def dec_uint_def dec_uint64_def
  dec_uint16_def dec_int_def dec_float_def save_error_def dec_strmap_def fold_rune_def fold_name_def
  match_field_def

end
