(* ===== verification/Go_Scan.thy ===== *)
theory Go_Scan
  imports Go_Strings Go_Float
begin

text \<open>
  \<^verbatim>\<open>fmt.Sscanf\<close> with the formats \<^verbatim>\<open>%d\<close> into a \<^verbatim>\<open>uint64\<close> and \<^verbatim>\<open>%f\<close> into a \<^verbatim>\<open>float64\<close>. \<open>None\<close> is an
  error; text after the number is ignored, as \<^verbatim>\<open>Sscanf\<close> does.
\<close>

text \<open>\<^verbatim>\<open>SkipSpace\<close>: a newline is an error, also after a carriage return.\<close>

function scan_skip :: "string \<Rightarrow> string option" where
  "scan_skip s =
     (if s = [] then Some []
      else if fst (DecodeRune s) = 10 then None
      else if IsSpace (fst (DecodeRune s)) then scan_skip (drop (snd (DecodeRune s)) s)
      else Some s)"
  by pat_completeness auto
termination
  by (relation "measure length") (auto simp: DecodeRune_size_pos)

declare scan_skip.simps [simp del]

definition Sscanf_d :: "string \<Rightarrow> nat option" where
  "Sscanf_d v =
     (case scan_skip v of None \<Rightarrow> None | Some s \<Rightarrow> ParseUint (takeWhile is_digit s))"

text \<open>\<^verbatim>\<open>accept\<close>: at most one of the given characters.\<close>

definition accept :: "string \<Rightarrow> string \<Rightarrow> string \<times> string" where
  "accept cs s = (case s of c # r \<Rightarrow> if c \<in> set cs then ([c], r) else ([], s) | [] \<Rightarrow> ([], s))"

definition accept_many :: "(char \<Rightarrow> bool) \<Rightarrow> string \<Rightarrow> string \<times> string" where
  "accept_many P s = (takeWhile P s, dropWhile P s)"

text \<open>A word, letter by letter: what was accepted, the rest, and whether it is complete.\<close>

fun accept_word :: "string list \<Rightarrow> string \<Rightarrow> string \<times> string \<times> bool" where
  "accept_word [] s = ([], s, True)"
| "accept_word (cs # css) s =
     (let (a, s1) = accept cs s in
      if a = [] then ([], s, False)
      else (let (b, s2, ok) = accept_word css s1 in (a @ b, s2, ok)))"

definition dig_us :: "char \<Rightarrow> bool" where
  "dig_us c \<longleftrightarrow> is_digit c \<or> c = CHR ''_''"

definition hex_us :: "char \<Rightarrow> bool" where
  "hex_us c \<longleftrightarrow> is_hex c \<or> c = CHR ''_''"

text \<open>The number part of \<^verbatim>\<open>floatToken\<close>, after the sign.\<close>

definition number_token :: "string \<Rightarrow> string" where
  "number_token s =
     (let (z, s1) = accept ''0'' s;
          (x, s2) = (if z = [] then ([], s1) else accept ''xX'' s1);
          isd = (if x = [] then dig_us else hex_us);
          (ds, s3) = accept_many isd s2;
          (pt, s4) = accept ''.'' s3;
          (fs, s5) = (if pt = [] then ([], s4) else accept_many isd s4);
          (e, s6) = accept (if x = [] then ''eEpP'' else ''pP'') s5;
          (sg, s7) = (if e = [] then ([], s6) else accept ''+-'' s6);
          es = (if e = [] then [] else takeWhile dig_us s7)
      in z @ x @ ds @ pt @ fs @ e @ sg @ es)"

definition floatToken :: "string \<Rightarrow> string" where
  "floatToken s =
     (let (a, s1, nan) = accept_word [''nN'', ''aA'', ''nN''] s in
      if nan then a
      else (let (sg, s2) = accept ''+-'' s1;
                (i, s3, inf) = accept_word [''iI'', ''nN'', ''fF''] s2
            in if inf then a @ sg @ i else a @ sg @ i @ number_token s3))"

text \<open>\<^verbatim>\<open>convertFloat\<close>: a decimal mantissa may carry a power-of-two exponent.\<close>

definition convertFloat :: "string \<Rightarrow> float64 option" where
  "convertFloat str =
     (if CHR ''p'' \<in> set str \<and> CHR ''x'' \<notin> set str \<and> CHR ''X'' \<notin> set str then
        (let m = takeWhile (\<lambda>c. c \<noteq> CHR ''p'') str; e = drop (length m + 1) str in
         case (ParseFloat m, ParseInt e) of
           (Some f, Some k) \<Rightarrow> Some (Ldexp f k)
         | _ \<Rightarrow> None)
      else ParseFloat str)"

definition Sscanf_f :: "string \<Rightarrow> float64 option" where
  "Sscanf_f v =
     (case scan_skip v of None \<Rightarrow> None
      | Some s \<Rightarrow> if s = [] then None else convertFloat (floatToken s))"

lemmas go_scan_eval [go_eval] =
  scan_skip.simps Sscanf_d_def accept_def accept_many_def dig_us_def hex_us_def number_token_def
  floatToken_def convertFloat_def Sscanf_f_def

end
