(* ===== verification/Schema.thy ===== *)
theory Schema
  imports Go_Json Go_Scan
begin

text \<open>
  Package \<^verbatim>\<open>pkg/schema\<close>, file \<^verbatim>\<open>event.go\<close>: the canonical log event, its validation and level
  normalisation, the mappings from and to the REST payload and from OTLP-style attributes, and the
  broker's wire format. \<^verbatim>\<open>time.Now()\<close> is an argument \<open>now\<close> of the functions that read the clock.
\<close>

section \<open>Data\<close>

definition DefaultTopic :: string where
  "DefaultTopic = ''logs.ingestion.raw.v1''"

definition LevelDebug :: string where "LevelDebug = ''DEBUG''"
definition LevelInfo :: string where "LevelInfo = ''INFO''"
definition LevelWarn :: string where "LevelWarn = ''WARN''"
definition LevelError :: string where "LevelError = ''ERROR''"
definition LevelFatal :: string where "LevelFatal = ''FATAL''"

record LogEvent =
  Timestamp :: gotime
  ID :: uint64
  LogLevel :: string
  Message :: string
  Service :: string
  Host :: string
  Environment :: string
  RequestID :: string
  ClientIP :: string
  UserAgent :: string
  RequestMethod :: string
  RequestPath :: string
  ResponseStatus :: uint16
  ResponseDurationMs :: float64
  Attrs :: "gomap option"

record RESTMetadata =
  m_RequestID :: string
  m_ClientIP :: string
  m_UserAgent :: string
  m_RequestMethod :: string
  m_RequestPath :: string
  m_ResponseStatus :: int
  m_ResponseDuration :: float64
  m_Extra :: "gomap option"

record RESTSource =
  s_Host :: string
  s_Service :: string
  s_Environment :: string
  s_Extra :: "gomap option"

record RESTPayload =
  p_ID :: uint64
  p_Timestamp :: uint64
  p_LogLevel :: string
  p_Message :: string
  p_Metadata :: RESTMetadata
  p_Source :: RESTSource

text \<open>The zero values of the structs.\<close>

definition zero_event :: LogEvent where
  "zero_event =
     \<lparr>Timestamp = zero_time, ID = 0, LogLevel = [], Message = [], Service = [], Host = [],
      Environment = [], RequestID = [], ClientIP = [], UserAgent = [], RequestMethod = [],
      RequestPath = [], ResponseStatus = 0, ResponseDurationMs = 0, Attrs = None\<rparr>"

definition zero_metadata :: RESTMetadata where
  "zero_metadata =
     \<lparr>m_RequestID = [], m_ClientIP = [], m_UserAgent = [], m_RequestMethod = [], m_RequestPath = [],
      m_ResponseStatus = 0, m_ResponseDuration = 0, m_Extra = None\<rparr>"

definition zero_source :: RESTSource where
  "zero_source = \<lparr>s_Host = [], s_Service = [], s_Environment = [], s_Extra = None\<rparr>"

definition zero_payload :: RESTPayload where
  "zero_payload =
     \<lparr>p_ID = 0, p_Timestamp = 0, p_LogLevel = [], p_Message = [],
      p_Metadata = zero_metadata, p_Source = zero_source\<rparr>"

section \<open>Validation and log levels\<close>

definition ValidLogLevel :: "string \<Rightarrow> bool" where
  "ValidLogLevel level \<longleftrightarrow>
     ToUpper (TrimSpace level) \<in> {LevelDebug, LevelInfo, LevelWarn, LevelError, LevelFatal}"

text \<open>A nil receiver is \<open>None\<close>; the result \<open>None\<close> is the nil error.\<close>

definition Validate :: "LogEvent option \<Rightarrow> err option" where
  "Validate ev =
     (case ev of None \<Rightarrow> Some (ErrNew ''event is nil'')
      | Some e \<Rightarrow>
          if TrimSpace (Message e) = [] then Some ErrEmptyMessage
          else if TrimSpace (Service e) = [] then Some ErrEmptyService
          else if LogLevel e \<noteq> [] \<and> \<not> ValidLogLevel (LogLevel e)
          then Some (Wrap ''%w: %q'' [ArgQ (LogLevel e)] ErrInvalidLevel)
          else if IsZero (Timestamp e) then Some (ErrNew ''timestamp is required'')
          else None)"

definition NormalizeLogLevel :: "string \<Rightarrow> string" where
  "NormalizeLogLevel level0 =
     (let level = ToUpper (TrimSpace level0) in if level = [] then LevelInfo else level)"

section \<open>Attributes\<close>

text \<open>The inner loop of \<open>mergeAttrs\<close>, over the entries of one map.\<close>

fun merge_map :: "(string \<times> string) list \<Rightarrow> gomap \<Rightarrow> gomap" where
  "merge_map [] out = out"
| "merge_map ((k, v) # m) out = (if k = [] then merge_map m out else merge_map m (gm_put k v out))"

fun merge_maps :: "gomap option list \<Rightarrow> gomap \<Rightarrow> gomap" where
  "merge_maps [] out = out"
| "merge_maps (m # ms) out = merge_maps ms (merge_map (entries m) out)"

definition mergeAttrs :: "gomap option list \<Rightarrow> gomap option" where
  "mergeAttrs maps = (let out = merge_maps maps gm_empty in if length out = 0 then None else Some out)"

definition cloneMap :: "gomap option \<Rightarrow> gomap option" where
  "cloneMap m =
     (if length (entries m) = 0 then None else Some (gm_put_all (entries m) gm_empty))"

fun firstAttr :: "gomap option \<Rightarrow> string list \<Rightarrow> string" where
  "firstAttr attrs [] = []"
| "firstAttr attrs (k # ks) =
     (case gm_get (entries attrs) k of
        Some v \<Rightarrow> if v \<noteq> [] then v else firstAttr attrs ks
      | None \<Rightarrow> firstAttr attrs ks)"

fun parseUint16Attr :: "gomap option \<Rightarrow> string list \<Rightarrow> uint16" where
  "parseUint16Attr attrs [] = 0"
| "parseUint16Attr attrs (k # ks) =
     (case gm_get (entries attrs) k of
        Some v \<Rightarrow>
          if v \<noteq> [] then
            (case Sscanf_d v of
               Some n \<Rightarrow> if n \<le> 65535 then of_nat n else parseUint16Attr attrs ks
             | None \<Rightarrow> parseUint16Attr attrs ks)
          else parseUint16Attr attrs ks
      | None \<Rightarrow> parseUint16Attr attrs ks)"

fun parseFloatAttr :: "gomap option \<Rightarrow> string list \<Rightarrow> float64" where
  "parseFloatAttr attrs [] = 0"
| "parseFloatAttr attrs (k # ks) =
     (case gm_get (entries attrs) k of
        Some v \<Rightarrow>
          if v \<noteq> [] then
            (case Sscanf_f v of Some f \<Rightarrow> f | None \<Rightarrow> parseFloatAttr attrs ks)
          else parseFloatAttr attrs ks
      | None \<Rightarrow> parseFloatAttr attrs ks)"

section \<open>REST\<close>

text \<open>The event that \<open>FromREST\<close> builds from a payload, before it is validated.\<close>

definition rest_event :: "gotime \<Rightarrow> RESTPayload \<Rightarrow> LogEvent" where
  "rest_event now p =
     (let attrs = mergeAttrs [s_Extra (p_Source p), m_Extra (p_Metadata p)];
          ts = (if p_Timestamp p = 0 then UTC now else UnixMilli_UTC (sint (p_Timestamp p)))
      in \<lparr>Timestamp = ts,
          ID = p_ID p,
          LogLevel = NormalizeLogLevel (p_LogLevel p),
          Message = p_Message p,
          Service = s_Service (p_Source p),
          Host = s_Host (p_Source p),
          Environment = s_Environment (p_Source p),
          RequestID = m_RequestID (p_Metadata p),
          ClientIP = m_ClientIP (p_Metadata p),
          UserAgent = m_UserAgent (p_Metadata p),
          RequestMethod = m_RequestMethod (p_Metadata p),
          RequestPath = m_RequestPath (p_Metadata p),
          ResponseStatus = word_of_int (m_ResponseStatus (p_Metadata p)),
          ResponseDurationMs = m_ResponseDuration (p_Metadata p),
          Attrs = attrs\<rparr>)"

definition FromREST :: "gotime \<Rightarrow> RESTPayload \<Rightarrow> LogEvent res" where
  "FromREST now p =
     (let ev = rest_event now p in
      case Validate (Some ev) of Some e \<Rightarrow> Inl e | None \<Rightarrow> Inr ev)"

definition ToREST :: "LogEvent \<Rightarrow> RESTPayload" where
  "ToREST e =
     \<lparr>p_ID = ID e,
      p_Timestamp = word_of_int (UnixMilli (UTC (Timestamp e))),
      p_LogLevel = LogLevel e,
      p_Message = Message e,
      p_Metadata =
        \<lparr>m_RequestID = RequestID e,
         m_ClientIP = ClientIP e,
         m_UserAgent = UserAgent e,
         m_RequestMethod = RequestMethod e,
         m_RequestPath = RequestPath e,
         m_ResponseStatus = uint (ResponseStatus e),
         m_ResponseDuration = ResponseDurationMs e,
         m_Extra = cloneMap (Attrs e)\<rparr>,
      p_Source =
        \<lparr>s_Host = Host e, s_Service = Service e, s_Environment = Environment e, s_Extra = None\<rparr>\<rparr>"

section \<open>OTLP-style attributes\<close>

text \<open>The event that \<open>FromOTLPLike\<close> builds, with the time it was given.\<close>

definition otlp_event ::
  "gotime \<Rightarrow> string \<Rightarrow> string \<Rightarrow> gomap option \<Rightarrow> gomap option \<Rightarrow> LogEvent" where
  "otlp_event ts severity body resourceAttrs logAttrs =
     (let attrs = mergeAttrs [resourceAttrs, logAttrs]
      in \<lparr>Timestamp = UTC ts,
          ID = 0,
          LogLevel = NormalizeLogLevel severity,
          Message = body,
          Service = firstAttr attrs [''service.name'', ''service''],
          Host = firstAttr attrs [''host.name'', ''host''],
          Environment = firstAttr attrs [''deployment.environment'', ''environment''],
          RequestID = firstAttr attrs [''http.request_id'', ''request_id'', ''requestId''],
          ClientIP = firstAttr attrs [''client.address'', ''client_ip'', ''clientIp''],
          UserAgent = firstAttr attrs [''user_agent.original'', ''user_agent'', ''userAgent''],
          RequestMethod =
            firstAttr attrs [''http.request.method'', ''request_method'', ''requestMethod''],
          RequestPath = firstAttr attrs [''url.path'', ''request_path'', ''requestPath''],
          ResponseStatus =
            parseUint16Attr attrs
              [''http.response.status_code'', ''response_status'', ''responseStatus''],
          ResponseDurationMs =
            parseFloatAttr attrs
              [''http.server.request.duration'', ''response_duration_ms'', ''responseDuration''],
          Attrs = attrs\<rparr>)"

definition FromOTLPLike ::
  "gotime \<Rightarrow> gotime \<Rightarrow> string \<Rightarrow> string \<Rightarrow> gomap option \<Rightarrow> gomap option \<Rightarrow> LogEvent res" where
  "FromOTLPLike now ts severity body resourceAttrs logAttrs =
     (let ev = otlp_event ts severity body resourceAttrs logAttrs;
          ev' = (if IsZero (Timestamp ev) then ev\<lparr>Timestamp := UTC now\<rparr> else ev)
      in case Validate (Some ev') of Some e \<Rightarrow> Inl e | None \<Rightarrow> Inr ev')"

section \<open>Wire format\<close>

text \<open>
  The JSON encoding of \<open>LogEvent\<close> that its struct tags determine: the fields in order, \<open>attrs\<close>
  left out when it is empty. The first field that cannot be encoded gives the error.
\<close>

definition event_members :: "LogEvent \<Rightarrow> string \<Rightarrow> string \<Rightarrow> (string \<times> string) list" where
  "event_members e ts dur =
     [(''timestamp'', ts),
      (''id'', show_nat (unat (ID e))),
      (''log_level'', quote (LogLevel e)),
      (''message'', quote (Message e)),
      (''service'', quote (Service e)),
      (''host'', quote (Host e)),
      (''environment'', quote (Environment e)),
      (''request_id'', quote (RequestID e)),
      (''client_ip'', quote (ClientIP e)),
      (''user_agent'', quote (UserAgent e)),
      (''request_method'', quote (RequestMethod e)),
      (''request_path'', quote (RequestPath e)),
      (''response_status'', show_nat (unat (ResponseStatus e))),
      (''response_duration_ms'', dur)]
     @ (if entries (Attrs e) = [] then [] else [(''attrs'', strmap_text (entries (Attrs e)))])"

definition json_Marshal_event :: "LogEvent \<Rightarrow> bytes res" where
  "json_Marshal_event e =
     bind_res (time_MarshalJSON (Timestamp e)) (\<lambda>ts.
     bind_res (float_text (ResponseDurationMs e)) (\<lambda>dur.
       Inr (object_text (event_members e ts dur))))"

definition MarshalEvent :: "LogEvent \<Rightarrow> bytes res" where
  "MarshalEvent e =
     (case Validate (Some e) of Some er \<Rightarrow> Inl er | None \<Rightarrow> json_Marshal_event e)"

definition event_fields :: "string list" where
  "event_fields =
     [''timestamp'', ''id'', ''log_level'', ''message'', ''service'', ''host'', ''environment'',
      ''request_id'', ''client_ip'', ''user_agent'', ''request_method'', ''request_path'',
      ''response_status'', ''response_duration_ms'', ''attrs'']"

text \<open>A time that does not parse stops the decoding at once.\<close>

definition dec_time :: "gotime \<Rightarrow> json \<Rightarrow> gotime res" where
  "dec_time old v =
     (case v of JNull \<Rightarrow> Inr old
      | JStr t \<Rightarrow>
          (case Parse_RFC3339 t of
             Some ts \<Rightarrow> Inr ts
           | None \<Rightarrow> Inl (ErrLib ''Time.UnmarshalJSON'' ''parsing time''))
      | _ \<Rightarrow> Inl (ErrLib ''Time.UnmarshalJSON'' ''input is not a JSON string''))"

text \<open>One member of the object, stored into the field its key names, if any.\<close>

definition dec_event_field :: "LogEvent \<Rightarrow> string \<Rightarrow> json \<Rightarrow> (LogEvent \<times> err option) res" where
  "dec_event_field e f v =
     (if f = ''timestamp'' then
        bind_res (dec_time (Timestamp e) v) (\<lambda>t. Inr (e\<lparr>Timestamp := t\<rparr>, None))
      else Inr
       (if f = ''id'' then map_prod (\<lambda>x. e\<lparr>ID := x\<rparr>) id (dec_uint64 (ID e) v)
        else if f = ''log_level'' then map_prod (\<lambda>x. e\<lparr>LogLevel := x\<rparr>) id (dec_string (LogLevel e) v)
        else if f = ''message'' then map_prod (\<lambda>x. e\<lparr>Message := x\<rparr>) id (dec_string (Message e) v)
        else if f = ''service'' then map_prod (\<lambda>x. e\<lparr>Service := x\<rparr>) id (dec_string (Service e) v)
        else if f = ''host'' then map_prod (\<lambda>x. e\<lparr>Host := x\<rparr>) id (dec_string (Host e) v)
        else if f = ''environment'' then
          map_prod (\<lambda>x. e\<lparr>Environment := x\<rparr>) id (dec_string (Environment e) v)
        else if f = ''request_id'' then map_prod (\<lambda>x. e\<lparr>RequestID := x\<rparr>) id (dec_string (RequestID e) v)
        else if f = ''client_ip'' then map_prod (\<lambda>x. e\<lparr>ClientIP := x\<rparr>) id (dec_string (ClientIP e) v)
        else if f = ''user_agent'' then map_prod (\<lambda>x. e\<lparr>UserAgent := x\<rparr>) id (dec_string (UserAgent e) v)
        else if f = ''request_method'' then
          map_prod (\<lambda>x. e\<lparr>RequestMethod := x\<rparr>) id (dec_string (RequestMethod e) v)
        else if f = ''request_path'' then
          map_prod (\<lambda>x. e\<lparr>RequestPath := x\<rparr>) id (dec_string (RequestPath e) v)
        else if f = ''response_status'' then
          map_prod (\<lambda>x. e\<lparr>ResponseStatus := x\<rparr>) id (dec_uint16 (ResponseStatus e) v)
        else if f = ''response_duration_ms'' then
          map_prod (\<lambda>x. e\<lparr>ResponseDurationMs := x\<rparr>) id (dec_float (ResponseDurationMs e) v)
        else map_prod (\<lambda>x. e\<lparr>Attrs := x\<rparr>) id (dec_strmap (Attrs e) v)))"

fun dec_event_members ::
  "LogEvent \<Rightarrow> err option \<Rightarrow> (string \<times> json) list \<Rightarrow> (LogEvent \<times> err option) res" where
  "dec_event_members e saved [] = Inr (e, saved)"
| "dec_event_members e saved ((k, v) # ms) =
     (case match_field event_fields (unquote k) of
        None \<Rightarrow> dec_event_members e saved ms
      | Some f \<Rightarrow>
          bind_res (dec_event_field e f v)
            (\<lambda>(e', er). dec_event_members e' (save_error saved er) ms))"

definition json_Unmarshal_event :: "bytes \<Rightarrow> LogEvent res" where
  "json_Unmarshal_event data =
     bind_res (parse_document data) (\<lambda>v.
       case v of
         JNull \<Rightarrow> Inr zero_event
       | JObj ms \<Rightarrow>
           bind_res (dec_event_members zero_event None ms)
             (\<lambda>(e, saved). case saved of None \<Rightarrow> Inr e | Some er \<Rightarrow> Inl er)
       | _ \<Rightarrow> Inl type_error)"

definition UnmarshalEvent :: "bytes \<Rightarrow> LogEvent res" where
  "UnmarshalEvent data =
     bind_res (json_Unmarshal_event data) (\<lambda>e0.
       let e = e0\<lparr>LogLevel := NormalizeLogLevel (LogLevel e0)\<rparr> in
       case Validate (Some e) of Some er \<Rightarrow> Inl er | None \<Rightarrow> Inr e)"

section \<open>REST request bodies\<close>

text \<open>The JSON decoding of \<open>RESTPayload\<close> and its nested structs that their tags determine.\<close>

definition metadata_fields :: "string list" where
  "metadata_fields =
     [''requestId'', ''clientIp'', ''userAgent'', ''requestMethod'', ''requestPath'',
      ''responseStatus'', ''responseDuration'', ''extra'']"

definition dec_metadata_field :: "RESTMetadata \<Rightarrow> string \<Rightarrow> json \<Rightarrow> RESTMetadata \<times> err option" where
  "dec_metadata_field m f v =
     (if f = ''requestId'' then map_prod (\<lambda>x. m\<lparr>m_RequestID := x\<rparr>) id (dec_string (m_RequestID m) v)
      else if f = ''clientIp'' then map_prod (\<lambda>x. m\<lparr>m_ClientIP := x\<rparr>) id (dec_string (m_ClientIP m) v)
      else if f = ''userAgent'' then
        map_prod (\<lambda>x. m\<lparr>m_UserAgent := x\<rparr>) id (dec_string (m_UserAgent m) v)
      else if f = ''requestMethod'' then
        map_prod (\<lambda>x. m\<lparr>m_RequestMethod := x\<rparr>) id (dec_string (m_RequestMethod m) v)
      else if f = ''requestPath'' then
        map_prod (\<lambda>x. m\<lparr>m_RequestPath := x\<rparr>) id (dec_string (m_RequestPath m) v)
      else if f = ''responseStatus'' then
        map_prod (\<lambda>x. m\<lparr>m_ResponseStatus := x\<rparr>) id (dec_int (m_ResponseStatus m) v)
      else if f = ''responseDuration'' then
        map_prod (\<lambda>x. m\<lparr>m_ResponseDuration := x\<rparr>) id (dec_float (m_ResponseDuration m) v)
      else map_prod (\<lambda>x. m\<lparr>m_Extra := x\<rparr>) id (dec_strmap (m_Extra m) v))"

definition source_fields :: "string list" where
  "source_fields = [''host'', ''service'', ''environment'', ''extra'']"

definition dec_source_field :: "RESTSource \<Rightarrow> string \<Rightarrow> json \<Rightarrow> RESTSource \<times> err option" where
  "dec_source_field s f v =
     (if f = ''host'' then map_prod (\<lambda>x. s\<lparr>s_Host := x\<rparr>) id (dec_string (s_Host s) v)
      else if f = ''service'' then map_prod (\<lambda>x. s\<lparr>s_Service := x\<rparr>) id (dec_string (s_Service s) v)
      else if f = ''environment'' then
        map_prod (\<lambda>x. s\<lparr>s_Environment := x\<rparr>) id (dec_string (s_Environment s) v)
      else map_prod (\<lambda>x. s\<lparr>s_Extra := x\<rparr>) id (dec_strmap (s_Extra s) v))"

text \<open>A struct whose fields only save errors, member by member.\<close>

fun dec_members ::
  "string list \<Rightarrow> ('a \<Rightarrow> string \<Rightarrow> json \<Rightarrow> 'a \<times> err option) \<Rightarrow> 'a \<Rightarrow> err option
   \<Rightarrow> (string \<times> json) list \<Rightarrow> 'a \<times> err option" where
  "dec_members names dec x saved [] = (x, saved)"
| "dec_members names dec x saved ((k, v) # ms) =
     (case match_field names (unquote k) of
        None \<Rightarrow> dec_members names dec x saved ms
      | Some f \<Rightarrow> (let (x', er) = dec x f v in dec_members names dec x' (save_error saved er) ms))"

definition dec_struct ::
  "string list \<Rightarrow> ('a \<Rightarrow> string \<Rightarrow> json \<Rightarrow> 'a \<times> err option) \<Rightarrow> 'a decoder" where
  "dec_struct names dec old v =
     (case v of JNull \<Rightarrow> (old, None)
      | JObj ms \<Rightarrow> dec_members names dec old None ms
      | _ \<Rightarrow> (old, Some type_error))"

definition payload_fields :: "string list" where
  "payload_fields = [''id'', ''timestamp'', ''logLevel'', ''message'', ''metadata'', ''source'']"

definition dec_payload_field :: "RESTPayload \<Rightarrow> string \<Rightarrow> json \<Rightarrow> RESTPayload \<times> err option" where
  "dec_payload_field p f v =
     (if f = ''id'' then map_prod (\<lambda>x. p\<lparr>p_ID := x\<rparr>) id (dec_uint64 (p_ID p) v)
      else if f = ''timestamp'' then
        map_prod (\<lambda>x. p\<lparr>p_Timestamp := x\<rparr>) id (dec_uint64 (p_Timestamp p) v)
      else if f = ''logLevel'' then map_prod (\<lambda>x. p\<lparr>p_LogLevel := x\<rparr>) id (dec_string (p_LogLevel p) v)
      else if f = ''message'' then map_prod (\<lambda>x. p\<lparr>p_Message := x\<rparr>) id (dec_string (p_Message p) v)
      else if f = ''metadata'' then
        map_prod (\<lambda>x. p\<lparr>p_Metadata := x\<rparr>) id
          (dec_struct metadata_fields dec_metadata_field (p_Metadata p) v)
      else map_prod (\<lambda>x. p\<lparr>p_Source := x\<rparr>) id
          (dec_struct source_fields dec_source_field (p_Source p) v))"

definition json_Decode_payload :: "bytes \<Rightarrow> RESTPayload res" where
  "json_Decode_payload body =
     bind_res (parse_prefix body) (\<lambda>v.
       case dec_struct payload_fields dec_payload_field zero_payload v of
         (p, None) \<Rightarrow> Inr p
       | (p, Some er) \<Rightarrow> Inl er)"

end
