(* ===== verification/Otlp.thy ===== *)
theory Otlp
  imports Schema
begin

text \<open>
  Package \<^verbatim>\<open>pkg/schema\<close>, file \<^verbatim>\<open>otlp.go\<close>: OTLP export requests to canonical events. The request's
  messages are generated protobuf types outside the repository; the records below hold the fields
  the code reads, and a nil message, whose getters return zero values, is the zero record. The text
  that \<^verbatim>\<open>fmt.Sprint\<close> gives a protobuf array or list is protobuf's, a parameter \<open>sprint\<close>.
\<close>

section \<open>Messages\<close>

datatype AnyValue =
    StringValue string
  | BoolValue bool
  | IntValue int
  | DoubleValue float64
  | BytesValue bytes
  | ArrayValue "AnyValue list"
  | KvlistValue "(string \<times> AnyValue) list"
  | NoValue

record KeyValue =
  kv_Key :: string
  kv_Value :: "AnyValue option"

record LogRecord =
  lr_TimeUnixNano :: uint64
  lr_SeverityNumber :: int
  lr_SeverityText :: string
  lr_Body :: "AnyValue option"
  lr_Attributes :: "KeyValue option list"

record ScopeLogs =
  sl_LogRecords :: "LogRecord list"

record ResourceLogs =
  rl_Attributes :: "KeyValue option list"
  rl_ScopeLogs :: "ScopeLogs list"

record ExportLogsServiceRequest =
  req_ResourceLogs :: "ResourceLogs list"

section \<open>Conversion\<close>

definition FormatBool :: "bool \<Rightarrow> string" where
  "FormatBool b = (if b then ''true'' else ''false'')"

definition anyValueToString :: "(AnyValue \<Rightarrow> string) \<Rightarrow> AnyValue option \<Rightarrow> string" where
  "anyValueToString sprint v =
     (case v of None \<Rightarrow> []
      | Some val \<Rightarrow>
          (case val of
             StringValue s \<Rightarrow> s
           | BoolValue b \<Rightarrow> FormatBool b
           | IntValue i \<Rightarrow> show_int i
           | DoubleValue f \<Rightarrow> FormatFloat_f f
           | BytesValue b \<Rightarrow> b
           | ArrayValue vs \<Rightarrow> sprint val
           | KvlistValue kvs \<Rightarrow> sprint val
           | NoValue \<Rightarrow> []))"

fun kv_loop :: "(AnyValue \<Rightarrow> string) \<Rightarrow> KeyValue option list \<Rightarrow> gomap \<Rightarrow> gomap" where
  "kv_loop sprint [] out = out"
| "kv_loop sprint (kv # kvs) out =
     (case kv of None \<Rightarrow> kv_loop sprint kvs out
      | Some x \<Rightarrow>
          if kv_Key x = [] then kv_loop sprint kvs out
          else kv_loop sprint kvs (gm_put (kv_Key x) (anyValueToString sprint (kv_Value x)) out))"

definition keyValuesToMap :: "(AnyValue \<Rightarrow> string) \<Rightarrow> KeyValue option list \<Rightarrow> gomap option" where
  "keyValuesToMap sprint kvs =
     (if length kvs = 0 then None else Some (kv_loop sprint kvs gm_empty))"

text \<open>The severity numbers of OTLP: DEBUG 5, INFO 9, WARN 13, ERROR 17, FATAL 21.\<close>

definition severityNumberToText :: "int \<Rightarrow> string" where
  "severityNumberToText n =
     (if 21 \<le> n then LevelFatal
      else if 17 \<le> n then LevelError
      else if 13 \<le> n then LevelWarn
      else if 9 \<le> n then LevelInfo
      else if 5 \<le> n then LevelDebug
      else LevelInfo)"

text \<open>
  The body of the innermost loop; \<open>now\<close> is the clock at this record. Both calls of \<^verbatim>\<open>time.Now()\<close> read it, here
  for a record without a time and in \<open>FromOTLPLike\<close> for a zero time; the second call can only follow
  the first if that has returned the zero time.
\<close>

definition log_record ::
  "(AnyValue \<Rightarrow> string) \<Rightarrow> gotime \<Rightarrow> gomap option \<Rightarrow> LogRecord \<Rightarrow> LogEvent res" where
  "log_record sprint now resourceAttrs lr =
     (let logAttrs = keyValuesToMap sprint (lr_Attributes lr);
          ts = (if lr_TimeUnixNano lr = 0 then UTC now else UnixNano_UTC (sint (lr_TimeUnixNano lr)));
          severity = (if lr_SeverityText lr = [] then severityNumberToText (lr_SeverityNumber lr)
                      else lr_SeverityText lr)
      in case FromOTLPLike now ts severity (anyValueToString sprint (lr_Body lr)) resourceAttrs logAttrs of
           Inl er \<Rightarrow> Inl (Wrap ''otlp: log record: %w'' [] er)
         | Inr ev \<Rightarrow> Inr ev)"

text \<open>The loops; \<open>now k\<close> is the clock at the \<open>k\<close>-th record.\<close>

fun record_loop ::
  "(AnyValue \<Rightarrow> string) \<Rightarrow> (nat \<Rightarrow> gotime) \<Rightarrow> gomap option \<Rightarrow> LogRecord list \<Rightarrow> LogEvent list
   \<Rightarrow> LogEvent list res" where
  "record_loop sprint now ra [] events = Inr events"
| "record_loop sprint now ra (lr # lrs) events =
     (case log_record sprint (now (length events)) ra lr of
        Inl er \<Rightarrow> Inl er
      | Inr ev \<Rightarrow> record_loop sprint now ra lrs (events @ [ev]))"

fun scope_loop ::
  "(AnyValue \<Rightarrow> string) \<Rightarrow> (nat \<Rightarrow> gotime) \<Rightarrow> gomap option \<Rightarrow> ScopeLogs list \<Rightarrow> LogEvent list
   \<Rightarrow> LogEvent list res" where
  "scope_loop sprint now ra [] events = Inr events"
| "scope_loop sprint now ra (sl # sls) events =
     bind_res (record_loop sprint now ra (sl_LogRecords sl) events) (scope_loop sprint now ra sls)"

fun resource_loop ::
  "(AnyValue \<Rightarrow> string) \<Rightarrow> (nat \<Rightarrow> gotime) \<Rightarrow> ResourceLogs list \<Rightarrow> LogEvent list
   \<Rightarrow> LogEvent list res" where
  "resource_loop sprint now [] events = Inr events"
| "resource_loop sprint now (rl # rls) events =
     bind_res
       (scope_loop sprint now (keyValuesToMap sprint (rl_Attributes rl)) (rl_ScopeLogs rl) events)
       (resource_loop sprint now rls)"

definition LogEventsFromOTLP ::
  "(AnyValue \<Rightarrow> string) \<Rightarrow> (nat \<Rightarrow> gotime) \<Rightarrow> ExportLogsServiceRequest option
   \<Rightarrow> LogEvent list res" where
  "LogEventsFromOTLP sprint now req =
     (case req of None \<Rightarrow> Inl (ErrNew ''otlp: request is nil'')
      | Some r \<Rightarrow> resource_loop sprint now (req_ResourceLogs r) [])"

end
