(* ===== verification/Go_Http.thy ===== *)
theory Go_Http
  imports Go_Strings
begin

text \<open>
  What the services use of \<^verbatim>\<open>net/http\<close>: requests, responses, header lookup and the routing of
  \<^verbatim>\<open>http.ServeMux\<close>. An \<^verbatim>\<open>http.Handler\<close> is a function from a request and the state of the services
  behind it to the response and the new state; \<^verbatim>\<open>http.Header\<close> is a map from canonical field names
  to value lists.
\<close>

abbreviation "NL \<equiv> char_of (10::nat)"

section \<open>HTTP requests and responses\<close>

type_synonym header = "string \<rightharpoonup> string list"

text \<open>
  A request body is the bytes that can be read and the error, if any, that reading meets after them;
  \<open>r_ctx k\<close> is what the request context's \<open>Err\<close> returns to the \<open>k\<close>-th operation that asks.
\<close>

record request =
  r_Method :: string
  r_Path :: string
  r_Header :: header
  r_Body :: bytes
  r_BodyErr :: "err option"
  r_ctx :: "nat \<Rightarrow> ctx"

text \<open>What the handlers write: nothing, a text, an error report, or the REST success report.\<close>

datatype body =
    NoBody
  | Text string
  | ErrorBody string err
  | SuccessBody uint64 string

record response =
  w_Status :: nat
  w_ContentType :: "string option"
  w_Body :: body

type_synonym 's handler = "request \<Rightarrow> 's \<Rightarrow> response \<times> 's"

text \<open>\<^verbatim>\<open>textproto.CanonicalMIMEHeaderKey\<close>.\<close>

definition token_byte :: "char \<Rightarrow> bool" where
  "token_byte c \<longleftrightarrow>
     is_digit c \<or> (65 \<le> byte c \<and> byte c \<le> 90) \<or> (97 \<le> byte c \<and> byte c \<le> 122)
     \<or> c \<in> set ''!#$%&*+-.^_|~'' \<or> byte c = 39 \<or> byte c = 96"

fun canon_loop :: "bool \<Rightarrow> string \<Rightarrow> string" where
  "canon_loop upper [] = []"
| "canon_loop upper (c # s) =
     (let c' = (if upper then char_of (ToUpper_rune (byte c)) else char_of (ToLower_rune (byte c)))
      in c' # canon_loop (c' = CHR ''-'') s)"

definition CanonicalMIMEHeaderKey :: "string \<Rightarrow> string" where
  "CanonicalMIMEHeaderKey s = (if list_all token_byte s then canon_loop True s else s)"

definition Header_Get :: "header \<Rightarrow> string \<Rightarrow> string" where
  "Header_Get h key =
     (case h (CanonicalMIMEHeaderKey key) of
        Some (v # _) \<Rightarrow> v
      | _ \<Rightarrow> [])"

section \<open>Routing\<close>

text \<open>
  \<^verbatim>\<open>http.ServeMux\<close> on a clean path: the pattern of the path and method, where GET also serves HEAD;
  a known path with another method is 405 and an unknown path 404.
\<close>

definition mux_dispatch :: "(string \<times> string \<times> 's handler) list \<Rightarrow> 's handler" where
  "mux_dispatch routes r s =
     (case find (\<lambda>(meth, path, h). path = r_Path r \<and>
                   (meth = r_Method r \<or> (meth = ''GET'' \<and> r_Method r = ''HEAD''))) routes of
        Some (meth, path, h) \<Rightarrow> h r s
      | None \<Rightarrow>
          if list_ex (\<lambda>(meth, path, h). path = r_Path r) routes
          then (\<lparr>w_Status = 405, w_ContentType = Some ''text/plain; charset=utf-8'',
                 w_Body = Text (''Method Not Allowed'' @ [NL])\<rparr>, s)
          else (\<lparr>w_Status = 404, w_ContentType = Some ''text/plain; charset=utf-8'',
                 w_Body = Text (''404 page not found'' @ [NL])\<rparr>, s))"

end
