(* ===== verification/Go_Utf8.thy ===== *)
theory Go_Utf8
  imports Go_Strings
begin

text \<open>
  Lemmas on UTF-8: a decoded rune has an encoding, encoding and decoding are inverse to each other
  on code points and on well-formed text, and replacing invalid bytes gives well-formed text.
\<close>

lemma byte_less: "byte c < 256"
  using mod_less_divisor [of 256 "byte c"] by simp

lemma byte_le [simp]: "byte c \<le> 255"
  using byte_less [of c] by linarith

lemma char_of_eqI: "n = byte c \<Longrightarrow> char_of n = c"
  by simp

text \<open>The rune and size of a decoding: an ASCII byte, a well-formed sequence, or an invalid byte.\<close>

lemma DecodeRune_cases:
  assumes "s \<noteq> []"
  obtains (ascii) a t where "s = a # t" "byte a < 128" "DecodeRune s = (byte a, 1)"
  | (two) a b t where "s = a # b # t" "194 \<le> byte a" "byte a \<le> 223" "cont 128 191 b"
      "DecodeRune s = (rune2 a b, 2)"
  | (three) a b c t where "s = a # b # c # t" "224 \<le> byte a" "byte a \<le> 239"
      "cont (lo2 (byte a)) (hi2 (byte a)) b" "cont 128 191 c" "DecodeRune s = (rune3 a b c, 3)"
  | (four) a b c d t where "s = a # b # c # d # t" "240 \<le> byte a" "byte a \<le> 244"
      "cont (lo2 (byte a)) (hi2 (byte a)) b" "cont 128 191 c" "cont 128 191 d"
      "DecodeRune s = (rune4 a b c d, 4)"
  | (invalid) a t where "s = a # t" "128 \<le> byte a" "DecodeRune s = (RuneError, 1)"
proof (cases s)
  case (Cons a t)
  have r: thesis if "128 \<le> byte a" "DecodeRune s = (RuneError, 1)"
    using invalid [of a t] that Cons by blast
  show ?thesis
  proof (cases "byte a < 128")
    case True
    then show ?thesis using ascii [of a t] Cons by simp
  next
    case a1: False
    show ?thesis
    proof (cases "194 \<le> byte a \<and> byte a \<le> 223")
      case a2: True
      show ?thesis
      proof (cases "t \<noteq> [] \<and> cont 128 191 (hd t)")
        case True
        show ?thesis by (rule two [of a "hd t" "tl t"]) (use True Cons a1 a2 in \<open>auto split: list.splits\<close>)
      next
        case False
        show ?thesis by (rule r) (use False Cons a1 a2 in \<open>auto split: list.splits\<close>)
      qed
    next
      case a2: False
      show ?thesis
      proof (cases "224 \<le> byte a \<and> byte a \<le> 239")
        case a3: True
        show ?thesis
        proof (cases "\<exists>b c u. t = b # c # u \<and> cont (lo2 (byte a)) (hi2 (byte a)) b \<and> cont 128 191 c")
          case True
          then obtain b c u where "t = b # c # u" "cont (lo2 (byte a)) (hi2 (byte a)) b" "cont 128 191 c"
            by blast
          then show ?thesis
            by (intro three [of a b c u]) (use Cons a1 a3 in auto)
        next
          case False
          show ?thesis by (rule r) (use False Cons a1 a3 in \<open>auto split: list.splits\<close>)
        qed
      next
        case a3: False
        show ?thesis
        proof (cases "\<exists>b c d u. t = b # c # d # u \<and> cont (lo2 (byte a)) (hi2 (byte a)) b
                         \<and> cont 128 191 c \<and> cont 128 191 d \<and> 240 \<le> byte a \<and> byte a \<le> 244")
          case True
          then obtain b c d u where "t = b # c # d # u" "cont (lo2 (byte a)) (hi2 (byte a)) b"
            "cont 128 191 c" "cont 128 191 d" "240 \<le> byte a" "byte a \<le> 244"
            by blast
          then show ?thesis
            by (intro four [of a b c d u]) (use Cons a1 in auto)
        next
          case False
          show ?thesis by (rule r) (use False Cons a1 a2 a3 in \<open>auto split: list.splits\<close>)
        qed
      qed
    qed
  qed
qed (use assms in simp)

lemma cont_second:
  assumes "cont (lo2 a) (hi2 a) b"
  shows "cont 128 191 b"
  using assms by (auto simp: cont_def lo2_def hi2_def split: if_splits)

lemma DecodeRune_size: "snd (DecodeRune s) \<le> length s"
  by (cases "s = []") (auto elim: DecodeRune_cases)

lemma scalar_DecodeRune: "scalar (fst (DecodeRune s))"
proof (cases "s = []")
  case False
  then show ?thesis
  proof (cases rule: DecodeRune_cases)
    case (two a b t)
    then show ?thesis by (auto simp: scalar_def rune2_def cont_def)
  next
    case (three a b c t)
    then show ?thesis
      by (auto simp: scalar_def rune3_def cont_def lo2_def hi2_def split: if_splits)
  next
    case (four a b c d t)
    then show ?thesis
      by (auto simp: scalar_def rune4_def cont_def lo2_def hi2_def split: if_splits)
  qed (auto simp: scalar_def RuneError_def)
qed (simp add: scalar_def RuneError_def)

text \<open>A well-formed sequence is the encoding of its rune.\<close>

lemma cut64: "y < 64 \<Longrightarrow> (x * 64 + y) div 64 = x \<and> (x * 64 + y) mod 64 = (y::nat)"
  by simp

lemma EncodeRune_rune2:
  assumes "194 \<le> byte a" "byte a \<le> 223" "cont 128 191 b"
  shows "EncodeRune (rune2 a b) = [a, b]"
proof -
  define x y where "x = byte a - 192" and "y = byte b - 128"
  have xy: "byte a = 192 + x" "byte b = 128 + y" "y < 64" "2 \<le> x" "x < 32"
    using assms by (auto simp: x_def y_def cont_def)
  then have "rune2 a b = x * 64 + y" by (simp add: rune2_def)
  with xy cut64 [of y x] show ?thesis
    by (auto simp: EncodeRune_def scalar_def Let_def intro!: char_of_eqI)
qed

lemma EncodeRune_rune3:
  assumes "224 \<le> byte a" "byte a \<le> 239" "cont (lo2 (byte a)) (hi2 (byte a)) b" "cont 128 191 c"
  shows "EncodeRune (rune3 a b c) = [a, b, c]"
proof -
  define x y z where "x = byte a - 224" and "y = byte b - 128" and "z = byte c - 128"
  have xyz: "byte a = 224 + x" "byte b = 128 + y" "byte c = 128 + z" "y < 64" "z < 64" "x < 16"
    using assms(1,2,4) cont_second [OF assms(3)] by (auto simp: x_def y_def z_def cont_def)
  have r: "2048 \<le> rune3 a b c" "rune3 a b c < 65536" "scalar (rune3 a b c)"
    using assms by (auto simp: rune3_def cont_def lo2_def hi2_def scalar_def split: if_splits)
  have e: "rune3 a b c = (x * 64 + y) * 64 + z"
    using xyz by (simp add: rune3_def)
  have "rune3 a b c div 4096 = rune3 a b c div 64 div 64"
    by (simp add: div_mult2_eq [symmetric])
  then have "rune3 a b c div 4096 = x" "rune3 a b c div 64 mod 64 = y" "rune3 a b c mod 64 = z"
    using e xyz cut64 [of z "x * 64 + y"] cut64 [of y x] by simp_all
  with r xyz show ?thesis
    by (auto simp: EncodeRune_def Let_def intro!: char_of_eqI)
qed

lemma EncodeRune_rune4:
  assumes "240 \<le> byte a" "byte a \<le> 244" "cont (lo2 (byte a)) (hi2 (byte a)) b" "cont 128 191 c"
    "cont 128 191 d"
  shows "EncodeRune (rune4 a b c d) = [a, b, c, d]"
proof -
  define x y z w where "x = byte a - 240" and "y = byte b - 128" and "z = byte c - 128"
    and "w = byte d - 128"
  have xyz: "byte a = 240 + x" "byte b = 128 + y" "byte c = 128 + z" "byte d = 128 + w"
    "y < 64" "z < 64" "w < 64" "x < 16"
    using assms(1,2,4,5) cont_second [OF assms(3)]
    by (auto simp: x_def y_def z_def w_def cont_def)
  have r: "65536 \<le> rune4 a b c d" "scalar (rune4 a b c d)"
    using assms by (auto simp: rune4_def cont_def lo2_def hi2_def scalar_def split: if_splits)
  have e: "rune4 a b c d = ((x * 64 + y) * 64 + z) * 64 + w"
    using xyz by (simp add: rune4_def)
  have "rune4 a b c d div 4096 = rune4 a b c d div 64 div 64"
    "rune4 a b c d div 262144 = rune4 a b c d div 64 div 64 div 64"
    by (simp_all add: div_mult2_eq [symmetric])
  then have "rune4 a b c d div 262144 = x" "rune4 a b c d div 4096 mod 64 = y"
    "rune4 a b c d div 64 mod 64 = z" "rune4 a b c d mod 64 = w"
    using e xyz cut64 [of w "(x * 64 + y) * 64 + z"] cut64 [of z "x * 64 + y"] cut64 [of y x]
    by simp_all
  with r xyz show ?thesis
    by (auto simp: EncodeRune_def Let_def intro!: char_of_eqI)
qed

lemma EncodeRune_DecodeRune:
  assumes "s \<noteq> []" and "\<not> (DecodeRune s = (RuneError, 1))"
  shows "EncodeRune (fst (DecodeRune s)) = take (snd (DecodeRune s)) s"
  using assms(1)
proof (cases rule: DecodeRune_cases)
  case (ascii a t)
  then show ?thesis by (simp add: EncodeRune_def scalar_def)
qed (use assms(2) in \<open>auto simp: EncodeRune_rune2 EncodeRune_rune3 EncodeRune_rune4\<close>)

text \<open>Decoding an encoding gives the rune back, whatever follows.\<close>

lemma DecodeRune_EncodeRune:
  assumes "scalar r"
  shows "DecodeRune (EncodeRune r @ t) = (r, length (EncodeRune r))"
proof -
  consider "r < 128" | "128 \<le> r" "r < 2048" | "2048 \<le> r" "r < 65536" | "65536 \<le> r" "r \<le> 1114111"
    using assms unfolding scalar_def by linarith
  then show ?thesis
  proof cases
    case 1
    with assms show ?thesis by (simp add: EncodeRune_def)
  next
    case 2
    have "(r div 64) * 64 + r mod 64 = r" by simp
    moreover have "2 \<le> r div 64" "r div 64 < 32" using 2 by auto
    ultimately show ?thesis
      using assms 2 by (simp add: EncodeRune_def cont_def rune2_def)
  next
    case 3
    define x y z where "x = r div 4096" and "y = r div 64 mod 64" and "z = r mod 64"
    have "r = r div 64 * 64 + z" "r div 64 = r div 64 div 64 * 64 + y"
      by (simp_all add: y_def z_def)
    moreover have "r div 64 div 64 = x" by (simp add: x_def div_mult2_eq [symmetric])
    ultimately have s: "r = x * 4096 + y * 64 + z" by simp
    have b: "x < 16" "y < 64" "z < 64"
      using 3 by (auto simp: x_def y_def z_def)
    have "x = 0 \<Longrightarrow> 32 \<le> y" and "x = 13 \<Longrightarrow> y \<le> 31"
      using 3 assms s b unfolding scalar_def by linarith+
    then have lo: "lo2 (224 + x) \<le> 128 + y" "128 + y \<le> hi2 (224 + x)"
      using b by (simp_all add: lo2_def hi2_def)
    have "EncodeRune r = [char_of (224 + x), char_of (128 + y), char_of (128 + z)]"
      using assms 3 by (simp add: EncodeRune_def x_def y_def z_def)
    with b lo s show ?thesis
      by (simp add: cont_def rune3_def)
  next
    case 4
    define x y z w where "x = r div 262144" and "y = r div 4096 mod 64" and "z = r div 64 mod 64"
      and "w = r mod 64"
    have "r div 4096 = r div 64 div 64" "x = r div 64 div 64 div 64"
      by (simp_all add: x_def div_mult2_eq [symmetric])
    then have "r = r div 64 * 64 + w" "r div 64 = r div 64 div 64 * 64 + z"
      "r div 64 div 64 = x * 64 + y"
      by (simp_all only: y_def z_def w_def div_mult_mod_eq)
    then have s: "r = x * 262144 + y * 4096 + z * 64 + w" by simp
    have b: "x < 5" "y < 64" "z < 64" "w < 64"
      using 4 by (auto simp: x_def y_def z_def w_def)
    have "x = 0 \<Longrightarrow> 16 \<le> y" and "x = 4 \<Longrightarrow> y \<le> 15"
      using 4 s b by linarith+
    then have lo: "lo2 (240 + x) \<le> 128 + y" "128 + y \<le> hi2 (240 + x)"
      using b by (simp_all add: lo2_def hi2_def)
    have "EncodeRune r = [char_of (240 + x), char_of (128 + y), char_of (128 + z), char_of (128 + w)]"
      using assms 4 by (simp add: EncodeRune_def x_def y_def z_def w_def)
    with b lo s show ?thesis
      by (simp add: cont_def rune4_def)
  qed
qed

lemma EncodeRune_not_Nil [simp]: "EncodeRune r \<noteq> []"
  by (simp add: EncodeRune_def Let_def)

lemma encode_runes_simps [simp]:
  "encode_runes [] = []"
  "encode_runes (r # rs) = EncodeRune r @ encode_runes rs"
  "encode_runes (rs @ qs) = encode_runes rs @ encode_runes qs"
  by (simp_all add: encode_runes_def)

lemma runes_Nil [simp]: "runes [] = []"
  by (simp add: runes.simps)

lemma runes_EncodeRune [simp]: "scalar r \<Longrightarrow> runes (EncodeRune r @ t) = r # runes t"
  by (subst runes.simps) (simp add: DecodeRune_EncodeRune)

lemma runes_encode [simp]: "list_all scalar rs \<Longrightarrow> runes (encode_runes rs) = rs"
  by (induction rs) auto

lemma scalar_runes: "list_all scalar (runes s)"
proof (induction s rule: runes.induct)
  case (1 s)
  then show ?case by (subst runes.simps) (simp add: scalar_DecodeRune)
qed

lemma runes_coerce [simp]: "runes (coerce_utf8 s) = runes s"
  by (simp add: coerce_utf8_def scalar_runes)

lemma valid_utf8_coerce [simp]: "valid_utf8 (coerce_utf8 s)"
  by (simp add: valid_utf8_def coerce_utf8_def scalar_runes)

lemma valid_utf8_encode [simp]: "list_all scalar rs \<Longrightarrow> valid_utf8 (encode_runes rs)"
  by (simp add: valid_utf8_def coerce_utf8_def)

lemma runes_ascii: "is_ascii s \<Longrightarrow> runes s = map byte s"
proof (induction s)
  case (Cons c s)
  then show ?case by (subst runes.simps) (simp add: is_ascii_def)
qed simp

lemma encode_runes_ascii: "is_ascii s \<Longrightarrow> encode_runes (map byte s) = s"
  by (induction s) (auto simp: is_ascii_def EncodeRune_def scalar_def)

lemma valid_utf8_ascii [simp]: "is_ascii s \<Longrightarrow> valid_utf8 s"
  by (simp add: valid_utf8_def coerce_utf8_def runes_ascii encode_runes_ascii)

end
