(* ===== verification/Go_Case.thy ===== *)
theory Go_Case
  imports Go_Utf8
begin

text \<open>
  Lemmas on upper case and trimming: the mapping produces no lower-case letter and no white space
  of its own, and the upper case of a trimmed string needs no second pass of either.
\<close>

section \<open>The upper-case table\<close>

lemma case_lookup_cases:
  "case_lookup rows r = r \<or> (\<exists>(lo, hi, st, de) \<in> set rows. case_lookup rows r = r + de \<and> lo \<le> r \<and> r \<le> hi)"
  by (induction rows r rule: case_lookup.induct) auto

text \<open>
  What the targets of the rows avoid: lower-case letters, the two runes above U+007F whose upper
  case is a letter, white space, and what has no encoding. Only those two runes have a letter as
  their target.
\<close>

fun avoids :: "int \<Rightarrow> int \<Rightarrow> int \<times> int \<times> int \<times> int \<Rightarrow> bool" where
  "avoids a b (lo, hi, st, de) \<longleftrightarrow> b < lo + de \<or> hi + de < a"

definition avoided :: "(int \<times> int) list" where
  "avoided =
     [(97, 122), (305, 305), (383, 383), (9, 13), (32, 32), (133, 133), (160, 160), (5760, 5760),
      (8192, 8287), (12288, 12288), (55296, 57343)]"

fun row_ok :: "int \<times> int \<times> int \<times> int \<Rightarrow> bool" where
  "row_ok (lo, hi, st, de) \<longleftrightarrow>
     list_all (\<lambda>(a, b). avoids a b (lo, hi, st, de)) avoided
     \<and> 0 \<le> lo + de \<and> hi + de \<le> 1114111
     \<and> (avoids 65 90 (lo, hi, st, de) \<or> (lo = hi \<and> (lo = 305 \<or> lo = 383)))"

lemma upper_rows_ok: "list_all row_ok upper_rows"
  by code_simp

lemma upper_specials: "ToUpper_rune 305 = 73" "ToUpper_rune 383 = 83"
  by (simp_all add: ToUpper_rune_def upper_rows_def)

lemma ToUpper_rune_cases:
  obtains (same) "ToUpper_rune r = r" "\<not> (97 \<le> r \<and> r \<le> 122)" "r \<noteq> 305" "r \<noteq> 383"
  | (ascii) "97 \<le> r" "r \<le> 122" "ToUpper_rune r = r - 32"
  | (row) "127 < r" "\<not> (97 \<le> ToUpper_rune r \<and> ToUpper_rune r \<le> 122)" "ToUpper_rune r \<noteq> 305"
      "ToUpper_rune r \<noteq> 383" "\<not> IsSpace (ToUpper_rune r)" "scalar (ToUpper_rune r)"
      "65 \<le> ToUpper_rune r \<Longrightarrow> ToUpper_rune r \<le> 90 \<Longrightarrow> r = 305 \<or> r = 383"
proof (cases "r \<le> 127")
  case True
  then show ?thesis using same ascii by (auto simp: ToUpper_rune_def split: if_splits)
next
  case False
  let ?t = "ToUpper_rune r"
  have u: "?t = nat (case_lookup upper_rows (int r))" using False by (simp add: ToUpper_rune_def)
  show ?thesis
  proof (cases "case_lookup upper_rows (int r) = int r")
    case True
    then have id: "?t = r" using u by simp
    moreover have "r \<noteq> 305" "r \<noteq> 383" using id upper_specials by auto
    ultimately show ?thesis using same False by simp
  next
    case neq: False
    then obtain lo hi st de where m: "(lo, hi, st, de) \<in> set upper_rows"
      "case_lookup upper_rows (int r) = int r + de" "lo \<le> int r" "int r \<le> hi"
      using case_lookup_cases [of upper_rows "int r"] by auto
    have ok: "row_ok (lo, hi, st, de)" using m(1) upper_rows_ok unfolding list_all_iff by blast
    then have t: "int ?t = int r + de" using u m(2,3) by simp
    have av: "\<not> (a \<le> ?t \<and> ?t \<le> b)" if "avoids (int a) (int b) (lo, hi, st, de)" for a b
      using that m(3,4) t by auto
    have al: "\<not> (a \<le> ?t \<and> ?t \<le> b)" if "(int a, int b) \<in> set avoided" for a b
      using that ok av [of a b] by (auto simp: list_all_iff simp del: avoids.simps)
    have a: "\<not> (97 \<le> ?t \<and> ?t \<le> 122)" "\<not> (305 \<le> ?t \<and> ?t \<le> 305)" "\<not> (383 \<le> ?t \<and> ?t \<le> 383)"
      "\<not> (9 \<le> ?t \<and> ?t \<le> 13)" "\<not> (32 \<le> ?t \<and> ?t \<le> 32)" "\<not> (133 \<le> ?t \<and> ?t \<le> 133)"
      "\<not> (160 \<le> ?t \<and> ?t \<le> 160)" "\<not> (5760 \<le> ?t \<and> ?t \<le> 5760)" "\<not> (8192 \<le> ?t \<and> ?t \<le> 8287)"
      "\<not> (12288 \<le> ?t \<and> ?t \<le> 12288)" "\<not> (55296 \<le> ?t \<and> ?t \<le> 57343)"
      by (rule al, simp add: avoided_def)+
    have "?t \<le> 1114111" using ok m(4) t by simp
    with a(11) have sc: "scalar ?t" by (auto simp: scalar_def)
    have sp: "\<not> IsSpace ?t"
      using a(4-10) unfolding IsSpace_def by (intro notI) (elim disjE insertE emptyE; simp)
    have le: "r = 305 \<or> r = 383" if l: "65 \<le> ?t" "?t \<le> 90"
    proof -
      have "\<not> avoids 65 90 (lo, hi, st, de)" using av [of 65 90] l by auto
      then have "lo = hi \<and> (lo = 305 \<or> lo = 383)" using ok unfolding row_ok.simps by blast
      with m(3,4) show ?thesis by auto
    qed
    have "?t \<noteq> 305" "?t \<noteq> 383" using a(2,3) by auto
    from row [OF _ a(1) this sp sc le] False show ?thesis by simp
  qed
qed

lemma ToUpper_rune_avoids:
  "\<not> (97 \<le> ToUpper_rune r \<and> ToUpper_rune r \<le> 122)" "ToUpper_rune r \<noteq> 305" "ToUpper_rune r \<noteq> 383"
  by (cases r rule: ToUpper_rune_cases; force)+

lemma ToUpper_rune_letter:
  assumes "ToUpper_rune s = c" "65 \<le> c" "c \<le> 90"
  shows "s = c \<or> s = c + 32 \<or> s = 305 \<or> s = 383"
  by (cases s rule: ToUpper_rune_cases) (use assms in auto)

text \<open>A rune that the mapping takes to a letter in two steps is taken there in one.\<close>

lemma ToUpper_rune_twice:
  assumes "ToUpper_rune (ToUpper_rune r) = c" "65 \<le> c" "c \<le> 90"
  shows "ToUpper_rune r = c"
  using ToUpper_rune_letter [OF assms] ToUpper_rune_avoids [of r] assms(2,3) by auto

lemma ToUpper_rune_space: "IsSpace (ToUpper_rune r) \<Longrightarrow> IsSpace r"
  by (cases r rule: ToUpper_rune_cases) (auto simp: IsSpace_def)

lemma ToUpper_rune_scalar: "scalar r \<Longrightarrow> scalar (ToUpper_rune r)"
  by (cases r rule: ToUpper_rune_cases) (auto simp: scalar_def)

section \<open>Upper case of a string\<close>

lemma list_all_map_scalar: "list_all scalar rs \<Longrightarrow> list_all scalar (map ToUpper_rune rs)"
  by (auto simp: list_all_iff ToUpper_rune_scalar)

lemma ToUpper_encode: "ToUpper s = encode_runes (map ToUpper_rune (runes s))"
proof (cases "is_ascii s")
  case True
  have "map (\<lambda>c. char_of (ToUpper_rune (byte c))) s = encode_runes (map ToUpper_rune (map byte s))"
    using True
  proof (induction s)
    case (Cons c s)
    then have "ToUpper_rune (byte c) \<le> 127" by (intro ToUpper_rune_ascii_le) (simp add: is_ascii_def)
    with Cons show ?case by (simp add: is_ascii_def EncodeRune_def scalar_def)
  qed simp
  with True show ?thesis by (simp add: ToUpper_def runes_ascii)
qed (simp add: ToUpper_def)

lemma runes_ToUpper: "runes (ToUpper s) = map ToUpper_rune (runes s)"
  by (simp add: ToUpper_encode list_all_map_scalar scalar_runes)

lemma runes_eq_Nil [simp]: "runes s = [] \<longleftrightarrow> s = []"
  by (subst runes.simps) simp

section \<open>Trimming\<close>

lemma hd_runes: "s \<noteq> [] \<Longrightarrow> hd (runes s) = fst (DecodeRune s)"
  by (subst runes.simps) simp

lemma IsSpace_not_error: "IsSpace r \<Longrightarrow> r \<noteq> RuneError"
  by (auto simp: IsSpace_def RuneError_def)

text \<open>A first rune that is white space is there whatever follows it.\<close>

lemma hd_runes_space_append:
  assumes "s \<noteq> []" and "IsSpace (hd (runes s))"
  shows "IsSpace (hd (runes (s @ t)))"
proof -
  let ?r = "fst (DecodeRune s)" and ?n = "snd (DecodeRune s)"
  have r: "IsSpace ?r" using assms by (simp add: hd_runes)
  then have "DecodeRune s \<noteq> (RuneError, 1)" using IsSpace_not_error by (metis fst_conv)
  then have "EncodeRune ?r = take ?n s" using EncodeRune_DecodeRune assms(1) by blast
  then have "s @ t = EncodeRune ?r @ drop ?n s @ t" by (metis append.assoc append_take_drop_id)
  then have "DecodeRune (s @ t) = (?r, length (EncodeRune ?r))"
    using DecodeRune_EncodeRune [OF scalar_DecodeRune] by metis
  with assms(1) r show ?thesis by (simp add: hd_runes)
qed

lemma runes_last:
  assumes "runes s = rs @ [r]"
  shows "\<exists>p q. s = p @ q \<and> q \<noteq> [] \<and> DecodeRune q = (r, length q)"
  using assms
proof (induction s arbitrary: rs rule: runes.induct)
  case (1 s)
  have s: "s \<noteq> []" using 1(2) by (intro notI) simp
  let ?n = "snd (DecodeRune s)"
  have rs: "runes s = fst (DecodeRune s) # runes (drop ?n s)" using s by (subst runes.simps) simp
  show ?case
  proof (cases "drop ?n s = []")
    case True
    then have "?n = length s" using DecodeRune_size [of s] by simp
    moreover have "fst (DecodeRune s) = r" using rs True 1(2) by simp
    ultimately show ?thesis using s by (intro exI [of _ "[]"] exI [of _ s]) (simp add: prod_eq_iff)
  next
    case False
    then have "runes (drop ?n s) \<noteq> []" by simp
    then have "runes (drop ?n s) = tl rs @ [r]"
      using rs 1(2) by (metis append_Nil list.sel(3) tl_append2)
    from 1(1) [OF s this] obtain p q where pq: "drop ?n s = p @ q" "q \<noteq> []" "DecodeRune q = (r, length q)"
      by blast
    have "s = (take ?n s @ p) @ q" using append_take_drop_id [of ?n s] pq(1) by simp
    with pq(2,3) show ?thesis by blast
  qed
qed

text \<open>No proper end of an encoding of two bytes or more is an encoding of its length.\<close>

lemma DecodeRune_cont: "cont 128 191 c \<Longrightarrow> snd (DecodeRune (c # s)) = 1"
  by (auto simp: cont_def)

lemma DecodeLastRune_append:
  assumes "scalar r"
  shows "DecodeLastRune (p @ EncodeRune r) = (r, length (EncodeRune r))"
proof -
  let ?e = "EncodeRune r" and ?s = "p @ EncodeRune r"
  have d: "DecodeRune ?e = (r, length ?e)" using DecodeRune_EncodeRune [OF assms, of "[]"] by simp
  have "last_rune_size ?s = length ?e"
    using EncodeRune_not_Nil
  proof (cases rule: DecodeRune_cases [of ?e])
    case (ascii a t)
    then have "t = []" using d by simp
    with ascii show ?thesis by (simp add: last_rune_size_def)
  next
    case (two a b t)
    then have "?e = [a, b]" using d by simp
    with two show ?thesis by (auto simp: last_rune_size_def cont_def)
  next
    case (three a b c t)
    then have e: "?e = [a, b, c]" using d by simp
    have "snd (DecodeRune [b, c]) = 1" using DecodeRune_cont cont_second three(4) by blast
    with three e show ?thesis by (auto simp: last_rune_size_def cont_def)
  next
    case (four a b c dd t)
    then have e: "?e = [a, b, c, dd]" using d by simp
    have "snd (DecodeRune [c, dd]) = 1" "snd (DecodeRune [b, c, dd]) = 1"
      using DecodeRune_cont cont_second four(4,5) by blast+
    with four e show ?thesis by (auto simp: last_rune_size_def cont_def)
  next
    case (invalid a t)
    then have "?e = [a]" "r = RuneError" using d by simp_all
    then show ?thesis by (simp add: EncodeRune_def RuneError_def scalar_def)
  qed
  then show ?thesis by (simp add: DecodeLastRune_def d)
qed

lemma trim_left_hd:
  "trim_left s = [] \<or> \<not> IsSpace (hd (runes (trim_left s)))"
proof (induction s rule: trim_left.induct)
  case (1 s)
  then show ?case
    by (cases "s \<noteq> [] \<and> IsSpace (fst (DecodeRune s))")
      (subst (1 2) trim_left.simps, simp, subst (1 2) trim_left.simps, auto simp: hd_runes)
qed

lemma trim_right_prefix: "\<exists>t. s = trim_right s @ t"
proof (induction s rule: trim_right.induct)
  case (1 s)
  show ?case
  proof (cases "s \<noteq> [] \<and> IsSpace (fst (DecodeLastRune s))")
    case True
    let ?p = "take (length s - snd (DecodeLastRune s)) s"
    from 1 [OF True] obtain t where t: "?p = trim_right ?p @ t" by blast
    have e: "trim_right s = trim_right ?p" using True by (subst trim_right.simps) simp
    have "s = ?p @ drop (length s - snd (DecodeLastRune s)) s" by simp
    also have "\<dots> = trim_right s @ t @ drop (length s - snd (DecodeLastRune s)) s"
      unfolding e by (subst t) simp
    finally show ?thesis by blast
  next
    case False
    then have "trim_right s = s" by (subst trim_right.simps) (simp only: if_False)
    then show ?thesis by simp
  qed
qed

lemma trim_right_last:
  "trim_right s = [] \<or> \<not> IsSpace (fst (DecodeLastRune (trim_right s)))"
proof (induction s rule: trim_right.induct)
  case (1 s)
  show ?case
  proof (cases "s \<noteq> [] \<and> IsSpace (fst (DecodeLastRune s))")
    case True
    have "trim_right s = trim_right (take (length s - snd (DecodeLastRune s)) s)"
      using True by (subst trim_right.simps) simp
    with 1 [OF True] show ?thesis by simp
  next
    case False
    then have "trim_right s = s" by (subst trim_right.simps) (simp only: if_False)
    with False show ?thesis by simp
  qed
qed

text \<open>A trimmed string neither starts nor ends with white space, as runes.\<close>

lemma last_runes_space:
  assumes "s \<noteq> []" and "IsSpace (last (runes s))"
  shows "IsSpace (fst (DecodeLastRune s))"
proof -
  have "runes s = butlast (runes s) @ [last (runes s)]" using assms(1) by simp
  then obtain p q where pq: "s = p @ q" "q \<noteq> []" "DecodeRune q = (last (runes s), length q)"
    using runes_last by metis
  have "DecodeRune q \<noteq> (RuneError, 1)" using pq(3) assms(2) IsSpace_not_error by auto
  then have "EncodeRune (last (runes s)) = q" using EncodeRune_DecodeRune [OF pq(2)] pq(3) by simp
  moreover have "scalar (last (runes s))" using scalar_DecodeRune [of q] pq(3) by simp
  ultimately show ?thesis using DecodeLastRune_append pq(1) assms(2) by (metis fst_conv)
qed

lemma TrimSpace_ends:
  assumes "TrimSpace s \<noteq> []"
  shows "\<not> IsSpace (hd (runes (TrimSpace s)))" and "\<not> IsSpace (last (runes (TrimSpace s)))"
proof -
  obtain t where t: "trim_left s = TrimSpace s @ t"
    using trim_right_prefix [of "trim_left s"] by (auto simp: TrimSpace_def)
  show "\<not> IsSpace (hd (runes (TrimSpace s)))"
    using hd_runes_space_append [OF assms, of t] trim_left_hd [of s] t assms by auto
  show "\<not> IsSpace (last (runes (TrimSpace s)))"
    using last_runes_space [OF assms] trim_right_last [of "trim_left s"] assms by (auto simp: TrimSpace_def)
qed

text \<open>Trimming leaves well-formed text alone when neither end is white space.\<close>

lemma TrimSpace_id:
  assumes "list_all scalar rs" and "rs \<noteq> []" and "\<not> IsSpace (hd rs)" and "\<not> IsSpace (last rs)"
  shows "TrimSpace (encode_runes rs) = encode_runes rs"
proof -
  let ?s = "encode_runes rs"
  have s: "?s \<noteq> []" using assms(2) by (cases rs) auto
  have "fst (DecodeRune ?s) = hd rs" using hd_runes [OF s] assms(1) by simp
  then have l: "trim_left ?s = ?s" using assms(3) by (subst trim_left.simps) simp
  have "?s = encode_runes (butlast rs) @ EncodeRune (last rs)"
    using assms(2) encode_runes_simps(2,3) by (metis append_Nil2 append_butlast_last_id encode_runes_simps(1))
  moreover have "scalar (last rs)" using assms(1,2) by (simp add: list_all_iff)
  ultimately have "fst (DecodeLastRune ?s) = last rs" using DecodeLastRune_append by (metis fst_conv)
  then have "trim_right ?s = ?s" using assms(4) by (subst trim_right.simps) simp
  with l show ?thesis by (simp add: TrimSpace_def)
qed

text \<open>The upper case of a trimmed string needs no trimming.\<close>

lemma TrimSpace_ToUpper:
  assumes "TrimSpace s \<noteq> []"
  shows "TrimSpace (ToUpper (TrimSpace s)) = ToUpper (TrimSpace s)"
proof -
  let ?rs = "runes (TrimSpace s)"
  have rs: "?rs \<noteq> []" using assms by simp
  have "\<not> IsSpace (hd (map ToUpper_rune ?rs))" "\<not> IsSpace (last (map ToUpper_rune ?rs))"
    using TrimSpace_ends [OF assms] ToUpper_rune_space rs by (auto simp: hd_map last_map)
  then show ?thesis
    unfolding ToUpper_encode using rs
    by (intro TrimSpace_id) (simp_all add: list_all_map_scalar scalar_runes)
qed

lemma map_ToUpper_twice:
  assumes "map ToUpper_rune (map ToUpper_rune rs) = ws" and "list_all (\<lambda>c. 65 \<le> c \<and> c \<le> 90) ws"
  shows "map ToUpper_rune rs = ws"
  using assms by (induction rs arbitrary: ws) (auto intro: ToUpper_rune_twice)

text \<open>A string that is an upper-case word after two conversions is that word after one.\<close>

lemma ToUpper_twice:
  assumes "ToUpper (ToUpper s) = w" and "list_all (\<lambda>c. 65 \<le> byte c \<and> byte c \<le> 90) w"
  shows "ToUpper s = w"
proof -
  have asc: "is_ascii w" using assms(2) by (auto simp: is_ascii_def list_all_iff)
  have "map ToUpper_rune (map ToUpper_rune (runes s)) = map byte w"
    using assms(1) by (metis runes_ToUpper runes_ascii [OF asc])
  moreover have "list_all (\<lambda>c. 65 \<le> c \<and> c \<le> 90) (map byte w)" using assms(2) by (simp add: list_all_iff)
  ultimately have "map ToUpper_rune (runes s) = map byte w" by (rule map_ToUpper_twice)
  then show ?thesis by (simp add: ToUpper_encode encode_runes_ascii [OF asc])
qed

lemma TrimSpace_twice: "TrimSpace (TrimSpace s) = TrimSpace s"
proof (cases "TrimSpace s = []")
  case False
  have "trim_left (TrimSpace s) = TrimSpace s"
    using TrimSpace_ends(1) [OF False] False by (cases "TrimSpace s") (simp_all add: trim_left.simps runes.simps)
  moreover have "trim_right (TrimSpace s) = TrimSpace s"
    using trim_right_last [of "trim_left s"] by (subst trim_right.simps) (auto simp: TrimSpace_def)
  ultimately show ?thesis by (simp add: TrimSpace_def)
qed simp

text \<open>A last rune that is white space is the encoding of that rune.\<close>

lemma last_space_suffix:
  assumes "s \<noteq> []" and "IsSpace (fst (DecodeLastRune s))"
  shows "drop (length s - snd (DecodeLastRune s)) s = EncodeRune (fst (DecodeLastRune s))"
proof -
  let ?k = "last_rune_size s"
  let ?u = "drop (length s - ?k) s"
  have d: "DecodeLastRune s = (fst (DecodeRune ?u), ?k)" by (simp add: DecodeLastRune_def Let_def)
  have k: "?k \<le> length s" using assms(1) by (auto simp: last_rune_size_def Let_def neq_Nil_conv)
  have u: "length ?u = ?k" "?u \<noteq> []" using k last_rune_size_pos [of s] by simp_all
  have ne: "DecodeRune ?u \<noteq> (RuneError, 1)"
    using assms(2) IsSpace_not_error unfolding d by (metis fst_conv)
  have "snd (DecodeRune ?u) = ?k"
  proof (cases "?k = 1")
    case True
    then show ?thesis using u DecodeRune_size [of ?u] DecodeRune_size_pos [of ?u] by simp
  next
    case False
    then show ?thesis by (auto simp: last_rune_size_def Let_def split: if_splits)
  qed
  then show ?thesis using EncodeRune_DecodeRune [OF u(2) ne] u(1) unfolding d by simp
qed

lemma IsSpace_scalar: "IsSpace r \<Longrightarrow> scalar r"
  by (auto simp: IsSpace_def scalar_def)

lemma trim_right_suffix: "\<exists>rs. s = trim_right s @ encode_runes rs \<and> list_all IsSpace rs"
proof (induction s rule: trim_right.induct)
  case (1 s)
  show ?case
  proof (cases "s \<noteq> [] \<and> IsSpace (fst (DecodeLastRune s))")
    case True
    let ?n = "length s - snd (DecodeLastRune s)" and ?r = "fst (DecodeLastRune s)"
    from 1 [OF True] obtain rs where rs: "take ?n s = trim_right (take ?n s) @ encode_runes rs" "list_all IsSpace rs"
      by blast
    have e: "trim_right s = trim_right (take ?n s)" using True by (subst trim_right.simps) simp
    have "s = take ?n s @ EncodeRune ?r" using last_space_suffix True by (metis append_take_drop_id)
    then have "s = trim_right s @ encode_runes (rs @ [?r])" using rs(1) e by simp (metis append.assoc)
    then show ?thesis using rs(2) True by (intro exI [of _ "rs @ [?r]"]) simp
  next
    case False
    then have "trim_right s = s" by (subst trim_right.simps) (simp only: if_False)
    then show ?thesis by (intro exI [of _ "[]"]) simp
  qed
qed

lemma trim_left_Nil_iff: "trim_left s = [] \<longleftrightarrow> list_all IsSpace (runes s)"
proof (induction s rule: trim_left.induct)
  case (1 s)
  show ?case
  proof (cases "s \<noteq> [] \<and> IsSpace (fst (DecodeRune s))")
    case True
    then show ?thesis using 1 by (subst trim_left.simps, subst runes.simps) simp
  next
    case False
    then show ?thesis by (subst trim_left.simps, subst runes.simps) auto
  qed
qed

text \<open>A string is blank when all its runes are white space.\<close>

lemma TrimSpace_Nil_iff: "TrimSpace s = [] \<longleftrightarrow> list_all IsSpace (runes s)"
proof
  assume t: "TrimSpace s = []"
  then obtain rs where rs: "trim_left s = encode_runes rs" "list_all IsSpace rs"
    using trim_right_suffix [of "trim_left s"] by (auto simp: TrimSpace_def)
  have "list_all scalar rs" using rs(2) IsSpace_scalar by (auto simp: list_all_iff)
  then have "runes (trim_left s) = rs" using rs(1) by simp
  then have "trim_left s = []" using trim_left_hd [of s] rs(2) by (cases rs) auto
  then show "list_all IsSpace (runes s)" by (simp add: trim_left_Nil_iff)
next
  assume "list_all IsSpace (runes s)"
  then have "trim_left s = []" by (simp add: trim_left_Nil_iff)
  then show "TrimSpace s = []" by (simp add: TrimSpace_def trim_right.simps)
qed

lemma TrimSpace_coerce [simp]: "TrimSpace (coerce_utf8 s) = [] \<longleftrightarrow> TrimSpace s = []"
  by (simp add: TrimSpace_Nil_iff)


end
