(* ===== verification/Auth.thy ===== *)
theory Auth
  imports Go_Http Go_Case
begin

text \<open>
  Package \<^verbatim>\<open>pkg/auth\<close>: the middleware chain and the API key check.
\<close>

section \<open>Middleware\<close>

text \<open>A nil middleware is \<open>None\<close>.\<close>

type_synonym 's middleware = "('s handler \<Rightarrow> 's handler) option"

text \<open>
  The loop of \<open>Chain\<close> runs over the indices from the last to 0; \<open>chain_from\<close> is the loop at the
  indices below its argument.
\<close>

fun chain_from :: "'s middleware list \<Rightarrow> nat \<Rightarrow> 's handler \<Rightarrow> 's handler" where
  "chain_from chain 0 h = h"
| "chain_from chain (Suc i) h =
     chain_from chain i (case chain ! i of None \<Rightarrow> h | Some mw \<Rightarrow> mw h)"

definition Chain :: "'s handler \<Rightarrow> 's middleware list \<Rightarrow> 's handler" where
  "Chain h chain = chain_from chain (length chain) h"

definition unauthorized :: response where
  "unauthorized =
     \<lparr>w_Status = 401, w_ContentType = Some ''application/json'',
      w_Body = Text (''{'' @ [CHR 0x22] @ ''error'' @ [CHR 0x22] @ '':'' @ [CHR 0x22]
                     @ ''unauthorized'' @ [CHR 0x22] @ ''}'')\<rparr>"

definition APIKey :: "string \<Rightarrow> string \<Rightarrow> 's middleware" where
  "APIKey header0 expected =
     (if expected = [] then None
      else (let header = (if header0 = [] then ''X-API-Key'' else header0) in
        Some (\<lambda>next r s.
          let got = TrimSpace (Header_Get (r_Header r) header) in
          if got = [] \<or> got \<noteq> expected then (unauthorized, s) else next r s)))"

section \<open>Properties\<close>

text \<open>A middleware applied to a handler; nil leaves the handler as it is.\<close>

definition apply_mw :: "'s middleware \<Rightarrow> 's handler \<Rightarrow> 's handler" where
  "apply_mw mw h = (case mw of None \<Rightarrow> h | Some f \<Rightarrow> f h)"

lemma chain_from_foldr:
  "n \<le> length chain \<Longrightarrow> chain_from chain n h = foldr apply_mw (take n chain) h"
  by (induction n arbitrary: h) (simp_all add: take_Suc_conv_app_nth apply_mw_def)

lemma Chain_foldr: "Chain h chain = foldr apply_mw chain h"
  by (simp add: Chain_def chain_from_foldr)

lemma APIKey_apply:
  "apply_mw (APIKey hdr key) h r s =
     (if key = [] \<or> TrimSpace (Header_Get (r_Header r) (if hdr = [] then ''X-API-Key'' else hdr)) = key
      then h r s else (unauthorized, s))"
  by (auto simp: apply_mw_def APIKey_def Let_def)

text \<open>A request that presents a key.\<close>

definition keyed_request :: request where
  "keyed_request =
     \<lparr>r_Method = ''POST'', r_Path = ''/api/v1/log'', r_Header = [''X-Api-Key'' \<mapsto> [''key '']], r_Body = [],
      r_BodyErr = None, r_ctx = (\<lambda>_. None)\<rparr>"

text \<open>
  Chain wraps a handler in the given middleware with the first outermost, whatever their
  number, and a nil middleware changes nothing.
\<close>

lemma Chain_outer_to_inner:
  "Chain h chain = foldr (\<lambda>mw inner. the mw inner) (filter (\<lambda>mw. mw \<noteq> None) chain) h"
  unfolding Chain_foldr by (induction chain) (auto simp: apply_mw_def)

text \<open>
  C38. A configured key with white space at either end locks everybody out: the presented key is
  trimmed before it is compared, so no request matches.
\<close>

theorem APIKey_untrimmed_key_rejects:
  assumes "TrimSpace key \<noteq> key"
  shows "Chain h [APIKey hdr key] r s = (unauthorized, s)"
  using assms TrimSpace_twice
  by (auto simp: Chain_foldr APIKey_apply)

theorem APIKey_untrimmed_key_rejects_witness:
  "TrimSpace ''key '' \<noteq> ''key ''
   \<and> Chain (\<lambda>r s. (unauthorized\<lparr>w_Status := 201\<rparr>, Suc s)) [APIKey [] ''key ''] keyed_request 0 = (unauthorized, 0)"
proof -
  have "TrimSpace ''key '' \<noteq> ''key ''" by (simp add: go_eval)
  then show ?thesis by (intro conjI APIKey_untrimmed_key_rejects)
qed

end
