(* ===== verification/Broker.thy ===== *)
theory Broker
  imports Schema
begin

text \<open>
  Package \<^verbatim>\<open>pkg/broker\<close>: the messaging interface (\<^verbatim>\<open>broker.go\<close>) as the locale \<open>event_publisher\<close>, and the
  in-memory broker (\<^verbatim>\<open>memory.go\<close>). A handler is a function on a state \<open>'w\<close> of its own that stands for
  everything its closure can change; it cannot reach the broker that calls it. The context of a
  call is what its \<open>Err\<close> method returns during the call.
\<close>

section \<open>Messages and handlers\<close>

record Message =
  msg_Topic :: string
  msg_Key :: bytes
  msg_Value :: bytes

type_synonym 'w Handler = "ctx \<Rightarrow> Message \<Rightarrow> 'w \<Rightarrow> err option \<times> 'w"

section \<open>The Publisher interface\<close>

text \<open>
  What a client of \<^verbatim>\<open>Publisher\<close> relies on. \<open>log_of s t\<close> is the list of payloads the broker holds for a
  topic. A publish that succeeds appended the encoded event to its topic, at least once and at most
  \<open>copies\<close> times, and changed no other topic; one that fails appended it at most \<open>copies\<close> times; a
  context that is already done makes it fail with nothing done.
\<close>

locale event_publisher =
  fixes publish :: "'s \<Rightarrow> ctx \<Rightarrow> string \<Rightarrow> LogEvent \<Rightarrow> err option \<times> 's"
    and log_of :: "'s \<Rightarrow> string \<Rightarrow> bytes list"
    and copies :: nat
  assumes publish_ok:
    "publish s c t ev = (None, s') \<Longrightarrow>
       \<exists>p n. MarshalEvent ev = Inr p \<and> 1 \<le> n \<and> n \<le> copies
         \<and> log_of s' = (log_of s)(t := log_of s t @ replicate n p)"
    and publish_err:
    "publish s c t ev = (Some e, s') \<Longrightarrow>
       log_of s' = log_of s
       \<or> (\<exists>p n. MarshalEvent ev = Inr p \<and> n \<le> copies
            \<and> log_of s' = (log_of s)(t := log_of s t @ replicate n p))"
    and publish_ctx: "publish s (Some e) t ev = (Some e, s)"

section \<open>The in-memory broker\<close>

record 'w Memory =
  mem_closed :: bool
  mem_topics :: "string \<Rightarrow> Message list"
  mem_handlers :: "string \<Rightarrow> 'w Handler list"

definition NewMemory :: "'w Memory" where
  "NewMemory = \<lparr>mem_closed = False, mem_topics = (\<lambda>_. []), mem_handlers = (\<lambda>_. [])\<rparr>"

text \<open>The loop that calls the subscribed handlers with a published message.\<close>

fun call_handlers :: "'w Handler list \<Rightarrow> ctx \<Rightarrow> Message \<Rightarrow> 'w \<Rightarrow> err option \<times> 'w" where
  "call_handlers [] c msg w = (None, w)"
| "call_handlers (h # hs) c msg w =
     (case h c msg w of (Some e, w') \<Rightarrow> (Some e, w') | (None, w') \<Rightarrow> call_handlers hs c msg w')"

definition mem_Publish ::
  "'w Memory \<times> 'w \<Rightarrow> ctx \<Rightarrow> string \<Rightarrow> LogEvent \<Rightarrow> err option \<times> ('w Memory \<times> 'w)" where
  "mem_Publish s c topic event =
     (let (m, w) = s in
      case c of Some e \<Rightarrow> (Some e, s)
      | None \<Rightarrow>
          (case MarshalEvent event of Inl e \<Rightarrow> (Some e, s)
           | Inr payload \<Rightarrow>
               if mem_closed m then (Some ErrBrokerClosed, s)
               else (let msg = \<lparr>msg_Topic = topic, msg_Key = [], msg_Value = payload\<rparr>;
                         m' = m\<lparr>mem_topics := (mem_topics m)(topic := mem_topics m topic @ [msg])\<rparr>;
                         (er, w') = call_handlers (mem_handlers m topic) c msg w
                     in (er, (m', w')))))"

text \<open>The loop of \<open>Subscribe\<close> that registers the handler and collects what is buffered.\<close>

fun register :: "string list \<Rightarrow> 'w Handler \<Rightarrow> 'w Memory \<Rightarrow> Message list \<Rightarrow> 'w Memory \<times> Message list" where
  "register [] h m replay = (m, replay)"
| "register (topic # topics) h m replay =
     register topics h
       (m\<lparr>mem_handlers := (mem_handlers m)(topic := mem_handlers m topic @ [h])\<rparr>)
       (replay @ mem_topics m topic)"

fun replay_to :: "'w Handler \<Rightarrow> ctx \<Rightarrow> Message list \<Rightarrow> 'w \<Rightarrow> err option \<times> 'w" where
  "replay_to h c [] w = (None, w)"
| "replay_to h c (msg # msgs) w =
     (case h c msg w of (Some e, w') \<Rightarrow> (Some e, w') | (None, w') \<Rightarrow> replay_to h c msgs w')"

definition mem_Subscribe ::
  "'w Memory \<times> 'w \<Rightarrow> ctx \<Rightarrow> string list \<Rightarrow> 'w Handler option \<Rightarrow> err option \<times> ('w Memory \<times> 'w)" where
  "mem_Subscribe s c topics handler =
     (let (m, w) = s in
      case handler of None \<Rightarrow> (Some (ErrNew ''handler is nil''), s)
      | Some h \<Rightarrow>
          (case c of Some e \<Rightarrow> (Some e, s)
           | None \<Rightarrow>
               if mem_closed m then (Some ErrBrokerClosed, s)
               else (let (m', replay) = register topics h m []; (er, w') = replay_to h c replay w
                     in (er, (m', w')))))"

definition Messages :: "'w Memory \<Rightarrow> string \<Rightarrow> Message list" where
  "Messages m topic = mem_topics m topic"

definition mem_Close :: "'w Memory \<Rightarrow> err option \<times> 'w Memory" where
  "mem_Close m = (None, m\<lparr>mem_closed := True\<rparr>)"

definition mem_log :: "'w Memory \<times> 'w \<Rightarrow> string \<Rightarrow> bytes list" where
  "mem_log s t = map msg_Value (Messages (fst s) t)"

declare mem_Publish_def [op_defs] mem_Subscribe_def [op_defs] mem_Close_def [op_defs]

section \<open>The in-memory broker is a publisher\<close>

lemma mem_log_append:
  "mem_log (m\<lparr>mem_topics := (mem_topics m)(t := mem_topics m t @ [msg])\<rparr>, w') =
   (mem_log (m, w))(t := mem_log (m, w) t @ [msg_Value msg])"
  by (auto simp: mem_log_def Messages_def fun_eq_iff)

text \<open>The outcomes of a publish.\<close>

lemma mem_Publish_cases:
  assumes "mem_Publish (m, w) c t ev = (er, s')"
  obtains (ctx) e where "c = Some e" "er = Some e" "s' = (m, w)"
  | (invalid) e where "c = None" "MarshalEvent ev = Inl e" "er = Some e" "s' = (m, w)"
  | (closed) "c = None" "mem_closed m" "er = Some ErrBrokerClosed" "s' = (m, w)"
  | (stored) p w' where "c = None" "MarshalEvent ev = Inr p" "\<not> mem_closed m"
      "call_handlers (mem_handlers m t) c \<lparr>msg_Topic = t, msg_Key = [], msg_Value = p\<rparr> w = (er, w')"
      "s' = (m\<lparr>mem_topics := (mem_topics m)(t := mem_topics m t
               @ [\<lparr>msg_Topic = t, msg_Key = [], msg_Value = p\<rparr>])\<rparr>, w')"
  using assms by (auto simp: mem_Publish_def Let_def split: option.splits sum.splits if_splits prod.splits)

interpretation mem_pub: event_publisher mem_Publish mem_log 1
proof
  fix s :: "'w Memory \<times> 'w" and c t ev s'
  assume "mem_Publish s c t ev = (None, s')"
  moreover obtain m w where s: "s = (m, w)" by (cases s)
  ultimately show "\<exists>p n. MarshalEvent ev = Inr p \<and> 1 \<le> n \<and> n \<le> 1 \<and> mem_log s' = (mem_log s)(t := mem_log s t @ replicate n p)"
    by (auto elim!: mem_Publish_cases simp: mem_log_append [of m t _ _ w] intro!: exI [of _ "1::nat"])
next
  fix s :: "'w Memory \<times> 'w" and c t ev e s'
  assume "mem_Publish s c t ev = (Some e, s')"
  moreover obtain m w where s: "s = (m, w)" by (cases s)
  ultimately show "mem_log s' = mem_log s
      \<or> (\<exists>p n. MarshalEvent ev = Inr p \<and> n \<le> 1 \<and> mem_log s' = (mem_log s)(t := mem_log s t @ replicate n p))"
    by (auto elim!: mem_Publish_cases simp: mem_log_append [of m t _ _ w] intro!: exI [of _ "1::nat"])
next
  fix s :: "'w Memory \<times> 'w" and e t ev
  show "mem_Publish s (Some e) t ev = (Some e, s)"
    by (cases s) (simp add: mem_Publish_def)
qed

section \<open>Delivery\<close>

text \<open>
  A handler with a number, which notes each message it is called with and answers it with a verdict
  of its own; and what the handler with a number has been called with.
\<close>

type_synonym verdict = "Message \<Rightarrow> err option"

definition tracker :: "nat \<Rightarrow> verdict \<Rightarrow> (nat \<times> Message) list Handler" where
  "tracker i f c msg w = (f msg, w @ [(i, msg)])"

definition received :: "nat \<Rightarrow> (nat \<times> Message) list \<Rightarrow> Message list" where
  "received i w = map snd (filter (\<lambda>x. fst x = i) w)"

text \<open>Messages up to the first that a verdict refuses, this one included.\<close>

fun upto_error :: "verdict \<Rightarrow> Message list \<Rightarrow> Message list" where
  "upto_error f [] = []"
| "upto_error f (msg # msgs) = msg # (if f msg = None then upto_error f msgs else [])"

lemma received_append [simp]:
  "received i (w @ w') = received i w @ received i w'" "received i [] = []"
  "received i ((j, msg) # w) = (if j = i then msg # received i w else received i w)"
  by (simp_all add: received_def)

lemma upto_error_id [simp]: "list_all (\<lambda>msg. f msg = None) msgs \<Longrightarrow> upto_error f msgs = msgs"
  by (induction msgs) simp_all

lemma replay_tracker:
  "replay_to (tracker i f) c msgs w =
     (case find (\<lambda>msg. f msg \<noteq> None) msgs of None \<Rightarrow> None | Some msg \<Rightarrow> f msg, w @ map (Pair i) (upto_error f msgs))"
  by (induction msgs arbitrary: w) (auto simp: tracker_def split: option.split)

lemma received_Pair [simp]: "received i (map (Pair j) msgs) = (if j = i then msgs else [])"
  by (induction msgs) auto

lemma call_trackers_other:
  "i \<notin> fst ` set hs \<Longrightarrow> received i (snd (call_handlers (map (case_prod tracker) hs) c msg w)) = received i w"
proof (induction hs arbitrary: w)
  case (Cons h hs)
  then show ?case by (cases h) (auto simp: tracker_def split: option.split)
qed simp

text \<open>A handler is called with a published message exactly when all handlers before it accept it.\<close>

lemma call_trackers:
  assumes "i \<notin> fst ` set hs" and "i \<notin> fst ` set hs'"
  shows "received i (snd (call_handlers (map (case_prod tracker) (hs @ (i, f) # hs')) c msg w)) =
     received i w @ (if \<forall>(j, g) \<in> set hs. g msg = None then [msg] else [])"
  using assms(1)
proof (induction hs arbitrary: w)
  case Nil
  have t: "tracker i f c msg w = (f msg, w @ [(i, msg)])" by (simp add: tracker_def)
  show ?case using call_trackers_other [OF assms(2), of c msg "w @ [(i, msg)]"] by (simp add: t split: option.split)
next
  case (Cons h hs)
  obtain j g where h: "h = (j, g)" by (cases h)
  have t: "tracker j g c msg w = (g msg, w @ [(j, msg)])" by (simp add: tracker_def)
  show ?case
    using Cons.IH [of "w @ [(j, msg)]"] Cons.prems by (cases "g msg") (auto simp: h t)
qed

text \<open>What can happen to a broker: a publish, or a further subscription, each with its context.\<close>

datatype broker_op = Pub ctx string LogEvent | Sub ctx "string list" nat verdict

fun broker_ops ::
  "broker_op list \<Rightarrow> (nat \<times> Message) list Memory \<times> (nat \<times> Message) list
   \<Rightarrow> (nat \<times> Message) list Memory \<times> (nat \<times> Message) list" where
  "broker_ops [] s = s"
| "broker_ops (Pub c t ev # ops) s = broker_ops ops (snd (mem_Publish s c t ev))"
| "broker_ops (Sub c ts j g # ops) s = broker_ops ops (snd (mem_Subscribe s c ts (Some (tracker j g))))"

fun subscribes :: "nat \<Rightarrow> broker_op \<Rightarrow> bool" where
  "subscribes i (Pub c t ev) = False"
| "subscribes i (Sub c ts j g) = (j = i)"

text \<open>
  A broker in which handler \<open>i\<close> stands behind the handlers \<open>subs\<close> of topic \<open>t\<close> and has received \<open>old\<close> and
  then, of the messages from the \<open>n\<close>-th on, those that all of \<open>subs\<close> accept.
\<close>

definition delivered ::
  "nat \<Rightarrow> string \<Rightarrow> (nat \<times> verdict) list \<Rightarrow> verdict \<Rightarrow> Message list \<Rightarrow> nat
   \<Rightarrow> (nat \<times> Message) list Memory \<times> (nat \<times> Message) list \<Rightarrow> bool" where
  "delivered i t subs f old n s \<longleftrightarrow>
     (\<exists>later. mem_handlers (fst s) t = map (case_prod tracker) (subs @ (i, f) # later) \<and> i \<notin> fst ` set later)
     \<and> (\<forall>u. u \<noteq> t \<longrightarrow> (\<exists>hs. mem_handlers (fst s) u = map (case_prod tracker) hs \<and> i \<notin> fst ` set hs))
     \<and> n \<le> length (Messages (fst s) t)
     \<and> received i (snd s) = old @ filter (\<lambda>msg. \<forall>(j, g) \<in> set subs. g msg = None) (drop n (Messages (fst s) t))"

lemma mem_Publish_delivered:
  assumes "delivered i t subs f old n s" and "i \<notin> fst ` set subs"
  shows "delivered i t subs f old n (snd (mem_Publish s c u ev))"
proof -
  obtain m w where s: "s = (m, w)" by (cases s)
  obtain er s' where p: "mem_Publish (m, w) c u ev = (er, s')" by (cases "mem_Publish (m, w) c u ev")
  then have "delivered i t subs f old n s'"
  proof (cases rule: mem_Publish_cases)
    case (stored pl w')
    let ?msg = "\<lparr>msg_Topic = u, msg_Key = [], msg_Value = pl\<rparr>"
    have w': "w' = snd (call_handlers (mem_handlers m u) c ?msg w)" using stored(4) by simp
    show ?thesis
    proof (cases "u = t")
      case True
      from assms(1) obtain later where "mem_handlers m t = map (case_prod tracker) (subs @ (i, f) # later)"
        "i \<notin> fst ` set later" by (auto simp: delivered_def s)
      with call_trackers [OF assms(2), of later f c ?msg w] True
      have "received i w' = received i w @ (if \<forall>(j, g) \<in> set subs. g ?msg = None then [?msg] else [])" by (simp add: w')
      with assms(1) stored(5) True show ?thesis by (auto simp: delivered_def s Messages_def)
    next
      case False
      with assms(1) obtain hs where "mem_handlers m u = map (case_prod tracker) hs" "i \<notin> fst ` set hs"
        by (auto simp: delivered_def s)
      with call_trackers_other have "received i w' = received i w" by (simp add: w')
      with assms(1) stored(5) False show ?thesis by (auto simp: delivered_def s Messages_def)
    qed
  qed (use assms(1) s in auto)
  with p s show ?thesis by simp
qed

lemma register_spec:
  "register ts h m replay = (m', replay') \<Longrightarrow>
     mem_topics m' = mem_topics m \<and> mem_closed m' = mem_closed m
     \<and> mem_handlers m' = (\<lambda>u. mem_handlers m u @ replicate (count_list ts u) h)
     \<and> replay' = replay @ concat (map (mem_topics m) ts)"
proof (induction ts h m replay rule: register.induct)
  case (2 t ts h m replay)
  then show ?case by (auto simp: fun_eq_iff)
qed auto

lemma mem_Subscribe_delivered:
  assumes "delivered i t subs f old n s" and "j \<noteq> i"
  shows "delivered i t subs f old n (snd (mem_Subscribe s c ts (Some (tracker j g))))"
proof -
  obtain m w where s: "s = (m, w)" by (cases s)
  obtain m' replay where r: "register ts (tracker j g) m [] = (m', replay)" by (cases "register ts (tracker j g) m []")
  have "delivered i t subs f old n (m', w @ map (Pair j) msgs)" for msgs
  proof -
    from assms(1) obtain later where l: "mem_handlers m t = map (case_prod tracker) (subs @ (i, f) # later)"
      "i \<notin> fst ` set later" by (auto simp: delivered_def s)
    then have "\<exists>later. mem_handlers m' t = map (case_prod tracker) (subs @ (i, f) # later) \<and> i \<notin> fst ` set later"
      using register_spec [OF r] assms(2)
      by (intro exI [of _ "later @ replicate (count_list ts t) (j, g)"]) auto
    moreover have "\<exists>hs. mem_handlers m' u = map (case_prod tracker) hs \<and> i \<notin> fst ` set hs" if "u \<noteq> t" for u
    proof -
      from assms(1) that obtain hs where "mem_handlers m u = map (case_prod tracker) hs" "i \<notin> fst ` set hs"
        by (auto simp: delivered_def s)
      then show ?thesis
        using register_spec [OF r] assms(2) by (intro exI [of _ "hs @ replicate (count_list ts u) (j, g)"]) auto
    qed
    ultimately show ?thesis
      using assms register_spec [OF r] by (auto simp: delivered_def s Messages_def)
  qed
  with assms(1) r show ?thesis
    by (auto simp: s mem_Subscribe_def replay_tracker split: option.split)
qed

lemma broker_ops_delivered:
  assumes "delivered i t subs f old n s" and "i \<notin> fst ` set subs" and "list_all (\<lambda>op. \<not> subscribes i op) ops"
  shows "delivered i t subs f old n (broker_ops ops s)"
  using assms by (induction ops s rule: broker_ops.induct) (simp_all add: mem_Publish_delivered mem_Subscribe_delivered)

lemma broker_ops_messages: "\<exists>new. Messages (fst (broker_ops ops s)) t = Messages (fst s) t @ new"
proof (induction ops s rule: broker_ops.induct)
  case (2 c u ev ops s)
  have "\<exists>new. Messages (fst (snd (mem_Publish s c u ev))) t = Messages (fst s) t @ new"
    by (cases s) (auto simp: mem_Publish_def Messages_def Let_def split: option.split sum.split prod.split)
  with 2 show ?case by auto
next
  case (3 c ts j g ops s)
  have "Messages (fst (snd (mem_Subscribe s c ts (Some (tracker j g))))) t = Messages (fst s) t"
    by (cases s) (auto simp: mem_Subscribe_def Messages_def Let_def split: option.split prod.split dest!: register_spec)
  with 3 show ?case by auto
qed simp

text \<open>
  C12. What a subscriber of the in-memory broker receives, whatever handlers were subscribed before it,
  whatever they and its own handler answer, and whatever is published and subscribed afterwards: of
  the messages buffered for its topic, those up to the first that its handler refuses, whose error
  Subscribe returns; then of the messages stored later, in order and once each, exactly those that
  every handler subscribed to the topic before it accepts. If no handler errs, that is every message.
\<close>

theorem mem_subscriber_receives:
  assumes "\<And>u. mem_handlers m u = map (case_prod tracker) (subs u)" and "\<And>u. i \<notin> fst ` set (subs u)"
    and "\<not> mem_closed m" and "list_all (\<lambda>op. \<not> subscribes i op) ops"
    and "mem_Subscribe (m, w) None [t] (Some (tracker i f)) = (er, s)" and "broker_ops ops s = (m', w')"
  shows "er = (case find (\<lambda>msg. f msg \<noteq> None) (Messages m t) of None \<Rightarrow> None | Some msg \<Rightarrow> f msg)
    \<and> (\<exists>new. Messages m' t = Messages m t @ new
         \<and> received i w' = received i w @ upto_error f (Messages m t)
             @ filter (\<lambda>msg. \<forall>(j, g) \<in> set (subs t). g msg = None) new)"
proof -
  let ?n = "length (Messages m t)" and ?old = "received i w @ upto_error f (Messages m t)"
  have er: "er = (case find (\<lambda>msg. f msg \<noteq> None) (Messages m t) of None \<Rightarrow> None | Some msg \<Rightarrow> f msg)"
    and s: "s = (m\<lparr>mem_handlers := (mem_handlers m)(t := mem_handlers m t @ [tracker i f])\<rparr>,
                 w @ map (Pair i) (upto_error f (Messages m t)))"
    using assms(3,5) by (simp_all add: mem_Subscribe_def replay_tracker Messages_def)
  have "delivered i t (subs t) f ?old ?n s"
    unfolding delivered_def s using assms(1,2) by (auto simp: Messages_def intro: exI [of _ "[]"])
  from broker_ops_delivered [OF this assms(2,4)] have d: "delivered i t (subs t) f ?old ?n (m', w')"
    by (simp add: assms(6))
  have "take ?n (Messages m' t) = Messages m t"
    using broker_ops_messages [of ops s t] assms(6) by (auto simp: s Messages_def)
  then have "Messages m' t = Messages m t @ drop ?n (Messages m' t)" by (metis append_take_drop_id)
  with d er show ?thesis by (intro conjI exI [of _ "drop ?n (Messages m' t)"]) (auto simp: delivered_def)
qed

text \<open>Messages for two subscribers, of which the first refuses those of the topic.\<close>

definition picky :: verdict where
  "picky msg = (if msg_Topic msg = DefaultTopic then Some EOF else None)"

theorem mem_subscriber_receives_witness:
  "\<exists>m' w'. broker_ops [Pub None DefaultTopic (zero_event\<lparr>Timestamp := UnixMilli_UTC 1, Message := ''hello'', Service := ''api''\<rparr>)]
       (snd (mem_Subscribe (snd (mem_Subscribe (NewMemory, []) None [DefaultTopic] (Some (tracker 0 picky)))) None [DefaultTopic]
          (Some (tracker 1 (\<lambda>_. None))))) = (m', w')
     \<and> received 1 w' = filter (\<lambda>msg. picky msg = None) (Messages m' DefaultTopic)"
proof -
  let ?ops = "[Pub None DefaultTopic (zero_event\<lparr>Timestamp := UnixMilli_UTC 1, Message := ''hello'', Service := ''api''\<rparr>)]"
  let ?m = "NewMemory\<lparr>mem_handlers := (\<lambda>_. [])(DefaultTopic := [tracker 0 picky])\<rparr>"
  let ?subs = "(\<lambda>_. [])(DefaultTopic := [(0::nat, picky)])"
  have m: "snd (mem_Subscribe (NewMemory, []) None [DefaultTopic] (Some (tracker 0 picky))) = (?m, [])"
    by (simp add: mem_Subscribe_def NewMemory_def)
  obtain er s where sub: "mem_Subscribe (?m, []) None [DefaultTopic] (Some (tracker 1 (\<lambda>_. None))) = (er, s)"
    by (cases "mem_Subscribe (?m, []) None [DefaultTopic] (Some (tracker 1 (\<lambda>_. None)))")
  obtain m' w' where ops: "broker_ops ?ops s = (m', w')" by (cases "broker_ops ?ops s")
  have h: "mem_handlers ?m u = map (case_prod tracker) (?subs u)" "1 \<notin> fst ` set (?subs u)" for u
    by auto
  have "received 1 w' = filter (\<lambda>msg. picky msg = None) (Messages m' DefaultTopic)"
    using mem_subscriber_receives [of ?m ?subs 1 ?ops "[]" DefaultTopic "\<lambda>_. None", OF h _ _ sub ops]
    by (auto simp: NewMemory_def Messages_def)
  with m sub ops show ?thesis by auto
qed

text \<open>
  A closed in-memory broker does nothing: every publish and every subscription fails and changes
  neither its messages nor its handlers, and no handler is called.
\<close>

lemma closed_broker_inert:
  assumes "mem_closed m"
  shows "fst (mem_Publish (m, w) c t ev) \<noteq> None \<and> snd (mem_Publish (m, w) c t ev) = (m, w)
         \<and> fst (mem_Subscribe (m, w) c topics h) \<noteq> None \<and> snd (mem_Subscribe (m, w) c topics h) = (m, w)"
  using assms by (auto simp: mem_Publish_def mem_Subscribe_def split: option.split sum.split)

end
