(* ===== verification/Redpanda.thy ===== *)
theory Redpanda
  imports Broker
begin

text \<open>
  Package \<^verbatim>\<open>pkg/broker\<close>, file \<^verbatim>\<open>redpanda.go\<close>: the broker over the kafka-go client. The client is not in
  the repository: its writer is a parameter \<open>wmsg\<close> (\<^verbatim>\<open>WriteMessages\<close>) and \<open>close\<close> on a state \<open>'k\<close> of
  the cluster, and what its reader's \<^verbatim>\<open>FetchMessage\<close> and \<^verbatim>\<open>CommitMessages\<close> return is input to the
  consuming loop. \<open>Subscribe\<close>, which runs one goroutine per topic, is a step relation.
\<close>

section \<open>Configuration and construction\<close>

record RedpandaConfig =
  cfg_Brokers :: "string list"
  cfg_ClientID :: string
  cfg_GroupID :: string

text \<open>\<open>rp_writer\<close> is whether the writer pointer is non-nil.\<close>

record Redpanda =
  rp_cfg :: RedpandaConfig
  rp_writer :: bool
  rp_closed :: bool

definition NewRedpanda :: "RedpandaConfig \<Rightarrow> Redpanda res" where
  "NewRedpanda cfg =
     (if length (cfg_Brokers cfg) = 0
      then Inl (ErrNew ''redpanda: at least one broker address is required'')
      else (let cfg1 = (if cfg_ClientID cfg = [] then cfg\<lparr>cfg_ClientID := ''apexio''\<rparr> else cfg);
                cfg2 = (if cfg_GroupID cfg1 = [] then cfg1\<lparr>cfg_GroupID := ''apexio-writer''\<rparr> else cfg1)
            in Inr \<lparr>rp_cfg = cfg2, rp_writer = True, rp_closed = False\<rparr>))"

definition rp_Config :: "Redpanda \<Rightarrow> RedpandaConfig" where
  "rp_Config r = rp_cfg r"

section \<open>Publish and Close\<close>

type_synonym 'k kafka_write = "'k \<Rightarrow> ctx \<Rightarrow> string \<Rightarrow> bytes \<Rightarrow> err option \<times> 'k"

definition rp_Publish ::
  "'k kafka_write \<Rightarrow> Redpanda \<times> 'k \<Rightarrow> ctx \<Rightarrow> string \<Rightarrow> LogEvent \<Rightarrow> err option \<times> (Redpanda \<times> 'k)" where
  "rp_Publish wmsg s c topic event =
     (let (r, k) = s in
      case c of Some e \<Rightarrow> (Some e, s)
      | None \<Rightarrow>
          if rp_closed r \<or> \<not> rp_writer r then (Some ErrBrokerClosed, s)
          else if topic = [] then (Some (ErrNew ''redpanda: topic is required''), s)
          else (case MarshalEvent event of
              Inl e \<Rightarrow> (Some (Wrap ''redpanda: %w'' [] e), s)
            | Inr payload \<Rightarrow>
                (case wmsg k c topic payload of
                   (Some e, k') \<Rightarrow> (Some (Wrap ''redpanda: publish: %w'' [] e), (r, k'))
                 | (None, k') \<Rightarrow> (None, (r, k')))))"

definition rp_Close :: "('k \<Rightarrow> err option \<times> 'k) \<Rightarrow> Redpanda \<times> 'k \<Rightarrow> err option \<times> (Redpanda \<times> 'k)" where
  "rp_Close close s =
     (let (r, k) = s; r1 = r\<lparr>rp_closed := True\<rparr> in
      if \<not> rp_writer r1 then (None, (r1, k))
      else (let (er, k') = close k in (er, (r1\<lparr>rp_writer := False\<rparr>, k'))))"

text \<open>
  The documented behaviour of a synchronous kafka-go writer with \<^verbatim>\<open>RequireOne\<close> that makes up to \<open>attempts\<close>
  attempts and is not idempotent: a nil error means that the partition leader appended the message,
  once or, when an attempt timed out after it had taken effect, several times; an error leaves open
  whether any attempt appended it.
\<close>

definition kafka_write_ok :: "nat \<Rightarrow> 'k kafka_write \<Rightarrow> ('k \<Rightarrow> string \<Rightarrow> bytes list) \<Rightarrow> bool" where
  "kafka_write_ok attempts wmsg klog \<longleftrightarrow>
     (\<forall>k c t p k'. wmsg k c t p = (None, k') \<longrightarrow>
        (\<exists>n. 1 \<le> n \<and> n \<le> attempts \<and> klog k' = (klog k)(t := klog k t @ replicate n p)))
     \<and> (\<forall>k c t p e k'. wmsg k c t p = (Some e, k') \<longrightarrow>
        (\<exists>n. n \<le> attempts \<and> klog k' = (klog k)(t := klog k t @ replicate n p)))"

lemma rp_Publish_cases:
  assumes "rp_Publish wmsg (r, k) c t ev = (er, s')"
  obtains (ctx) e where "c = Some e" "er = Some e" "s' = (r, k)"
  | (closed) "c = None" "rp_closed r \<or> \<not> rp_writer r" "er = Some ErrBrokerClosed" "s' = (r, k)"
  | (topic) "c = None" "t = []" "er = Some (ErrNew ''redpanda: topic is required'')" "s' = (r, k)"
  | (invalid) e where "c = None" "MarshalEvent ev = Inl e"
      "er = Some (Wrap ''redpanda: %w'' [] e)" "s' = (r, k)"
  | (failed) p e k' where "c = None" "MarshalEvent ev = Inr p" "wmsg k c t p = (Some e, k')"
      "er = Some (Wrap ''redpanda: publish: %w'' [] e)" "s' = (r, k')"
  | (written) p k' where "c = None" "\<not> rp_closed r" "rp_writer r" "t \<noteq> []" "MarshalEvent ev = Inr p"
      "wmsg k c t p = (None, k')" "er = None" "s' = (r, k')"
  using assms by (auto simp: rp_Publish_def Let_def split: option.splits sum.splits if_splits prod.splits)

lemma rp_event_publisher:
  fixes wmsg :: "'k kafka_write"
  assumes "kafka_write_ok attempts wmsg klog"
  shows "event_publisher (rp_Publish wmsg) (\<lambda>s. klog (snd s)) attempts"
proof
  have ok: "\<And>k c t p k'. wmsg k c t p = (None, k') \<Longrightarrow>
        \<exists>n. 1 \<le> n \<and> n \<le> attempts \<and> klog k' = (klog k)(t := klog k t @ replicate n p)"
    and err: "\<And>k c t p e k'. wmsg k c t p = (Some e, k') \<Longrightarrow>
        \<exists>n. n \<le> attempts \<and> klog k' = (klog k)(t := klog k t @ replicate n p)"
    using assms unfolding kafka_write_ok_def by blast+
  fix s s' :: "Redpanda \<times> 'k" and c t ev e
  obtain r k where s: "s = (r, k)" by (cases s)
  show "\<exists>p n. MarshalEvent ev = Inr p \<and> 1 \<le> n \<and> n \<le> attempts
      \<and> klog (snd s') = (klog (snd s))(t := klog (snd s) t @ replicate n p)"
    if "rp_Publish wmsg s c t ev = (None, s')"
    using that unfolding s by (cases rule: rp_Publish_cases) (use ok in \<open>force+\<close>)
  show "klog (snd s') = klog (snd s)
      \<or> (\<exists>p n. MarshalEvent ev = Inr p \<and> n \<le> attempts
           \<and> klog (snd s') = (klog (snd s))(t := klog (snd s) t @ replicate n p))"
    if "rp_Publish wmsg s c t ev = (Some e, s')"
    using that unfolding s by (cases rule: rp_Publish_cases) (auto dest: err)
  show "rp_Publish wmsg s (Some e) t ev = (Some e, s)"
    by (simp add: s rp_Publish_def)
qed

text \<open>A cluster that appends whatever it is given, and one that appends it twice.\<close>

definition list_write :: "(string \<Rightarrow> bytes list) kafka_write" where
  "list_write k c t p = (None, k(t := k t @ [p]))"

definition twice_write :: "(string \<Rightarrow> bytes list) kafka_write" where
  "twice_write k c t p = (None, k(t := k t @ [p, p]))"

lemma list_write_ok: "1 \<le> attempts \<Longrightarrow> kafka_write_ok attempts list_write (\<lambda>k. k)"
  by (auto simp: kafka_write_ok_def list_write_def intro!: exI [of _ "1::nat"])

lemma twice_write_ok: "kafka_write_ok 10 twice_write (\<lambda>k. k)"
  by (auto simp: kafka_write_ok_def twice_write_def numeral_2_eq_2 intro!: exI [of _ "2::nat"])

interpretation lp: event_publisher "rp_Publish list_write" snd 1
  using rp_event_publisher [OF list_write_ok [of 1]] by simp

section \<open>The consuming loop of one topic\<close>

text \<open>
  What the environment gives one iteration: the result of \<open>FetchMessage\<close>, the context's error, and
  the result of \<open>CommitMessages\<close>, if it is called.
\<close>

record consume_in =
  ci_fetch :: "Message res"
  ci_ctx :: ctx
  ci_commit :: "err option"

text \<open>
  The loop ends with a result or runs on; \<open>committed\<close> lists the messages whose commit succeeded and
  \<open>handled\<close> those the handler accepted.
\<close>

record 'w consume_state =
  cs_world :: 'w
  cs_handled :: "Message list"
  cs_committed :: "Message list"

definition consume_iter ::
  "string \<Rightarrow> 'w Handler \<Rightarrow> consume_in \<Rightarrow> 'w consume_state \<Rightarrow> err option option \<times> 'w consume_state" where
  "consume_iter topic handler i st =
     (case ci_fetch i of
        Inl e \<Rightarrow>
          if errors_Is e Canceled \<or> errors_Is e DeadlineExceeded then (Some (ci_ctx i), st)
          else (Some (Some (Wrap ''redpanda: fetch %s: %w'' [ArgS topic] e)), st)
      | Inr msg \<Rightarrow>
          (case handler (ci_ctx i) msg (cs_world st) of
             (Some e, w) \<Rightarrow>
               (Some (Some (Wrap ''redpanda: handler %s: %w'' [ArgS topic] e)), st\<lparr>cs_world := w\<rparr>)
           | (None, w) \<Rightarrow>
               (let st1 = st\<lparr>cs_world := w, cs_handled := cs_handled st @ [msg]\<rparr> in
                case ci_commit i of
                  Some e \<Rightarrow> (Some (Some (Wrap ''redpanda: commit %s: %w'' [ArgS topic] e)), st1)
                | None \<Rightarrow> (None, st1\<lparr>cs_committed := cs_committed st @ [msg]\<rparr>))))"

text \<open>The loop on a finite run of the environment; the result \<open>None\<close> is that it has not returned.\<close>

fun consumeTopic ::
  "string \<Rightarrow> 'w Handler \<Rightarrow> consume_in list \<Rightarrow> 'w consume_state \<Rightarrow> err option option \<times> 'w consume_state" where
  "consumeTopic topic handler [] st = (None, st)"
| "consumeTopic topic handler (i # is) st =
     (case consume_iter topic handler i st of
        (Some r, st') \<Rightarrow> (Some r, st')
      | (None, st') \<Rightarrow> consumeTopic topic handler is st')"

section \<open>Subscribe: one goroutine per topic\<close>

text \<open>
  A worker goroutine is in the loop of \<open>consumeTopic\<close>, has left it with a result, waits to send an error
  on the channel, is about to call \<open>cancel\<close>, or has ended. The main goroutine waits in its \<^verbatim>\<open>select\<close>, or
  has taken a case and waits for the workers, or has returned. \<open>sub_ctx\<close> is the error of the caller's
  context and \<open>sub_subCtx\<close> that of the derived one, \<open>sub_cap\<close> and \<open>sub_errCh\<close> are the capacity and the
  contents of the error channel, \<open>sub_handled\<close> and \<open>sub_committed\<close> the messages of each topic, and
  \<open>sub_world\<close> is the state of the handler that the workers share.
\<close>

datatype worker = Consuming | Leaving "err option" | Sending err | Cancelling err | Ended "err option"

datatype main_pc = Selecting | Draining "err option" | Returned "err option"

record 'w sub_state =
  sub_ctx :: ctx
  sub_subCtx :: ctx
  sub_cap :: nat
  sub_errCh :: "err list"
  sub_workers :: "worker list"
  sub_handled :: "Message list list"
  sub_committed :: "Message list list"
  sub_world :: 'w
  sub_main :: main_pc

text \<open>The checks before the goroutines start; the step relation begins after them.\<close>

definition Subscribe_checks ::
  "Redpanda \<Rightarrow> ctx \<Rightarrow> string list \<Rightarrow> 'w Handler option \<Rightarrow> err option" where
  "Subscribe_checks r c topics handler =
     (case c of Some e \<Rightarrow> Some e
      | None \<Rightarrow>
          if rp_closed r then Some ErrBrokerClosed
          else if length topics = 0 then Some (ErrNew ''redpanda: at least one topic is required'')
          else if handler = None then Some (ErrNew ''redpanda: handler is nil'')
          else None)"

definition sub_init :: "string list \<Rightarrow> 'w \<Rightarrow> 'w sub_state" where
  "sub_init topics w =
     \<lparr>sub_ctx = None, sub_subCtx = None, sub_cap = length topics, sub_errCh = [],
      sub_workers = map (\<lambda>_. Consuming) topics, sub_handled = map (\<lambda>_. []) topics,
      sub_committed = map (\<lambda>_. []) topics, sub_world = w, sub_main = Selecting\<rparr>"

definition sub_cancelled :: "'w sub_state \<Rightarrow> bool" where
  "sub_cancelled s \<longleftrightarrow> sub_subCtx s \<noteq> None"

definition all_ended :: "'w sub_state \<Rightarrow> bool" where
  "all_ended s \<longleftrightarrow> (\<forall>x \<in> set (sub_workers s). \<exists>r. x = Ended r)"

text \<open>A worker's result goes to the channel unless it is nil or the cancellation.\<close>

definition reported :: "err option \<Rightarrow> bool" where
  "reported res \<longleftrightarrow> (\<exists>e. res = Some e \<and> \<not> errors_Is e Canceled)"

text \<open>Cancelling a context: the first error stays.\<close>

definition cancel_with :: "err \<Rightarrow> ctx \<Rightarrow> ctx" where
  "cancel_with e c = (case c of None \<Rightarrow> Some e | Some e' \<Rightarrow> Some e')"

text \<open>One iteration of the loop of worker \<open>i\<close>, and its effect on the state.\<close>

definition sub_consume ::
  "string list \<Rightarrow> 'w Handler \<Rightarrow> consume_in \<Rightarrow> nat \<Rightarrow> 'w sub_state \<Rightarrow> err option option \<times> 'w consume_state" where
  "sub_consume topics h inp i s =
     consume_iter (topics ! i) h inp
       \<lparr>cs_world = sub_world s, cs_handled = sub_handled s ! i, cs_committed = sub_committed s ! i\<rparr>"

definition sub_put :: "nat \<Rightarrow> 'w consume_state \<Rightarrow> worker \<Rightarrow> 'w sub_state \<Rightarrow> 'w sub_state" where
  "sub_put i st x s =
     s\<lparr>sub_world := cs_world st, sub_handled := (sub_handled s)[i := cs_handled st],
       sub_committed := (sub_committed s)[i := cs_committed st], sub_workers := (sub_workers s)[i := x]\<rparr>"

text \<open>
  The steps of the goroutines. A step of the environment may never come: the caller's context ends, a
  fetch returns a message, which is handled and committed, or a fetch, the handler or a commit fails.
  A step of the program comes if it is enabled: a fetch whose context is done returns the context's
  error, a send needs room in the channel, the receiving of \<open>done\<close> needs the end of all workers. The
  handler runs within a step, so it is one that returns.
\<close>

datatype move = Environment | Program

inductive sub_step :: "string list \<Rightarrow> 'w Handler \<Rightarrow> move \<Rightarrow> 'w sub_state \<Rightarrow> 'w sub_state \<Rightarrow> bool"
  for topics h where
  parent_done:
    "sub_ctx s = None \<Longrightarrow> e = Canceled \<or> e = DeadlineExceeded \<Longrightarrow>
     sub_step topics h Environment s (s\<lparr>sub_ctx := Some e, sub_subCtx := cancel_with e (sub_subCtx s)\<rparr>)"
| consume_more:
    "i < length (sub_workers s) \<Longrightarrow> sub_workers s ! i = Consuming \<Longrightarrow> ci_ctx inp = sub_subCtx s \<Longrightarrow>
     sub_consume topics h inp i s = (None, st) \<Longrightarrow>
     sub_step topics h Environment s (sub_put i st Consuming s)"
| consume_end:
    "i < length (sub_workers s) \<Longrightarrow> sub_workers s ! i = Consuming \<Longrightarrow> ci_ctx inp = sub_subCtx s \<Longrightarrow>
     sub_consume topics h inp i s = (Some r, st) \<Longrightarrow>
     sub_step topics h Environment s (sub_put i st (Leaving r) s)"
| fetch_done:
    "i < length (sub_workers s) \<Longrightarrow> sub_workers s ! i = Consuming \<Longrightarrow> sub_subCtx s = Some e \<Longrightarrow>
     sub_consume topics h \<lparr>ci_fetch = Inl e, ci_ctx = Some e, ci_commit = None\<rparr> i s = (Some r, st) \<Longrightarrow>
     sub_step topics h Program s (sub_put i st (Leaving r) s)"
| leave_quiet:
    "i < length (sub_workers s) \<Longrightarrow> sub_workers s ! i = Leaving r \<Longrightarrow> \<not> reported r \<Longrightarrow>
     sub_step topics h Program s (s\<lparr>sub_workers := (sub_workers s)[i := Ended r]\<rparr>)"
| leave_error:
    "i < length (sub_workers s) \<Longrightarrow> sub_workers s ! i = Leaving (Some e) \<Longrightarrow> reported (Some e) \<Longrightarrow>
     sub_step topics h Program s (s\<lparr>sub_workers := (sub_workers s)[i := Sending e]\<rparr>)"
| send_error:
    "i < length (sub_workers s) \<Longrightarrow> sub_workers s ! i = Sending e \<Longrightarrow> length (sub_errCh s) < sub_cap s \<Longrightarrow>
     sub_step topics h Program s
       (s\<lparr>sub_workers := (sub_workers s)[i := Cancelling e], sub_errCh := sub_errCh s @ [e]\<rparr>)"
| worker_cancel:
    "i < length (sub_workers s) \<Longrightarrow> sub_workers s ! i = Cancelling e \<Longrightarrow>
     sub_step topics h Program s
       (s\<lparr>sub_workers := (sub_workers s)[i := Ended (Some e)], sub_subCtx := cancel_with Canceled (sub_subCtx s)\<rparr>)"
| select_ctx:
    "sub_main s = Selecting \<Longrightarrow> sub_ctx s = Some e \<Longrightarrow>
     sub_step topics h Program s
       (s\<lparr>sub_main := Draining (Some e), sub_subCtx := cancel_with Canceled (sub_subCtx s)\<rparr>)"
| select_err:
    "sub_main s = Selecting \<Longrightarrow> sub_errCh s = e # es \<Longrightarrow>
     sub_step topics h Program s
       (s\<lparr>sub_main := Draining (Some e), sub_errCh := es, sub_subCtx := cancel_with Canceled (sub_subCtx s)\<rparr>)"
| select_done:
    "sub_main s = Selecting \<Longrightarrow> all_ended s \<Longrightarrow>
     sub_step topics h Program s (s\<lparr>sub_main := Returned None, sub_subCtx := cancel_with Canceled (sub_subCtx s)\<rparr>)"
| drained:
    "sub_main s = Draining r \<Longrightarrow> all_ended s \<Longrightarrow>
     sub_step topics h Program s (s\<lparr>sub_main := Returned r, sub_subCtx := cancel_with Canceled (sub_subCtx s)\<rparr>)"

text \<open>The states that a subscription can be in, with the number of program steps made so far.\<close>

inductive sub_run :: "string list \<Rightarrow> 'w Handler \<Rightarrow> 'w \<Rightarrow> nat \<Rightarrow> 'w sub_state \<Rightarrow> bool" for topics h w where
  sub_start: "sub_run topics h w 0 (sub_init topics w)"
| sub_env: "sub_run topics h w n s \<Longrightarrow> sub_step topics h Environment s t \<Longrightarrow> sub_run topics h w n t"
| sub_prog: "sub_run topics h w n s \<Longrightarrow> sub_step topics h Program s t \<Longrightarrow> sub_run topics h w (Suc n) t"

definition sub_reachable :: "string list \<Rightarrow> 'w sub_state \<Rightarrow> bool" where
  "sub_reachable topics s \<longleftrightarrow> (\<exists>h w n. sub_run topics h w n s)"

section \<open>Lemmas\<close>

lemma consume_iter_prefix:
  assumes "consume_iter topic h i st = (r, st')"
  shows "(\<exists>hs. cs_handled st' = cs_handled st @ hs)
    \<and> (cs_committed st = cs_handled st \<longrightarrow>
         (r = None \<and> cs_committed st' = cs_handled st')
         \<or> (r \<noteq> None \<and> (\<exists>hs. cs_handled st' = cs_committed st' @ hs \<and> length hs \<le> 1)))"
  using assms
  by (auto simp: consume_iter_def Let_def split: sum.splits option.splits prod.splits if_splits)

text \<open>Lists with one element replaced.\<close>

lemma sum_update:
  fixes f :: "'a \<Rightarrow> nat"
  shows "i < length xs \<Longrightarrow> sum_list (map f (xs[i := x])) + f (xs ! i) = sum_list (map f xs) + f x"
proof (induction xs arbitrary: i)
  case (Cons y ys)
  then show ?case by (cases i) auto
qed simp

lemma mem_update: "x \<in> set xs \<Longrightarrow> i < length xs \<Longrightarrow> xs ! i \<noteq> x \<Longrightarrow> x \<in> set (xs[i := y])"
  by (metis in_set_conv_nth length_list_update nth_list_update_neq)

lemma mem_updateD: "x \<in> set (xs[i := y]) \<Longrightarrow> x = y \<or> x \<in> set xs"
  using set_update_subset_insert [of xs i y] by auto

lemma sub_put_simps [simp]:
  "sub_ctx (sub_put i st x s) = sub_ctx s" "sub_subCtx (sub_put i st x s) = sub_subCtx s"
  "sub_cap (sub_put i st x s) = sub_cap s" "sub_errCh (sub_put i st x s) = sub_errCh s"
  "sub_workers (sub_put i st x s) = (sub_workers s)[i := x]" "sub_main (sub_put i st x s) = sub_main s"
  "sub_handled (sub_put i st x s) = (sub_handled s)[i := cs_handled st]"
  "sub_committed (sub_put i st x s) = (sub_committed s)[i := cs_committed st]"
  by (simp_all add: sub_put_def)

lemma cancel_with_neq [simp]: "cancel_with e c \<noteq> None"
  by (cases c) (simp_all add: cancel_with_def)

text \<open>
  The invariant of \<open>Subscribe\<close>: the number of workers is the number of topics and the capacity of the
  channel; an error in the channel or taken from it is that of a worker that has sent it; the channel
  holds at most one error for each worker that is past its send; when the main goroutine has returned,
  every worker has ended.
\<close>

definition sent :: "worker \<Rightarrow> nat" where
  "sent x = (case x of Cancelling e \<Rightarrow> 1 | Ended r \<Rightarrow> 1 | _ \<Rightarrow> 0)"

definition posted :: "err \<Rightarrow> worker list \<Rightarrow> bool" where
  "posted e ws \<longleftrightarrow> Cancelling e \<in> set ws \<or> Ended (Some e) \<in> set ws"

definition sub_inv :: "nat \<Rightarrow> 'w sub_state \<Rightarrow> bool" where
  "sub_inv n s \<longleftrightarrow>
     length (sub_workers s) = n \<and> sub_cap s = n
     \<and> (\<forall>e \<in> set (sub_errCh s). posted e (sub_workers s))
     \<and> length (sub_errCh s) \<le> sum_list (map sent (sub_workers s))
     \<and> (\<forall>r. sub_main s = Returned r \<longrightarrow> all_ended s)
     \<and> (\<forall>e. sub_main s = Draining (Some e) \<or> sub_main s = Returned (Some e) \<longrightarrow>
           sub_ctx s = Some e \<or> posted e (sub_workers s))"

lemma sub_inv_init: "sub_inv (length topics) (sub_init topics w)"
  by (simp add: sub_inv_def sub_init_def)

lemma all_ended_nth: "all_ended s \<Longrightarrow> i < length (sub_workers s) \<Longrightarrow> \<exists>r. sub_workers s ! i = Ended r"
  by (simp add: all_ended_def)

text \<open>A worker that moves on keeps the invariant, if what it had sent stays sent.\<close>

lemma sub_inv_worker:
  assumes "sub_inv n s" and "i < length (sub_workers s)" and "\<nexists>r. sub_workers s ! i = Ended r"
    and "\<And>e. sub_workers s ! i = Cancelling e \<Longrightarrow> x = Ended (Some e)"
    and "sub_workers t = (sub_workers s)[i := x]" and "sub_cap t = sub_cap s" and "sub_main t = sub_main s"
    and "sub_ctx t = sub_ctx s"
    and "sub_errCh t = sub_errCh s \<or> (\<exists>e. x = Cancelling e \<and> (\<exists>e. sub_workers s ! i = Sending e) \<and> sub_errCh t = sub_errCh s @ [e])"
  shows "sub_inv n t"
proof -
  let ?ws = "sub_workers s"
  have keep: "posted e (?ws[i := x])" if "posted e ?ws" for e
  proof (cases "?ws ! i = Cancelling e")
    case True
    with assms(2,4) show ?thesis by (simp add: posted_def set_update_memI)
  next
    case False
    with that assms(2,3) mem_update [of _ ?ws i x] show ?thesis unfolding posted_def by metis
  qed
  have "\<not> all_ended s" using all_ended_nth assms(2,3) by blast
  then have ret: "sub_main t \<noteq> Returned r" for r using assms(1,7) by (auto simp: sub_inv_def)
  have "length (sub_errCh t) \<le> sum_list (map sent (?ws[i := x]))"
    using sum_update [OF assms(2), of sent x] assms(1,3,4,9)
    by (cases "?ws ! i") (auto simp: sub_inv_def sent_def split: worker.splits)
  moreover have "posted e (?ws[i := x])" if "e \<in> set (sub_errCh t)" for e
    using assms(9)
  proof
    assume "sub_errCh t = sub_errCh s"
    with that assms(1) keep show ?thesis by (simp add: sub_inv_def)
  next
    assume "\<exists>e. x = Cancelling e \<and> (\<exists>e. ?ws ! i = Sending e) \<and> sub_errCh t = sub_errCh s @ [e]"
    moreover have "posted e' (?ws[i := Cancelling e'])" for e'
      using assms(2) by (simp add: posted_def set_update_memI)
    ultimately show ?thesis using that assms(1) keep by (auto simp: sub_inv_def)
  qed
  ultimately show ?thesis
    using assms(1,5-8) keep ret by (auto simp: sub_inv_def)
qed

lemma sub_step_inv:
  assumes "sub_step topics h l s t" and "sub_inv n s"
  shows "sub_inv n t"
  using assms
proof (cases rule: sub_step.cases)
  case (consume_more i inp st)
  then show ?thesis by (intro sub_inv_worker [OF assms(2), of i Consuming]) auto
next
  case (consume_end i inp r st)
  then show ?thesis by (intro sub_inv_worker [OF assms(2), of i "Leaving r"]) auto
next
  case (fetch_done i e r st)
  then show ?thesis by (intro sub_inv_worker [OF assms(2), of i "Leaving r"]) auto
next
  case (leave_quiet i r)
  then show ?thesis by (intro sub_inv_worker [OF assms(2), of i "Ended r"]) auto
next
  case (leave_error i e)
  then show ?thesis by (intro sub_inv_worker [OF assms(2), of i "Sending e"]) auto
next
  case (send_error i e)
  then show ?thesis by (intro sub_inv_worker [OF assms(2), of i "Cancelling e"]) auto
next
  case (worker_cancel i e)
  then show ?thesis by (intro sub_inv_worker [OF assms(2), of i "Ended (Some e)"]) auto
next
  case (drained r)
  with assms(2) show ?thesis by (cases r) (auto simp: sub_inv_def all_ended_def)
qed (use assms(2) in \<open>auto simp: sub_inv_def all_ended_def\<close>)

lemma sub_run_inv: "sub_run topics h w n s \<Longrightarrow> sub_inv (length topics) s"
  by (induction rule: sub_run.induct) (auto simp: sub_inv_init intro: sub_step_inv)

lemma sub_reachable_inv: "sub_reachable topics s \<Longrightarrow> sub_inv (length topics) s"
  by (auto simp: sub_reachable_def dest: sub_run_inv)

text \<open>The derived context is cancelled as soon as a case is taken or a worker has ended with an error.\<close>

definition sub_cancels :: "'w sub_state \<Rightarrow> bool" where
  "sub_cancels s \<longleftrightarrow>
     ((\<exists>e. Ended (Some e) \<in> set (sub_workers s) \<and> reported (Some e)) \<longrightarrow> sub_cancelled s)
     \<and> (sub_main s \<noteq> Selecting \<longrightarrow> sub_cancelled s) \<and> (sub_ctx s \<noteq> None \<longrightarrow> sub_cancelled s)"

lemma sub_step_cancels:
  assumes "sub_step topics h l s t" and "sub_cancels s"
  shows "sub_cancels t"
  using assms
  by (cases rule: sub_step.cases) (auto simp: sub_cancels_def sub_cancelled_def dest!: mem_updateD)

lemma sub_run_cancels: "sub_run topics h w n s \<Longrightarrow> sub_cancels s"
proof (induction rule: sub_run.induct)
  case sub_start
  show ?case by (auto simp: sub_cancels_def sub_init_def)
qed (auto intro: sub_step_cancels)

text \<open>
  The program steps that are left: a worker makes at most four and the main goroutine two. The
  environment adds none.
\<close>

definition worker_left :: "worker \<Rightarrow> nat" where
  "worker_left x = (case x of Consuming \<Rightarrow> 4 | Leaving r \<Rightarrow> 3 | Sending e \<Rightarrow> 2 | Cancelling e \<Rightarrow> 1 | Ended r \<Rightarrow> 0)"

definition sub_left :: "'w sub_state \<Rightarrow> nat" where
  "sub_left s = sum_list (map worker_left (sub_workers s))
     + (case sub_main s of Selecting \<Rightarrow> 2 | Draining r \<Rightarrow> 1 | Returned r \<Rightarrow> 0)"

lemma sub_left_worker:
  assumes "i < length (sub_workers s)" and "sub_workers t = (sub_workers s)[i := x]" and "sub_main t = sub_main s"
  shows "sub_left t + worker_left (sub_workers s ! i) = sub_left s + worker_left x"
  using sum_update [OF assms(1), of worker_left x] assms(2,3) by (simp add: sub_left_def)

lemma sub_step_left:
  assumes "sub_step topics h l s t"
  shows "(if l = Program then Suc (sub_left t) else sub_left t) \<le> sub_left s"
  using assms
proof (cases rule: sub_step.cases)
  case (consume_more i inp st)
  then show ?thesis using sub_left_worker [of i s t Consuming] by simp
next
  case (consume_end i inp r st)
  then show ?thesis using sub_left_worker [of i s t "Leaving r"] by (simp add: worker_left_def)
next
  case (fetch_done i e r st)
  then show ?thesis using sub_left_worker [of i s t "Leaving r"] by (simp add: worker_left_def)
next
  case (leave_quiet i r)
  then show ?thesis using sub_left_worker [of i s t "Ended r"] by (simp add: worker_left_def)
next
  case (leave_error i e)
  then show ?thesis using sub_left_worker [of i s t "Sending e"] by (simp add: worker_left_def)
next
  case (send_error i e)
  then show ?thesis using sub_left_worker [of i s t "Cancelling e"] by (simp add: worker_left_def)
next
  case (worker_cancel i e)
  then show ?thesis using sub_left_worker [of i s t "Ended (Some e)"] by (simp add: worker_left_def)
qed (auto simp: sub_left_def)

lemma sub_run_left: "sub_run topics h w n s \<Longrightarrow> n + sub_left s \<le> 4 * length topics + 2"
proof (induction rule: sub_run.induct)
  case sub_start
  show ?case by (simp add: sub_left_def sub_init_def worker_left_def comp_def sum_list_triv)
next
  case (sub_env n s t)
  with sub_step_left [OF sub_env.hyps(2)] show ?case by simp
next
  case (sub_prog n s t)
  with sub_step_left [OF sub_prog.hyps(2)] show ?case by simp
qed

text \<open>
  A reason to stop: the caller's context is done, a case of the select is taken, a worker has failed, or
  all have ended. It does not go away.
\<close>

definition failed :: "worker \<Rightarrow> bool" where
  "failed x = (case x of Consuming \<Rightarrow> False | Leaving r \<Rightarrow> reported r | Sending e \<Rightarrow> reported (Some e)
               | Cancelling e \<Rightarrow> reported (Some e) | Ended r \<Rightarrow> reported r)"

definition sub_stopping :: "'w sub_state \<Rightarrow> bool" where
  "sub_stopping s \<longleftrightarrow>
     sub_ctx s \<noteq> None \<or> sub_main s \<noteq> Selecting \<or> all_ended s \<or> (\<exists>x \<in> set (sub_workers s). failed x)"

lemma sub_stopping_worker:
  assumes "sub_stopping s" and "i < length (sub_workers s)" and "\<nexists>r. sub_workers s ! i = Ended r"
    and "failed (sub_workers s ! i) \<Longrightarrow> failed x" and "sub_workers t = (sub_workers s)[i := x]"
    and "sub_main t = sub_main s" and "sub_ctx t = sub_ctx s"
  shows "sub_stopping t"
proof -
  have "\<not> all_ended s" using all_ended_nth assms(2,3) by blast
  then consider "sub_ctx s \<noteq> None" | "sub_main s \<noteq> Selecting" | y where "y \<in> set (sub_workers s)" "failed y"
    using assms(1) by (auto simp: sub_stopping_def)
  then show ?thesis
  proof cases
    case 3
    have "\<exists>y \<in> set ((sub_workers s)[i := x]). failed y"
    proof (cases "sub_workers s ! i = y")
      case True
      then show ?thesis using 3 assms(2,4) by (auto intro!: bexI [of _ x] set_update_memI)
    next
      case False
      then show ?thesis using 3 assms(2) mem_update by metis
    qed
    then show ?thesis using assms(5) by (simp add: sub_stopping_def)
  qed (use assms(6,7) in \<open>auto simp: sub_stopping_def\<close>)
qed

lemma sub_step_stopping:
  assumes "sub_step topics h l s t" and "sub_stopping s"
  shows "sub_stopping t"
  using assms
proof (cases rule: sub_step.cases)
  case (consume_more i inp st)
  then show ?thesis by (intro sub_stopping_worker [OF assms(2), of i Consuming]) auto
next
  case (consume_end i inp r st)
  then show ?thesis by (intro sub_stopping_worker [OF assms(2), of i "Leaving r"]) (auto simp: failed_def)
next
  case (fetch_done i e r st)
  then show ?thesis by (intro sub_stopping_worker [OF assms(2), of i "Leaving r"]) (auto simp: failed_def)
next
  case (leave_quiet i r)
  then show ?thesis by (intro sub_stopping_worker [OF assms(2), of i "Ended r"]) (auto simp: failed_def)
next
  case (leave_error i e)
  then show ?thesis by (intro sub_stopping_worker [OF assms(2), of i "Sending e"]) (auto simp: failed_def)
next
  case (send_error i e)
  then show ?thesis by (intro sub_stopping_worker [OF assms(2), of i "Cancelling e"]) (auto simp: failed_def)
next
  case (worker_cancel i e)
  then show ?thesis by (intro sub_stopping_worker [OF assms(2), of i "Ended (Some e)"]) (auto simp: failed_def)
qed (auto simp: sub_stopping_def)

lemma send_room:
  assumes "sub_inv n s" and "i < length (sub_workers s)" and "sub_workers s ! i = Sending e"
  shows "length (sub_errCh s) < sub_cap s"
proof -
  have "sum_list (map sent ws) \<le> length ws" for ws
    by (induction ws) (auto simp: sent_def split: worker.split)
  from this [of "(sub_workers s)[i := Ended None]"] sum_update [OF assms(2), of sent "Ended None"]
  show ?thesis using assms(1,3) by (simp add: sub_inv_def sent_def)
qed

text \<open>With a reason to stop there is always a next step of the program, until \<open>Subscribe\<close> has returned.\<close>

lemma fetch_done_enabled:
  assumes "i < length (sub_workers s)" and "sub_workers s ! i = Consuming" and "sub_subCtx s = Some e"
  shows "\<exists>t. sub_step topics h Program s t"
proof -
  obtain r st where "sub_consume topics h \<lparr>ci_fetch = Inl e, ci_ctx = Some e, ci_commit = None\<rparr> i s = (Some r, st)"
    by (cases "errors_Is e Canceled \<or> errors_Is e DeadlineExceeded") (auto simp: sub_consume_def consume_iter_def)
  from sub_step.fetch_done [OF assms this] show ?thesis by blast
qed

lemma sub_progress:
  assumes "sub_run topics h w n s" and "sub_stopping s" and "\<nexists>t. sub_step topics h Program s t"
  shows "\<exists>r. sub_main s = Returned r"
proof (rule ccontr)
  assume nr: "\<nexists>r. sub_main s = Returned r"
  have ended: "\<exists>r. sub_workers s ! i = Ended r" if "i < length (sub_workers s)" "sub_workers s ! i \<noteq> Consuming" for i
  proof (cases "sub_workers s ! i")
    case (Leaving r)
    then show ?thesis
      using assms(3) that(1) sub_step.leave_quiet sub_step.leave_error by (metis reported_def)
  next
    case (Sending e)
    then show ?thesis
      using assms(3) that(1) sub_step.send_error send_room [OF sub_run_inv [OF assms(1)]] by metis
  next
    case (Cancelling e)
    then show ?thesis using assms(3) that(1) sub_step.worker_cancel by metis
  qed (use that in auto)
  have "\<not> all_ended s"
    using assms(3) nr sub_step.select_done sub_step.drained by (cases "sub_main s") blast+
  then obtain i where i: "i < length (sub_workers s)" "sub_workers s ! i = Consuming"
    using ended by (metis all_ended_def in_set_conv_nth)
  then have "sub_subCtx s = None" using fetch_done_enabled assms(3) by (metis not_None_eq)
  then have c: "sub_ctx s = None" "sub_main s = Selecting"
    "\<And>e. Ended (Some e) \<in> set (sub_workers s) \<Longrightarrow> \<not> reported (Some e)"
    using sub_run_cancels [OF assms(1)] by (auto simp: sub_cancels_def sub_cancelled_def)
  obtain x where x: "x \<in> set (sub_workers s)" "failed x"
    using assms(2) c(1,2) \<open>\<not> all_ended s\<close> by (auto simp: sub_stopping_def)
  then obtain r where "x = Ended r" using ended by (force simp: in_set_conv_nth failed_def)
  with x c(3) show False by (auto simp: failed_def reported_def)
qed

text \<open>In every topic all messages that were handled are committed, except perhaps the last.\<close>

definition commits_ok :: "nat \<Rightarrow> nat \<Rightarrow> 'w sub_state \<Rightarrow> bool" where
  "commits_ok n i s \<longleftrightarrow>
     length (sub_handled s) = n \<and> length (sub_committed s) = n
     \<and> (\<exists>hs. sub_handled s ! i = sub_committed s ! i @ hs \<and> length hs \<le> 1 \<and> (sub_workers s ! i = Consuming \<longrightarrow> hs = []))"

lemma sub_put_commits:
  assumes "commits_ok (length topics) i s" and "length (sub_workers s) = length topics" and "i < length topics"
    and "j < length (sub_workers s)" "sub_workers s ! j = Consuming"
    and "sub_consume topics h inp j s = (q, st)" "x = Consuming \<longrightarrow> q = None"
  shows "commits_ok (length topics) i (sub_put j st x s)"
proof (cases "j = i")
  case True
  with assms(1,5) have "sub_committed s ! i = sub_handled s ! i" by (auto simp: commits_ok_def)
  with consume_iter_prefix [OF assms(6) [unfolded sub_consume_def]] True
  have "\<exists>hs. cs_handled st = cs_committed st @ hs \<and> length hs \<le> 1 \<and> (q = None \<longrightarrow> hs = [])" by auto
  with assms True show ?thesis by (auto simp: commits_ok_def)
next
  case False
  with assms(1) show ?thesis by (simp add: commits_ok_def)
qed

lemma sub_step_commits:
  assumes "sub_step topics h l s t" and "commits_ok (length topics) i s" and "length (sub_workers s) = length topics"
    and "i < length topics"
  shows "commits_ok (length topics) i t"
  using assms(1)
proof (cases rule: sub_step.cases)
  case (consume_more j inp st)
  with sub_put_commits [OF assms(2-4) consume_more(3,4,6)] show ?thesis by simp
next
  case (consume_end j inp r st)
  with sub_put_commits [OF assms(2-4) consume_end(3,4,6)] show ?thesis by simp
next
  case (fetch_done j e r st)
  with sub_put_commits [OF assms(2-4) fetch_done(3,4,6)] show ?thesis by simp
qed (use assms(2,4) in \<open>auto simp: commits_ok_def nth_list_update\<close>)

lemma sub_run_commits:
  assumes "sub_run topics h w n s" and "i < length topics"
  shows "commits_ok (length topics) i s"
  using assms(1)
proof (induction rule: sub_run.induct)
  case sub_start
  show ?case using assms(2) by (simp add: commits_ok_def sub_init_def)
next
  case (sub_env n s t)
  from sub_step_commits [OF sub_env(2,3) _ assms(2)] sub_run_inv [OF sub_env(1)] show ?case by (simp add: sub_inv_def)
next
  case (sub_prog n s t)
  from sub_step_commits [OF sub_prog(2,3) _ assms(2)] sub_run_inv [OF sub_prog(1)] show ?case by (simp add: sub_inv_def)
qed

text \<open>
  C13. A topic's consuming loop commits exactly the messages its handler accepted, in the order they
  were fetched, except that the last accepted message may be uncommitted when the loop has
  returned; the message a handler refuses is not committed.
\<close>

theorem consumeTopic_commits_handled:
  assumes "consumeTopic topic h is st = (r, st')" and "cs_committed st = cs_handled st"
  shows "\<exists>hs. cs_handled st' = cs_committed st' @ hs \<and> length hs \<le> 1 \<and> (r = None \<longrightarrow> hs = [])"
  using assms
proof (induction "is" arbitrary: st)
  case Nil
  then show ?case by simp
next
  case (Cons i "is")
  obtain r1 st1 where it: "consume_iter topic h i st = (r1, st1)"
    by (cases "consume_iter topic h i st")
  show ?case
  proof (cases r1)
    case None
    with it Cons.prems have "cs_committed st1 = cs_handled st1"
      using consume_iter_prefix [OF it] by simp
    moreover have "consumeTopic topic h is st1 = (r, st')"
      using Cons.prems it None by simp
    ultimately show ?thesis by (rule Cons.IH [rotated])
  next
    case (Some x)
    then show ?thesis
      using consume_iter_prefix [OF it] Cons.prems it by auto
  qed
qed

theorem consumeTopic_commits_handled_witness:
  "\<exists>hs. cs_handled (snd (consumeTopic ''t'' (\<lambda>c msg w. (if msg_Value msg = ''bad'' then Some EOF else None, Suc w))
        [\<lparr>ci_fetch = Inr \<lparr>msg_Topic = ''t'', msg_Key = [], msg_Value = ''a''\<rparr>, ci_ctx = None, ci_commit = None\<rparr>,
         \<lparr>ci_fetch = Inr \<lparr>msg_Topic = ''t'', msg_Key = [], msg_Value = ''b''\<rparr>, ci_ctx = None, ci_commit = Some EOF\<rparr>]
        \<lparr>cs_world = 0, cs_handled = [], cs_committed = []\<rparr>)) = [\<lparr>msg_Topic = ''t'', msg_Key = [], msg_Value = ''a''\<rparr>] @ hs
     \<and> length hs \<le> 1"
  using consumeTopic_commits_handled [OF prod.collapse [symmetric], of
      "\<lparr>cs_world = 0, cs_handled = [], cs_committed = []\<rparr>" "''t''"
      "\<lambda>c msg w. (if msg_Value msg = ''bad'' then Some EOF else None, Suc w)"
      "[\<lparr>ci_fetch = Inr \<lparr>msg_Topic = ''t'', msg_Key = [], msg_Value = ''a''\<rparr>, ci_ctx = None, ci_commit = None\<rparr>,
        \<lparr>ci_fetch = Inr \<lparr>msg_Topic = ''t'', msg_Key = [], msg_Value = ''b''\<rparr>, ci_ctx = None, ci_commit = Some EOF\<rparr>]"]
  by (simp add: consume_iter_def Let_def)

text \<open>
  C18. Subscribe never returns while one of its goroutines still runs, and an error it returns is the
  caller's context error or the result of one of the topics' loops.
\<close>

theorem Subscribe_returns_after_workers:
  assumes "sub_reachable topics s" and "sub_main s = Returned r"
  shows "all_ended s \<and> length (sub_workers s) = length topics
    \<and> (\<forall>e. r = Some e \<longrightarrow> sub_ctx s = Some e \<or> Ended (Some e) \<in> set (sub_workers s))"
  using sub_reachable_inv [OF assms(1)] assms(2) by (auto simp: sub_inv_def all_ended_def posted_def)

text \<open>
  A subscription to one topic whose loop fails at its first message: the states after the failure, the
  send, the cancel and the return.
\<close>

definition boom :: err where
  "boom = Wrap ''redpanda: handler %s: %w'' [ArgS DefaultTopic] (ErrNew ''boom'')"

abbreviation boom_handler :: "unit Handler" where
  "boom_handler \<equiv> \<lambda>c msg w. (Some (ErrNew ''boom''), w)"

definition boom_state :: "ctx \<Rightarrow> err list \<Rightarrow> worker \<Rightarrow> main_pc \<Rightarrow> unit sub_state" where
  "boom_state c errs x pc =
     \<lparr>sub_ctx = None, sub_subCtx = c, sub_cap = 1, sub_errCh = errs, sub_workers = [x], sub_handled = [[]],
      sub_committed = [[]], sub_world = (), sub_main = pc\<rparr>"

lemma boom_run:
  shows boom_sending: "sub_run [DefaultTopic] boom_handler () 1 (boom_state None [] (Sending boom) Selecting)"
    and boom_ended: "sub_run [DefaultTopic] boom_handler () 3 (boom_state (Some Canceled) [boom] (Ended (Some boom)) Selecting)"
proof -
  let ?run = "sub_run [DefaultTopic] boom_handler ()"
  let ?step = "sub_step [DefaultTopic] boom_handler"
  have rep: "reported (Some boom)" by (simp add: reported_def boom_def)
  have s0: "sub_init [DefaultTopic] () = boom_state None [] Consuming Selecting"
    by (simp add: sub_init_def boom_state_def)
  have "?step Environment (boom_state None [] Consuming Selecting) (boom_state None [] (Leaving (Some boom)) Selecting)"
    using sub_step.consume_end [of 0 "boom_state None [] Consuming Selecting"
        "\<lparr>ci_fetch = Inr \<lparr>msg_Topic = DefaultTopic, msg_Key = [], msg_Value = []\<rparr>, ci_ctx = None, ci_commit = None\<rparr>"
        "[DefaultTopic]" boom_handler "Some boom" "\<lparr>cs_world = (), cs_handled = [], cs_committed = []\<rparr>"]
    by (simp add: boom_state_def sub_consume_def consume_iter_def sub_put_def boom_def)
  with sub_start [of "[DefaultTopic]" boom_handler "()"]
  have r1: "?run 0 (boom_state None [] (Leaving (Some boom)) Selecting)" unfolding s0 by (rule sub_env)
  have "?step Program (boom_state None [] (Leaving (Some boom)) Selecting) (boom_state None [] (Sending boom) Selecting)"
    using sub_step.leave_error [of 0 "boom_state None [] (Leaving (Some boom)) Selecting" boom] rep by (simp add: boom_state_def)
  then show r2: "?run 1 (boom_state None [] (Sending boom) Selecting)" using sub_prog [OF r1] by simp
  have "?step Program (boom_state None [] (Sending boom) Selecting) (boom_state None [boom] (Cancelling boom) Selecting)"
    using sub_step.send_error [of 0 "boom_state None [] (Sending boom) Selecting" boom] by (simp add: boom_state_def)
  then have r3: "?run 2 (boom_state None [boom] (Cancelling boom) Selecting)" using sub_prog [OF r2] by (simp add: eval_nat_numeral)
  have "?step Program (boom_state None [boom] (Cancelling boom) Selecting)
      (boom_state (Some Canceled) [boom] (Ended (Some boom)) Selecting)"
    using sub_step.worker_cancel [of 0 "boom_state None [boom] (Cancelling boom) Selecting" boom]
    by (simp add: boom_state_def cancel_with_def)
  then show "?run 3 (boom_state (Some Canceled) [boom] (Ended (Some boom)) Selecting)"
    using sub_prog [OF r3] by (simp add: eval_nat_numeral)
qed

lemma boom_returned:
  "sub_run [DefaultTopic] boom_handler () 4 (boom_state (Some Canceled) [boom] (Ended (Some boom)) (Returned None))"
proof -
  have "sub_step [DefaultTopic] boom_handler Program (boom_state (Some Canceled) [boom] (Ended (Some boom)) Selecting)
      (boom_state (Some Canceled) [boom] (Ended (Some boom)) (Returned None))"
    using sub_step.select_done [of "boom_state (Some Canceled) [boom] (Ended (Some boom)) Selecting"]
    by (simp add: boom_state_def all_ended_def cancel_with_def)
  then show ?thesis using sub_prog [OF boom_ended] by (simp add: eval_nat_numeral)
qed

theorem Subscribe_returns_after_workers_witness:
  "all_ended (boom_state (Some Canceled) [boom] (Ended (Some boom)) (Returned None))"
proof -
  have "sub_reachable [DefaultTopic] (boom_state (Some Canceled) [boom] (Ended (Some boom)) (Returned None))"
    using boom_returned by (auto simp: sub_reachable_def)
  from Subscribe_returns_after_workers [OF this, of None] show ?thesis by (simp add: boom_state_def)
qed

text \<open>
  C21. A send on the error channel never blocks: the capacity of the channel is enough for every worker
  that comes to its send to make it at once, whatever the others and the main goroutine have done.
\<close>

theorem Subscribe_send_never_blocks:
  assumes "sub_run topics h w n s" and "i < length (sub_workers s)" and "sub_workers s ! i = Sending e"
  shows "\<exists>t. sub_step topics h Program s t \<and> sub_workers t ! i = Cancelling e \<and> sub_errCh t = sub_errCh s @ [e]"
  using sub_step.send_error [OF assms(2,3) send_room [OF sub_run_inv [OF assms(1)] assms(2,3)]] assms(2)
  by (intro exI conjI) (assumption, simp_all)

theorem Subscribe_send_never_blocks_witness:
  "\<exists>t. sub_step [DefaultTopic] boom_handler Program (boom_state None [] (Sending boom) Selecting) t
     \<and> sub_workers t ! 0 = Cancelling boom \<and> sub_errCh t = [boom]"
  using Subscribe_send_never_blocks [OF boom_sending, of 0 boom] by (simp add: boom_state_def)

text \<open>
  C37. Subscribe can return nil although a topic's loop failed: when the last goroutine has sent its
  error and ended, both the error channel and the done channel are ready, and the select may take
  done.
\<close>

theorem Subscribe_can_lose_error:
  "\<exists>s :: unit sub_state. sub_reachable [DefaultTopic] s \<and> sub_main s = Returned None
     \<and> sub_workers s = [Ended (Some (Wrap ''redpanda: handler %s: %w'' [ArgS DefaultTopic] (ErrNew ''boom'')))]
     \<and> sub_ctx s = None"
proof -
  have "sub_reachable [DefaultTopic] (boom_state (Some Canceled) [boom] (Ended (Some boom)) (Returned None))"
    using boom_returned by (auto simp: sub_reachable_def)
  then show ?thesis by (intro exI conjI) (assumption, simp_all add: boom_state_def boom_def)
qed

text \<open>
  C20. Subscribe shuts down as a whole: once a topic's loop has failed, the caller's context is done or a
  case of the select is taken, the context of every loop is cancelled; and when the loops have ended
  Subscribe can always return, whatever has happened before.
\<close>

theorem Subscribe_shuts_down:
  assumes "sub_reachable topics s"
  shows "((\<exists>e. Ended (Some e) \<in> set (sub_workers s) \<and> reported (Some e)) \<or> sub_ctx s \<noteq> None \<or> sub_main s \<noteq> Selecting
           \<longrightarrow> sub_cancelled s)
         \<and> (all_ended s \<longrightarrow> (\<exists>t r. (t = s \<or> sub_step topics h Program s t) \<and> sub_main t = Returned r))"
proof -
  have "\<exists>t r. (t = s \<or> sub_step topics h Program s t) \<and> sub_main t = Returned r" if "all_ended s"
  proof (cases "sub_main s")
    case Selecting
    from sub_step.select_done [OF this that] show ?thesis by (intro exI conjI disjI2) (assumption, simp)
  next
    case (Draining r)
    from sub_step.drained [OF this that] show ?thesis by (intro exI conjI disjI2) (assumption, simp)
  qed blast
  moreover have "sub_cancels s" using assms by (auto simp: sub_reachable_def dest: sub_run_cancels)
  ultimately show ?thesis by (auto simp: sub_cancels_def)
qed

theorem Subscribe_shuts_down_witness:
  "sub_cancelled (boom_state (Some Canceled) [boom] (Ended (Some boom)) Selecting)"
proof -
  have "sub_reachable [DefaultTopic] (boom_state (Some Canceled) [boom] (Ended (Some boom)) Selecting)"
    using boom_ended by (auto simp: sub_reachable_def)
  from Subscribe_shuts_down [OF this, of boom_handler] show ?thesis
    by (auto simp: boom_state_def reported_def boom_def)
qed

text \<open>
  C19. Subscribe stops when it has a reason to: once the caller's context is done, a topic's loop has
  failed or all loops have ended, this stays so, and until Subscribe has returned one of its
  goroutines can always go on, so none is stuck in a full channel, in a fetch that nobody cancels or
  in the wait for the others; and in any interleaving with any behaviour of the environment they make
  at most four steps for each topic and two more. Without a reason to stop the loops may run forever.
\<close>

theorem Subscribe_terminates:
  assumes "sub_run topics h w n s"
  shows "n \<le> 4 * length topics + 2
    \<and> (sub_stopping s \<longrightarrow>
        (\<forall>l t. sub_step topics h l s t \<longrightarrow> sub_stopping t)
        \<and> ((\<exists>t. sub_step topics h Program s t) \<or> (\<exists>r. sub_main s = Returned r)))"
  using sub_run_left [OF assms] sub_step_stopping [of topics h _ s] sub_progress [OF assms] by auto

theorem Subscribe_terminates_witness:
  "sub_stopping (boom_state None [] (Sending boom) Selecting)
   \<and> (\<exists>t. sub_step [DefaultTopic] boom_handler Program (boom_state None [] (Sending boom) Selecting) t)"
proof -
  have "sub_stopping (boom_state None [] (Sending boom) Selecting)"
    by (simp add: sub_stopping_def boom_state_def failed_def reported_def boom_def)
  with Subscribe_terminates [OF boom_sending] show ?thesis by (auto simp: boom_state_def)
qed

end
