(* ===== verification/Gateway.thy ===== *)
theory Gateway
  imports Otlp Auth Redpanda
begin

text \<open>
  Command \<^verbatim>\<open>cmd/gateway\<close>: the publishing loop, the ingest counters, the REST, OTLP/HTTP and OTLP/gRPC
  handlers, and the routes that \<open>main\<close> sets up. The broker is any implementation of \<open>Publish\<close>, an
  argument \<open>pub\<close> on a state \<open>'s\<close>; the protobuf decoders are third-party and are arguments.
\<close>

section \<open>Publishing\<close>

text \<open>\<open>ctx i\<close> is the context's error at the publish of the \<open>i\<close>-th event.\<close>

type_synonym 's publish = "'s \<Rightarrow> ctx \<Rightarrow> string \<Rightarrow> LogEvent \<Rightarrow> err option \<times> 's"

fun publish_from ::
  "'s publish \<Rightarrow> string \<Rightarrow> (nat \<Rightarrow> ctx) \<Rightarrow> nat \<Rightarrow> LogEvent list \<Rightarrow> 's \<Rightarrow> err option \<times> 's" where
  "publish_from pub topic ctx i [] s = (None, s)"
| "publish_from pub topic ctx i (ev # evs) s =
     (case pub s (ctx i) topic ev of
        (Some e, s') \<Rightarrow> (Some (Wrap ''publish event[%d]: %w'' [ArgD (int i)] e), s')
      | (None, s') \<Rightarrow> publish_from pub topic ctx (i + 1) evs s')"

definition publishEvents ::
  "'s publish \<Rightarrow> string \<Rightarrow> (nat \<Rightarrow> ctx) \<Rightarrow> LogEvent list \<Rightarrow> 's \<Rightarrow> err option \<times> 's" where
  "publishEvents pub topic ctx evs s = publish_from pub topic ctx 0 evs s"

section \<open>Counters\<close>

record ingestMetrics =
  restOK :: uint64
  restErr :: uint64
  otlpOK :: uint64
  otlpErr :: uint64
  otlpLogs :: uint64

definition zero_ingestMetrics :: ingestMetrics where
  "zero_ingestMetrics = \<lparr>restOK = 0, restErr = 0, otlpOK = 0, otlpErr = 0, otlpLogs = 0\<rparr>"

definition incRestOK :: "ingestMetrics \<Rightarrow> ingestMetrics" where
  "incRestOK m = m\<lparr>restOK := restOK m + 1\<rparr>"

definition incRestErr :: "ingestMetrics \<Rightarrow> ingestMetrics" where
  "incRestErr m = m\<lparr>restErr := restErr m + 1\<rparr>"

definition incOTLPOK :: "uint64 \<Rightarrow> ingestMetrics \<Rightarrow> ingestMetrics" where
  "incOTLPOK n m = m\<lparr>otlpOK := otlpOK m + 1, otlpLogs := otlpLogs m + n\<rparr>"

definition incOTLPErr :: "ingestMetrics \<Rightarrow> ingestMetrics" where
  "incOTLPErr m = m\<lparr>otlpErr := otlpErr m + 1\<rparr>"

text \<open>A counter line with its two labels.\<close>

definition metric_line :: "string \<Rightarrow> string \<Rightarrow> uint64 \<Rightarrow> string" where
  "metric_line protocol result n =
     ''apexio_ingest_requests_total{protocol='' @ [CHR 0x22] @ protocol @ [CHR 0x22]
     @ '',result='' @ [CHR 0x22] @ result @ [CHR 0x22] @ ''} '' @ show_nat (unat n) @ [NL]"

definition metrics_text :: "ingestMetrics \<Rightarrow> string" where
  "metrics_text m =
     ''# HELP apexio_ingest_requests_total Ingest requests by protocol and outcome'' @ [NL]
     @ ''# TYPE apexio_ingest_requests_total counter'' @ [NL]
     @ metric_line ''rest'' ''ok'' (restOK m)
     @ metric_line ''rest'' ''error'' (restErr m)
     @ metric_line ''otlp'' ''ok'' (otlpOK m)
     @ metric_line ''otlp'' ''error'' (otlpErr m)
     @ ''# HELP apexio_ingest_logs_total OTLP log records accepted'' @ [NL]
     @ ''# TYPE apexio_ingest_logs_total counter'' @ [NL]
     @ ''apexio_ingest_logs_total '' @ show_nat (unat (otlpLogs m)) @ [NL]"

section \<open>Handlers\<close>

text \<open>The state a handler works on: the broker and the counters.\<close>

type_synonym 's gw = "'s \<times> ingestMetrics"

definition writeErr :: "nat \<Rightarrow> string \<Rightarrow> err \<Rightarrow> response" where
  "writeErr code msg er =
     \<lparr>w_Status = code, w_ContentType = Some ''application/json'', w_Body = ErrorBody msg er\<rparr>"

text \<open>
  \<^verbatim>\<open>json.NewDecoder(r.Body).Decode\<close>: a value that is complete in the bytes that can be read decodes
  whatever follows it. Otherwise a failing body is reported by its own error; that the decoder
  reports a syntax error in front of the failing byte instead, with the same status, is not told
  apart.
\<close>

definition decode_body :: "request \<Rightarrow> RESTPayload res" where
  "decode_body r =
     (case parse_prefix (r_Body r) of
        Inr v \<Rightarrow> json_Decode_payload (r_Body r)
      | Inl e \<Rightarrow> Inl (case r_BodyErr r of Some er \<Rightarrow> er | None \<Rightarrow> e))"

definition ingest_ServeHTTP :: "'s publish \<Rightarrow> string \<Rightarrow> gotime \<Rightarrow> 's gw handler" where
  "ingest_ServeHTTP pub topic now r st =
     (let (s, m) = st in
      case decode_body r of
        Inl e \<Rightarrow> (writeErr 400 ''invalid json'' e, (s, incRestErr m))
      | Inr payload \<Rightarrow>
          (case FromREST now payload of
             Inl e \<Rightarrow> (writeErr 400 ''validation failed'' e, (s, incRestErr m))
           | Inr ev \<Rightarrow>
               (case publishEvents pub topic (r_ctx r) [ev] s of
                  (Some e, s') \<Rightarrow> (writeErr 502 ''publish failed'' e, (s', incRestErr m))
                | (None, s') \<Rightarrow>
                    (\<lparr>w_Status = 201, w_ContentType = Some ''application/json'',
                      w_Body = SuccessBody (ID ev) (Service ev)\<rparr>, (s', incRestOK m)))))"

text \<open>The limit of the OTLP body.\<close>

definition body_limit :: nat where
  "body_limit = 8 * 2 ^ 20"

text \<open>\<^verbatim>\<open>io.ReadAll(io.LimitReader(r.Body, 8<<20))\<close>: an error behind the limit is not met.\<close>

definition read_limited :: "request \<Rightarrow> bytes res" where
  "read_limited r =
     (if length (r_Body r) < body_limit then
        (case r_BodyErr r of Some e \<Rightarrow> Inl e | None \<Rightarrow> Inr (r_Body r))
      else Inr (take body_limit (r_Body r)))"

record decoders =
  protojson_Unmarshal :: "bytes \<Rightarrow> ExportLogsServiceRequest res"
  proto_Unmarshal :: "bytes \<Rightarrow> ExportLogsServiceRequest res"
  proto_sprint :: "AnyValue \<Rightarrow> string"

text \<open>The switch on the content type: the request, or the report of the decoder's error.\<close>

definition decode_otlp :: "decoders \<Rightarrow> request \<Rightarrow> bytes \<Rightarrow> (string \<times> err) + ExportLogsServiceRequest" where
  "decode_otlp d r body =
     (let ct = ToLower (Header_Get (r_Header r) ''Content-Type'') in
      if Contains ct ''json'' then
        (case protojson_Unmarshal d body of
           Inl e \<Rightarrow> Inl (''invalid otlp json'', e) | Inr req \<Rightarrow> Inr req)
      else
        (case proto_Unmarshal d body of
           Inl e \<Rightarrow> Inl (''invalid otlp protobuf'', e) | Inr req \<Rightarrow> Inr req))"

definition status_only :: "nat \<Rightarrow> response" where
  "status_only code = \<lparr>w_Status = code, w_ContentType = None, w_Body = NoBody\<rparr>"

definition otlp_ServeHTTP ::
  "decoders \<Rightarrow> 's publish \<Rightarrow> string \<Rightarrow> (nat \<Rightarrow> gotime) \<Rightarrow> 's gw handler" where
  "otlp_ServeHTTP d pub topic now r st =
     (let (s, m) = st in
      case read_limited r of
        Inl e \<Rightarrow> (writeErr 400 ''read body failed'' e, (s, incOTLPErr m))
      | Inr body \<Rightarrow>
          (case decode_otlp d r body of
             Inl (msg, e) \<Rightarrow> (writeErr 400 msg e, (s, incOTLPErr m))
           | Inr req \<Rightarrow>
               (case LogEventsFromOTLP (proto_sprint d) now (Some req) of
                  Inl e \<Rightarrow> (writeErr 400 ''otlp mapping failed'' e, (s, incOTLPErr m))
                | Inr events \<Rightarrow>
                    if length events = 0 then (status_only 200, (s, incOTLPOK 0 m))
                    else (case publishEvents pub topic (r_ctx r) events s of
                        (Some e, s') \<Rightarrow> (writeErr 502 ''publish failed'' e, (s', incOTLPErr m))
                      | (None, s') \<Rightarrow>
                          (status_only 200, (s', incOTLPOK (of_nat (length events)) m))))))"

text \<open>The gRPC method: its error, if any, and the new state.\<close>

definition Export ::
  "decoders \<Rightarrow> 's publish \<Rightarrow> string \<Rightarrow> (nat \<Rightarrow> gotime) \<Rightarrow> (nat \<Rightarrow> ctx)
   \<Rightarrow> ExportLogsServiceRequest option \<Rightarrow> 's gw \<Rightarrow> err option \<times> 's gw" where
  "Export d pub topic now ctx req st =
     (let (s, m) = st in
      case LogEventsFromOTLP (proto_sprint d) now req of
        Inl e \<Rightarrow> (Some e, (s, incOTLPErr m))
      | Inr events \<Rightarrow>
          if length events = 0 then (None, (s, incOTLPOK 0 m))
          else (case publishEvents pub topic ctx events s of
              (Some e, s') \<Rightarrow> (Some (Wrap ''publish failed: %w'' [] e), (s', incOTLPErr m))
            | (None, s') \<Rightarrow> (None, (s', incOTLPOK (of_nat (length events)) m))))"

section \<open>Routes\<close>

text \<open>\<^verbatim>\<open>os.Getenv\<close> is a function from names to values, empty for a variable that is not set.\<close>

definition envOr :: "(string \<Rightarrow> string) \<Rightarrow> string \<Rightarrow> string \<Rightarrow> string" where
  "envOr env key fallback = (if env key \<noteq> [] then env key else fallback)"

record gateway_config =
  gc_addr :: string
  gc_otlpGRPCAddr :: string
  gc_brokers :: "string list"
  gc_topic :: string
  gc_clientID :: string
  gc_apiKey :: string
  gc_apiHeader :: string

definition gateway_config_of :: "(string \<Rightarrow> string) \<Rightarrow> gateway_config" where
  "gateway_config_of env =
     \<lparr>gc_addr = envOr env ''GATEWAY_ADDR'' '':8080'',
      gc_otlpGRPCAddr = envOr env ''GATEWAY_OTLP_GRPC_ADDR'' '':4317'',
      gc_brokers = Split (envOr env ''REDPANDA_BROKERS'' ''localhost:19092'') (CHR '',''),
      gc_topic = envOr env ''LOG_TOPIC'' DefaultTopic,
      gc_clientID = envOr env ''REDPANDA_CLIENT_ID'' ''apexio-gateway'',
      gc_apiKey = envOr env ''GATEWAY_API_KEY'' '''',
      gc_apiHeader = envOr env ''GATEWAY_API_KEY_HEADER'' ''X-API-Key''\<rparr>"

definition healthz :: "'s handler" where
  "healthz r s = (\<lparr>w_Status = 200, w_ContentType = None, w_Body = Text ''ok''\<rparr>, s)"

definition metrics_handler :: "'s gw handler" where
  "metrics_handler r st =
     (\<lparr>w_Status = 200, w_ContentType = Some ''text/plain; version=0.0.4'',
       w_Body = Text (metrics_text (snd st))\<rparr>, st)"

definition gateway_mux ::
  "decoders \<Rightarrow> 's publish \<Rightarrow> gateway_config \<Rightarrow> (nat \<Rightarrow> gotime) \<Rightarrow> 's gw handler" where
  "gateway_mux d pub cfg now =
     (let ingestMW = APIKey (gc_apiHeader cfg) (gc_apiKey cfg) in
      mux_dispatch
        [(''GET'', ''/healthz'', healthz),
         (''GET'', ''/metrics'', metrics_handler),
         (''POST'', ''/api/v1/log'', Chain (ingest_ServeHTTP pub (gc_topic cfg) (now 0)) [ingestMW]),
         (''POST'', ''/v1/logs'', Chain (otlp_ServeHTTP d pub (gc_topic cfg) now) [ingestMW])])"

section \<open>Start and stop\<close>

text \<open>
  \<open>startOTLPGRPC\<close>: no server for an empty address, else one if the address can be listened on;
  \<open>listen\<close> is the error of \<^verbatim>\<open>net.Listen\<close>.
\<close>

definition startOTLPGRPC :: "(string \<Rightarrow> err option) \<Rightarrow> string \<Rightarrow> bool res" where
  "startOTLPGRPC listen addr =
     (if addr = [] then Inr False
      else (case listen addr of Some e \<Rightarrow> Inl e | None \<Rightarrow> Inr True))"

record gateway =
  gw_cfg :: gateway_config
  gw_bus :: Redpanda
  gw_grpc :: bool

datatype 'a startup = Fatal string err | Started 'a

definition gateway_start :: "(string \<Rightarrow> err option) \<Rightarrow> (string \<Rightarrow> string) \<Rightarrow> gateway startup" where
  "gateway_start listen env =
     (let cfg = gateway_config_of env in
      case NewRedpanda \<lparr>cfg_Brokers = gc_brokers cfg, cfg_ClientID = gc_clientID cfg, cfg_GroupID = []\<rparr> of
        Inl e \<Rightarrow> Fatal ''broker'' e
      | Inr bus \<Rightarrow>
          (case startOTLPGRPC listen (gc_otlpGRPCAddr cfg) of
             Inl e \<Rightarrow> Fatal ''otlp grpc'' e
           | Inr grpc \<Rightarrow> Started \<lparr>gw_cfg = cfg, gw_bus = bus, gw_grpc = grpc\<rparr>))"

text \<open>
  \<open>main\<close>: the exit status and the broker's cluster. \<open>serve\<close> is the error, other than
  \<^verbatim>\<open>http.ErrServerClosed\<close>, that \<^verbatim>\<open>ListenAndServe\<close> returns before a signal arrives, if any; \<^verbatim>\<open>log.Fatalf\<close>
  exits at once and runs no deferred call.
\<close>

definition gateway_main ::
  "(string \<Rightarrow> err option) \<Rightarrow> ('k \<Rightarrow> err option \<times> 'k) \<Rightarrow> (string \<Rightarrow> string) \<Rightarrow> err option \<Rightarrow> 'k \<Rightarrow> nat \<times> 'k" where
  "gateway_main listen close env serve k =
     (case gateway_start listen env of
        Fatal msg e \<Rightarrow> (1, k)
      | Started g \<Rightarrow>
          (case serve of
             Some e \<Rightarrow> (1, k)
           | None \<Rightarrow> (0, snd (snd (rp_Close close (gw_bus g, k))))))"

end
