(* ===== verification/Go_Json_Facts.thy ===== *)
theory Go_Json_Facts
  imports Go_Json Go_Utf8
begin

text \<open>
  Lemmas on the JSON codec: a quoted string reads back as the string with invalid UTF-8 replaced,
  the fuel of the parser is always enough, and the text of an object reads back as its members.
\<close>

section \<open>Strings\<close>

text \<open>Bytes that a string literal holds as they are.\<close>

definition plain_byte :: "char \<Rightarrow> bool" where
  "plain_byte c \<longleftrightarrow> 32 \<le> byte c \<and> c \<noteq> DQUOTE \<and> c \<noteq> BSLASH"

lemma plain_high: "128 \<le> byte c \<Longrightarrow> plain_byte c"
  by (auto simp: plain_byte_def)

abbreviation keep :: "string \<Rightarrow> (string \<times> string) option \<Rightarrow> (string \<times> string) option" where
  "keep u \<equiv> map_option (\<lambda>(t, r). (u @ t, r))"

lemma map_option_keep: "keep u (keep v x) = keep (u @ v) x"
  by (cases x) auto

lemma lex_string_plain: "list_all plain_byte u \<Longrightarrow> lex_string (u @ s) = keep u (lex_string s)"
proof (induction u)
  case Nil
  then show ?case by (cases "lex_string s") auto
next
  case (Cons c u)
  then have "lex_string ((c # u) @ s) = map_option (\<lambda>(t, r). (c # t, r)) (keep u (lex_string s))"
    by (auto simp: plain_byte_def)
  then show ?case by (cases "lex_string s") auto
qed

lemma hex_digit_props:
  assumes "n < 16"
  shows "is_hex (hex_digit n)" and "hex_val (hex_digit n) = n"
proof -
  have "n < 10 \<or> (10 \<le> n \<and> n < 16)" using assms by auto
  then show "is_hex (hex_digit n)" "hex_val (hex_digit n) = n"
    by (auto simp: hex_digit_def is_hex_def is_digit_def lower_def ToLower_rune_def hex_val_def
        digit_val_def)
qed

lemma hex_consts [simp]:
  "is_hex (CHR ''0'')" "is_hex (CHR ''2'')" "is_hex (CHR ''f'')" "is_hex (CHR ''d'')"
  "hex_val (CHR ''0'') = 0" "hex_val (CHR ''2'') = 2" "hex_val (CHR ''f'') = 15" "hex_val (CHR ''d'') = 13"
  by (simp_all add: is_hex_def is_digit_def lower_def ToLower_rune_def hex_val_def digit_val_def)

lemma byte_quote [simp]: "byte c = 34 \<longleftrightarrow> c = DQUOTE" "byte c = 92 \<longleftrightarrow> c = BSLASH"
  by (auto intro: of_char_eqI)

text \<open>The forms that \<open>escape_rune\<close> gives a rune.\<close>

lemma escape_rune_cases:
  assumes "s \<noteq> []"
  obtains (copied) "list_all plain_byte (escape_rune s)" "escape_rune s = EncodeRune (fst (DecodeRune s))"
  | (short) e where "escape_rune s = [BSLASH, e]" "e \<in> {CHR ''b'', CHR ''f'', CHR ''n'', CHR ''r'', CHR ''t'', BSLASH, CHR ''/'', DQUOTE}"
      "[simple_escape e] = EncodeRune (fst (DecodeRune s))"
  | (long) h1 h2 h3 h4 where "escape_rune s = [BSLASH, CHR ''u'', h1, h2, h3, h4]"
      "list_all is_hex [h1, h2, h3, h4]" "digits_base 16 [h1, h2, h3, h4] = fst (DecodeRune s)"
  using assms
proof (cases rule: DecodeRune_cases)
  case (ascii a t)
  then have r: "escape_rune s = escape_ascii a" "EncodeRune (fst (DecodeRune s)) = [a]"
    by (simp_all add: escape_rune_def EncodeRune_def scalar_def)
  show ?thesis
  proof (cases "html_safe a")
    case True
    then show ?thesis
      using r copied by (auto simp: escape_ascii_def html_safe_def plain_byte_def)
  next
    case n1: False
    show ?thesis
    proof (cases "a = BSLASH \<or> a = DQUOTE \<or> byte a \<in> {8, 12, 10, 13, 9}")
      case True
      then show ?thesis
        using n1 r short [of "escape_ascii a ! 1"]
        by (elim disjE insertE; simp add: escape_ascii_def simple_escape_def html_safe_def char_of_eqI)
    next
      case False
      have "byte a div 16 < 16" "byte a mod 16 < 16" using ascii by auto
      then show ?thesis
        using False n1 r ascii long [of "CHR ''0''" "CHR ''0''" "hex_digit (byte a div 16)" "hex_digit (byte a mod 16)"]
        by (simp add: escape_ascii_def hex_digit_props digits_base_def)
    qed
  qed
next
  case (invalid a t)
  then show ?thesis
    using long [of "CHR ''f''" "CHR ''f''" "CHR ''f''" "CHR ''d''"]
    by (simp add: escape_rune_def digits_base_def RuneError_def)
next
  case (two a b t)
  then have "rune2 a b < 2048" by (auto simp: rune2_def cont_def)
  with two show ?thesis
    using copied EncodeRune_rune2 [of a b]
    by (auto simp: escape_rune_def cont_def plain_high)
next
  case (three a b c t)
  have b: "128 \<le> byte b" using cont_second three(4) by (auto simp: cont_def)
  show ?thesis
  proof (cases "rune3 a b c = 8232 \<or> rune3 a b c = 8233")
    case True
    then show ?thesis
      using three long [of "CHR ''2''" "CHR ''0''" "CHR ''2''" "hex_digit (rune3 a b c mod 16)"]
      by (elim disjE) (simp_all add: escape_rune_def hex_digit_props digits_base_def)
  next
    case False
    with three b show ?thesis
      using copied EncodeRune_rune3 [of a b c]
      by (auto simp: escape_rune_def cont_def plain_high)
  qed
next
  case (four a b c d t)
  have b: "128 \<le> byte b" using cont_second four(4) by (auto simp: cont_def)
  have "65536 \<le> rune4 a b c d"
    using four by (auto simp: rune4_def cont_def lo2_def split: if_splits)
  with four b show ?thesis
    using copied EncodeRune_rune4 [of a b c d]
    by (auto simp: escape_rune_def cont_def plain_high)
qed

lemma lex_escape_rune:
  assumes "s \<noteq> []"
  shows "lex_string (escape_rune s @ t) = keep (escape_rune s) (lex_string t)"
  using assms
proof (cases rule: escape_rune_cases)
  case copied
  then show ?thesis by (simp add: lex_string_plain)
next
  case (short e)
  then show ?thesis by (cases "lex_string t") auto
next
  case (long h1 h2 h3 h4)
  then show ?thesis by (cases "lex_string t") auto
qed

lemma lex_string_escape: "lex_string (escape_body s @ DQUOTE # r) = Some (escape_body s, r)"
proof (induction s rule: escape_body.induct)
  case (1 s)
  show ?case
  proof (cases "s = []")
    case True
    then show ?thesis by (simp add: escape_body.simps)
  next
    case False
    with 1 show ?thesis by (subst (1 2) escape_body.simps) (simp add: lex_escape_rune)
  qed
qed

lemma unquote_Nil [simp]: "unquote [] = []"
  by (simp add: unquote.simps)

lemma unquote_EncodeRune:
  assumes "scalar r" and "EncodeRune r \<noteq> [BSLASH]"
  shows "unquote (EncodeRune r @ t) = EncodeRune r @ unquote t"
proof -
  obtain c u where e: "EncodeRune r = c # u" by (cases "EncodeRune r") auto
  have "unquote_step (EncodeRune r @ t) = (EncodeRune r, length (EncodeRune r))"
  proof (cases "r < 128")
    case True
    with assms show ?thesis by (auto simp: EncodeRune_def unquote_step_def)
  next
    case False
    then have "128 \<le> byte c"
      using e assms(1) by (auto simp: EncodeRune_def scalar_def split: if_splits)
    moreover from this have "c \<noteq> BSLASH" by auto
    ultimately show ?thesis
      using DecodeRune_EncodeRune [OF assms(1), of t] e by (simp add: unquote_step_def)
  qed
  then show ?thesis by (subst unquote.simps) simp
qed

lemma unquote_escape_rune:
  assumes "s \<noteq> []"
  shows "unquote (escape_rune s @ t) = EncodeRune (fst (DecodeRune s)) @ unquote t"
  using assms
proof (cases rule: escape_rune_cases)
  case copied
  then have "EncodeRune (fst (DecodeRune s)) \<noteq> [BSLASH]"
    by (intro notI) (simp add: plain_byte_def)
  with copied show ?thesis
    using unquote_EncodeRune [of "fst (DecodeRune s)" t] scalar_DecodeRune [of s] by simp
next
  case (short e)
  then show ?thesis by (subst unquote.simps) (auto simp: unquote_step_def)
next
  case (long h1 h2 h3 h4)
  then have "getu4 ([BSLASH, CHR ''u'', h1, h2, h3, h4] @ t) = Some (fst (DecodeRune s))"
    by (simp add: getu4_def)
  moreover have "\<not> is_surrogate (fst (DecodeRune s))"
    using scalar_DecodeRune [of s] by (auto simp: scalar_def is_surrogate_def)
  ultimately show ?thesis
    using long by (subst unquote.simps) (simp add: unquote_step_def)
qed

lemma unquote_escape_body: "unquote (escape_body s) = coerce_utf8 s"
proof (induction s rule: escape_body.induct)
  case (1 s)
  show ?case
  proof (cases "s = []")
    case True
    then show ?thesis by (simp add: escape_body.simps coerce_utf8_def)
  next
    case False
    with 1 show ?thesis
      by (subst escape_body.simps) (simp add: unquote_escape_rune coerce_utf8_def runes.simps [of s])
  qed
qed

section \<open>Fuel\<close>

lemma length_skip_ws: "length (skip_ws s) \<le> length s"
  by (simp add: skip_ws_def length_dropWhile_le)

lemma skip_ws_Cons: "skip_ws s = c # r \<Longrightarrow> length r < length s"
  using length_skip_ws [of s] by simp

lemma lex_string_shorter: "lex_string s = Some (t, r) \<Longrightarrow> length r < length s"
proof (induction s arbitrary: t rule: lex_string.induct)
  case (2 c s)
  then show ?case
    by (force split: if_splits list.splits simp: less_Suc_eq_le intro: less_imp_le)
qed simp

lemma lex_digits_shorter: "lex_digits s = Some (t, r) \<Longrightarrow> length r < length s"
  by (cases s) (auto simp: lex_digits_def Let_def less_Suc_eq_le length_dropWhile_le split: if_splits)

lemma lex_int_shorter: "lex_int s = Some (t, r) \<Longrightarrow> length r < length s"
  by (auto simp: lex_int_def split: list.splits if_splits dest: lex_digits_shorter)

lemma lex_frac_shorter: "lex_frac s = Some (t, r) \<Longrightarrow> length r \<le> length s"
  by (fastforce simp: lex_frac_def split: list.splits if_splits dest: lex_digits_shorter)

lemma lex_exp_shorter: "lex_exp s = Some (t, r) \<Longrightarrow> length r \<le> length s"
  by (fastforce simp: lex_exp_def split: list.splits if_splits dest: lex_digits_shorter)

lemma lex_number_shorter: "lex_number s = Some (t, r) \<Longrightarrow> length r < length s"
  by (fastforce simp: lex_number_def split: list.splits if_splits option.splits
      dest: lex_int_shorter lex_frac_shorter lex_exp_shorter)

lemma HasPrefix_length: "HasPrefix s p \<Longrightarrow> length p \<le> length s"
  by (induction s p rule: HasPrefix.induct) auto

lemma length_tl_skip_ws: "length (tl (skip_ws s)) \<le> length s"
  using length_skip_ws [of s] by simp

text \<open>Every value, member list and element list consumes at least one byte.\<close>

lemma parse_shorter:
  "(\<forall>d s v r. parse_value n d s = Some (v, r) \<longrightarrow> length r < length s)
   \<and> (\<forall>d s ms r. parse_members n d s = Some (ms, r) \<longrightarrow> length r < length s)
   \<and> (\<forall>d s vs r. parse_elements n d s = Some (vs, r) \<longrightarrow> length r < length s)"
proof (induction n)
  case 0
  show ?case by simp
next
  case (Suc n)
  have V: "length r < length s" if p: "parse_value (Suc n) d s = Some (v, r)" for d s v r
  proof -
    obtain c t where ct: "skip_ws s = c # t" using p by (auto split: list.splits)
    show ?thesis
      using p Suc.IH ct skip_ws_Cons [OF ct] length_tl_skip_ws [of t]
        lex_string_shorter [of t] lex_number_shorter [of "c # t"]
      by (fastforce split: if_splits)
  qed
  have M: "length r < length s" if p: "parse_members (Suc n) d s = Some (ms, r)" for d s ms r
  proof -
    obtain c t where ct: "skip_ws s = c # t" using p by (auto split: list.splits)
    obtain k r1 where k: "lex_string t = Some (k, r1)"
      using p ct by (auto split: if_splits option.splits)
    obtain v r2 where v: "parse_value n d (tl (skip_ws r1)) = Some (v, r2)"
      using p ct k by (auto split: if_splits option.splits)
    obtain e r3 where e: "skip_ws r2 = e # r3"
      using p ct k v by (auto split: if_splits list.splits)
    have "length r \<le> length r3"
      using p ct k v e Suc.IH by (fastforce split: if_splits)
    then show ?thesis
      using skip_ws_Cons [OF ct] lex_string_shorter [OF k] length_tl_skip_ws [of r1]
        skip_ws_Cons [OF e] Suc.IH v by fastforce
  qed
  have E: "length r < length s" if p: "parse_elements (Suc n) d s = Some (vs, r)" for d s vs r
  proof -
    obtain v r2 where v: "parse_value n d s = Some (v, r2)"
      using p by (auto split: option.splits)
    obtain e r3 where e: "skip_ws r2 = e # r3"
      using p v by (auto split: list.splits)
    have "length r \<le> length r3"
      using p v e Suc.IH by (fastforce split: if_splits)
    then show ?thesis
      using skip_ws_Cons [OF e] Suc.IH v by fastforce
  qed
  from V M E show ?case by blast
qed

text \<open>
  More fuel changes nothing once there is more than two for every byte: the parser then never gives
  up for want of fuel.
\<close>

lemma parse_more_fuel:
  "(\<forall>d s. 2 * length s < n \<longrightarrow> parse_value (Suc n) d s = parse_value n d s)
   \<and> (\<forall>d s. 2 * length s < n \<longrightarrow> parse_members (Suc n) d s = parse_members n d s)
   \<and> (\<forall>d s. 2 * length s + 1 < n \<longrightarrow> parse_elements (Suc n) d s = parse_elements n d s)"
proof (induction n)
  case 0
  show ?case by simp
next
  case (Suc n)
  have V: "parse_value (Suc (Suc n)) d s = parse_value (Suc n) d s" if l: "2 * length s < Suc n" for d s
  proof (cases "skip_ws s")
    case (Cons c t)
    then have t: "2 * length t < n" "2 * length t + 1 < n"
      using l skip_ws_Cons [OF Cons] by simp_all
    then show ?thesis
      using Suc.IH Cons by (simp only: parse_value.simps list.case)
  qed simp
  have M: "parse_members (Suc (Suc n)) d s = parse_members (Suc n) d s" if l: "2 * length s < Suc n" for d s
  proof (cases "skip_ws s")
    case (Cons c t)
    show ?thesis
    proof (cases "lex_string t")
      case None
      with Cons show ?thesis by simp
    next
      case (Some kr)
      then obtain k r1 where k: "lex_string t = Some (k, r1)" by (cases kr) auto
      have r1: "2 * length (tl (skip_ws r1)) < n"
        using l skip_ws_Cons [OF Cons] lex_string_shorter [OF k] length_tl_skip_ws [of r1] by simp
      then have v: "parse_value (Suc n) d (tl (skip_ws r1)) = parse_value n d (tl (skip_ws r1))"
        using Suc.IH by blast
      have m: "parse_members (Suc n) d r3 = parse_members n d r3"
        if "parse_value n d (tl (skip_ws r1)) = Some (x, r2)" "skip_ws r2 = e # r3" for x r2 e r3
      proof -
        have "length r2 < length (tl (skip_ws r1))" "length r3 < length r2"
          using parse_shorter that skip_ws_Cons by blast+
        then show ?thesis using r1 Suc.IH by simp
      qed
      show ?thesis
        using Cons k v m
        by (simp only: parse_members.simps list.case option.case prod.case)
          (auto split: option.splits list.splits)
    qed
  qed simp
  have E: "parse_elements (Suc (Suc n)) d s = parse_elements (Suc n) d s" if l: "2 * length s + 1 < Suc n" for d s
  proof -
    have v: "parse_value (Suc n) d s = parse_value n d s"
      using Suc.IH l by simp
    have m: "parse_elements (Suc n) d r3 = parse_elements n d r3"
      if "parse_value n d s = Some (x, r2)" "skip_ws r2 = e # r3" for x r2 e r3
    proof -
      have "length r2 < length s" "length r3 < length r2"
        using parse_shorter that skip_ws_Cons by blast+
      then show ?thesis using l Suc.IH by simp
    qed
    show ?thesis
      using v m by (simp only: parse_elements.simps) (auto split: option.splits list.splits)
  qed
  from V M E show ?case by blast
qed

lemma parse_value_fuel:
  assumes "2 * length s < n" and "n \<le> m"
  shows "parse_value m d s = parse_value n d s"
  using assms(2)
proof (induction m rule: dec_induct)
  case (step m)
  with assms(1) parse_more_fuel [of m] show ?case by simp
qed simp

lemma parse_members_fuel:
  assumes "2 * length s < n" and "n \<le> m"
  shows "parse_members m d s = parse_members n d s"
  using assms(2)
proof (induction m rule: dec_induct)
  case (step m)
  with assms(1) parse_more_fuel [of m] show ?case by simp
qed simp

section \<open>Texts of values\<close>

text \<open>What may follow a value inside a text: nothing, or a byte that ends it.\<close>

definition delim :: "string \<Rightarrow> bool" where
  "delim rest \<longleftrightarrow> rest = [] \<or> hd rest = CHR '','' \<or> hd rest = CHR ''}''"

text \<open>\<open>t\<close> is a text of the value \<open>v\<close>, which nests \<open>k\<close> deep.\<close>

definition value_text :: "nat \<Rightarrow> string \<Rightarrow> json \<Rightarrow> bool" where
  "value_text k t v \<longleftrightarrow>
     (\<forall>n d rest. 2 * length t < n \<and> d + k \<le> maxNestingDepth \<and> delim rest \<longrightarrow>
        parse_value n d (t @ rest) = Some (v, rest))"

definition number_text :: "string \<Rightarrow> bool" where
  "number_text t \<longleftrightarrow>
     t \<noteq> [] \<and> (is_digit (hd t) \<or> hd t = CHR ''-'')
     \<and> (\<forall>rest. delim rest \<longrightarrow> lex_number (t @ rest) = Some (t, rest))"

lemma skip_ws_keep: "\<not> is_ws c \<Longrightarrow> skip_ws (c # s) = c # s"
  by (simp add: skip_ws_def)

lemma not_ws [simp]:
  "\<not> is_ws DQUOTE" "\<not> is_ws (CHR ''{'')" "\<not> is_ws (CHR ''}'')" "\<not> is_ws (CHR '','')"
  "\<not> is_ws (CHR '':'')" "\<not> is_ws (CHR ''-'')"
  by (simp_all add: is_ws_def)

lemma not_ws_digit: "is_digit c \<Longrightarrow> \<not> is_ws c"
  by (auto simp: is_ws_def is_digit_def)

lemma value_text_quote: "value_text 0 (quote s) (JStr (escape_body s))"
proof (unfold value_text_def, intro allI impI)
  fix n d rest
  assume a: "2 * length (quote s) < n \<and> d + 0 \<le> maxNestingDepth \<and> delim rest"
  then obtain m where n: "n = Suc m" by (cases n) auto
  show "parse_value n d (quote s @ rest) = Some (JStr (escape_body s), rest)"
    by (simp add: n quote_def skip_ws_keep lex_string_escape)
qed

lemma value_text_number:
  assumes "number_text t"
  shows "value_text 0 t (JNum t)"
proof (unfold value_text_def, intro allI impI)
  fix n d rest
  assume a: "2 * length t < n \<and> d + 0 \<le> maxNestingDepth \<and> delim rest"
  then obtain m where n: "n = Suc m" by (cases n) auto
  obtain c u where t: "t = c # u" "is_digit c \<or> c = CHR ''-''"
    using assms by (cases t) (auto simp: number_text_def)
  then have c: "c \<noteq> CHR ''{''" "c \<noteq> CHR ''[''" "c \<noteq> DQUOTE" "c \<noteq> CHR ''t''" "c \<noteq> CHR ''f''"
      "c \<noteq> CHR ''n''" "\<not> is_ws c"
    by (auto simp: is_digit_def is_ws_def)
  have "lex_number (t @ rest) = Some (t, rest)"
    using assms a by (simp add: number_text_def)
  with c t(1) show "parse_value n d (t @ rest) = Some (JNum t, rest)"
    by (simp add: n skip_ws_keep)
qed

lemma member_text_split: "member_text (k, t) @ s = DQUOTE # escape_body k @ DQUOTE # CHR '':'' # t @ s"
  by (simp add: member_text_def quote_def)

lemma parse_members_text:
  assumes "ms \<noteq> []" and "\<And>k t v. (k, t, v) \<in> set ms \<Longrightarrow> value_text j t v"
    and "d + j \<le> maxNestingDepth"
    and "2 * length (join '','' (map (\<lambda>(k, t, v). member_text (k, t)) ms)) < n"
  shows "parse_members n d (join '','' (map (\<lambda>(k, t, v). member_text (k, t)) ms) @ CHR ''}'' # rest)
    = Some (map (\<lambda>(k, t, v). (escape_body k, v)) ms, rest)"
  using assms
proof (induction ms arbitrary: n)
  case (Cons x ms)
  obtain k t v where x: "x = (k, t, v)" by (cases x)
  then have v: "value_text j t v" using Cons.prems by auto
  obtain m where n: "n = Suc m" using Cons.prems(4) by (cases n) auto
  have "length t + 1 \<le> length (join '','' (map (\<lambda>(k, t, v). member_text (k, t)) (x # ms)))"
    using x by (cases ms) (auto simp: member_text_def quote_def)
  then have "2 * length t < m" using Cons.prems(4) n by linarith
  then have pv: "parse_value m d (t @ r) = Some (v, r)" if "delim r" for r
    using v that Cons.prems(3) by (simp add: value_text_def)
  show ?case
  proof (cases ms)
    case Nil
    have "delim (CHR ''}'' # rest)" by (simp add: delim_def)
    from pv [OF this] show ?thesis
      using Nil x by (simp add: n member_text_split skip_ws_keep lex_string_escape)
  next
    case ys: (Cons y ys)
    let ?r = "join '','' (map (\<lambda>(k, t, v). member_text (k, t)) ms) @ CHR ''}'' # rest"
    have j: "join '','' (map (\<lambda>(k, t, v). member_text (k, t)) (x # ms)) @ CHR ''}'' # rest
        = member_text (k, t) @ CHR '','' # ?r"
      using ys x by simp
    have "2 * length (join '','' (map (\<lambda>(k, t, v). member_text (k, t)) ms)) < m"
      using Cons.prems(4) ys x n by simp
    then have "parse_members m d ?r = Some (map (\<lambda>(k, t, v). (escape_body k, v)) ms, rest)"
      by (intro Cons.IH) (use Cons.prems ys in auto)
    moreover have "delim (CHR '','' # ?r)" by (simp add: delim_def)
    ultimately show ?thesis
      using pv x unfolding j by (simp add: n member_text_split skip_ws_keep lex_string_escape)
  qed
qed simp

lemma value_text_object:
  assumes "\<And>k t v. (k, t, v) \<in> set ms \<Longrightarrow> value_text j t v"
  shows "value_text (j + 1) (object_text (map (\<lambda>(k, t, v). (k, t)) ms))
           (JObj (map (\<lambda>(k, t, v). (escape_body k, v)) ms))"
proof (unfold value_text_def, intro allI impI)
  fix n d rest
  let ?b = "join '','' (map (\<lambda>(k, t, v). member_text (k, t)) ms)"
  have m: "map member_text (map (\<lambda>(k, t, v). (k, t)) ms) = map (\<lambda>(k, t, v). member_text (k, t)) ms"
    by auto
  assume "2 * length (object_text (map (\<lambda>(k, t, v). (k, t)) ms)) < n \<and> d + (j + 1) \<le> maxNestingDepth \<and> delim rest"
  then have a: "2 * length ?b + 4 < n" "d + (j + 1) \<le> maxNestingDepth"
    by (simp_all add: object_text_def m del: map_map)
  then obtain n' where n: "n = Suc n'" "2 * length ?b < n'" by (cases n) auto
  show "parse_value n d (object_text (map (\<lambda>(k, t, v). (k, t)) ms) @ rest) =
      Some (JObj (map (\<lambda>(k, t, v). (escape_body k, v)) ms), rest)"
  proof (cases ms)
    case Nil
    with a n show ?thesis by (simp add: object_text_def skip_ws_keep)
  next
    case (Cons x xs)
    obtain k t v where x: "x = (k, t, v)" by (cases x)
    have "parse_members n' (d + 1) (?b @ CHR ''}'' # rest)
        = Some (map (\<lambda>(k, t, v). (escape_body k, v)) ms, rest)"
      using parse_members_text [of ms j "d + 1" n' rest] assms a n Cons by simp
    moreover have "\<exists>u. ?b = DQUOTE # u"
      using Cons x by (cases xs) (auto simp: member_text_def quote_def)
    then have "\<not> HasPrefix (skip_ws (?b @ CHR ''}'' # rest)) ''}''"
      by (auto simp: skip_ws_keep)
    ultimately show ?thesis
      using a by (simp add: n object_text_def m skip_ws_keep del: map_map)
  qed
qed

lemma delim_lex [simp]:
  assumes "delim rest"
  shows "lex_frac rest = Some ([], rest)" and "lex_exp rest = Some ([], rest)"
    and "takeWhile is_digit rest = []" and "dropWhile is_digit rest = rest"
  using assms by (cases rest; auto simp: delim_def lex_frac_def lex_exp_def is_digit_def)+

lemma takeWhile_digits:
  assumes "list_all is_digit ds" and "rest = [] \<or> \<not> is_digit (hd rest)"
  shows "takeWhile is_digit (ds @ rest) = ds" and "dropWhile is_digit (ds @ rest) = rest"
  using assms by (cases rest; auto simp: list_all_iff takeWhile_append dropWhile_append)+

lemma lex_digits_append:
  assumes "list_all is_digit ds" "ds \<noteq> []" and "rest = [] \<or> \<not> is_digit (hd rest)"
  shows "lex_digits (ds @ rest) = Some (ds, rest)"
  using takeWhile_digits [OF assms(1,3)] assms(2) by (simp add: lex_digits_def)

lemma hd_show_nat: "hd (show_nat n) = CHR ''0'' \<longleftrightarrow> n = 0"
proof (induction n rule: show_nat.induct)
  case (1 n)
  show ?case
  proof (cases "n < 10")
    case True
    then have "byte (digit_char n) = byte (CHR ''0'') \<longleftrightarrow> n = 0"
      by (simp add: digit_char_def)
    then have "digit_char n = CHR ''0'' \<longleftrightarrow> n = 0"
      by (simp only: of_char_eq_iff)
    with True show ?thesis by (subst show_nat.simps) simp
  next
    case False
    with 1 show ?thesis by (subst show_nat.simps) simp
  qed
qed

lemma lex_int_show_nat:
  assumes "rest = [] \<or> \<not> is_digit (hd rest)"
  shows "lex_int (show_nat n @ rest) = Some (show_nat n, rest)"
proof -
  obtain c u where s: "show_nat n = c # u" by (cases "show_nat n") auto
  show ?thesis
  proof (cases "c = CHR ''0''")
    case True
    with s hd_show_nat [of n] have "n = 0" by simp
    moreover have "show_nat 0 = ''0''" by (simp add: show_nat.simps digit_char_def char_of_eqI)
    ultimately show ?thesis by (simp add: lex_int_def)
  next
    case False
    with s show ?thesis
      using lex_digits_append [OF show_nat_digits [of n] _ assms] by (simp add: lex_int_def)
  qed
qed

lemma number_text_show_nat: "number_text (show_nat n)"
proof -
  have d: "is_digit (hd (show_nat n))"
    using show_nat_digits [of n] by (cases "show_nat n") (auto simp: list_all_iff)
  have "lex_number (show_nat n @ rest) = Some (show_nat n, rest)" if r: "delim rest" for rest
  proof -
    have "rest = [] \<or> \<not> is_digit (hd rest)" using r by (auto simp: delim_def is_digit_def)
    from lex_int_show_nat [OF this, of n] show ?thesis
      using d r by (cases "show_nat n") (auto simp: lex_number_def is_digit_def)
  qed
  with d show ?thesis by (simp add: number_text_def)
qed

text \<open>A text of a value, read as a whole document.\<close>

lemma parse_document_value_text:
  assumes "value_text k t v" and "k \<le> maxNestingDepth"
  shows "parse_document t = Inr v"
proof -
  have "parse_value (json_fuel t) 0 (t @ []) = Some (v, [])"
    using assms(1) [unfolded value_text_def, rule_format, of "json_fuel t" 0 "[]"] assms(2)
    by (simp add: json_fuel_def delim_def del: parse_value.simps)
  then show ?thesis by (simp add: parse_document_def skip_ws_def)
qed

lemma parse_prefix_value_text:
  assumes "value_text k t v" and "k \<le> maxNestingDepth"
  shows "parse_prefix t = Inr v"
proof -
  have "parse_value (json_fuel t) 0 (t @ []) = Some (v, [])"
    using assms(1) [unfolded value_text_def, rule_format, of "json_fuel t" 0 "[]"] assms(2)
    by (simp add: json_fuel_def delim_def del: parse_value.simps)
  then show ?thesis by (simp add: parse_prefix_def)
qed

end
