(* ===== verification/Go_Float_Facts.thy ===== *)
theory Go_Float_Facts
  imports Go_Float Go_Json_Facts
begin

text \<open>
  Lemmas on \<^verbatim>\<open>float64\<close> text: the magnitude of a finite pattern rounds to the pattern, so does the
  decimal that is printed for it, and the printed text is a JSON number that reads back as the
  pattern.
\<close>

section \<open>Powers and logarithms\<close>

lemma pow_int_powi: "pow_int b k = b powi k"
  by (simp add: pow_int_def power_int_def divide_inverse power_inverse)

lemma pow_int_pos [simp]: "0 < b \<Longrightarrow> 0 < pow_int b k"
  by (simp add: pow_int_powi)

lemma pow_int_nonzero [simp]: "0 < b \<Longrightarrow> pow_int b k \<noteq> 0"
  using pow_int_pos [of b k] by linarith

lemma pow_int_add: "b \<noteq> 0 \<Longrightarrow> pow_int b (j + k) = pow_int b j * pow_int b k"
  by (simp add: pow_int_powi power_int_add)

lemma pow_int_Suc: "b \<noteq> 0 \<Longrightarrow> pow_int b (k + 1) = b * pow_int b k"
  by (simp add: pow_int_powi power_int_add)

lemma pow_int_mono: "1 \<le> b \<Longrightarrow> j \<le> k \<Longrightarrow> pow_int b j \<le> pow_int b k"
  by (simp add: pow_int_powi power_int_increasing)

lemma pow_int_less: "1 < b \<Longrightarrow> pow_int b j < pow_int b k \<Longrightarrow> j < k"
  using pow_int_mono [of b k j] by (meson linorder_not_less nless_le order_trans)

lemma pow_int_nat [simp]: "pow_int b (int n) = b ^ n"
  by (simp add: pow_int_def)

lemma flog_bounds:
  assumes "2 \<le> b" and "0 < q"
  shows "pow_int (of_nat b) (flog b q) \<le> q \<and> q < pow_int (of_nat b) (flog b q + 1)"
  using assms
proof (induction b q rule: flog.induct)
  case (1 b q)
  have b: "(of_nat b :: rat) \<noteq> 0" "(0 :: rat) < of_nat b" using 1 by auto
  consider "of_nat b \<le> q" | "\<not> of_nat b \<le> q" "q < 1" | "\<not> of_nat b \<le> q" "1 \<le> q" by linarith
  then show ?case
  proof cases
    case 1
    then have l: "flog b q = flog b (q / of_nat b) + 1"
      using "1.prems" by (subst flog.simps) auto
    have "pow_int (of_nat b) (flog b (q / of_nat b)) \<le> q / of_nat b \<and>
        q / of_nat b < pow_int (of_nat b) (flog b (q / of_nat b) + 1)"
      using "1.IH"(1) 1 "1.prems" b by auto
    then have "of_nat b * pow_int (of_nat b) (flog b (q / of_nat b)) \<le> q \<and>
        q < of_nat b * pow_int (of_nat b) (flog b (q / of_nat b) + 1)"
      using b by (simp add: field_simps)
    then show ?thesis
      unfolding l pow_int_Suc [OF b(1)] .
  next
    case 2
    then have l: "flog b q = flog b (q * of_nat b) - 1"
      using "1.prems" by (subst flog.simps) auto
    have "pow_int (of_nat b) (flog b (q * of_nat b)) \<le> q * of_nat b \<and>
        q * of_nat b < pow_int (of_nat b) (flog b (q * of_nat b) + 1)"
      using "1.IH"(2) 2 "1.prems" b by auto
    then show ?thesis
      unfolding l using b pow_int_Suc [OF b(1), of "flog b (q * of_nat b) - 1"]
        pow_int_Suc [OF b(1), of "flog b (q * of_nat b)"] by (simp add: field_simps)
  next
    case 3
    then have l: "flog b q = 0"
      using "1.prems" by (subst flog.simps) auto
    show ?thesis using 3 unfolding l by (simp add: pow_int_def)
  qed
qed

lemma flog_unique:
  assumes "2 \<le> b" and "0 < q" and "pow_int (of_nat b) k \<le> q" and "q < pow_int (of_nat b) (k + 1)"
  shows "flog b q = k"
proof -
  have b: "(1 :: rat) < of_nat b" using assms(1) by auto
  note fb = flog_bounds [OF assms(1,2)]
  have "k < flog b q + 1" using fb assms(3) b pow_int_less by (meson le_less_trans)
  moreover have "flog b q < k + 1" using fb assms(4) b pow_int_less by (meson le_less_trans)
  ultimately show ?thesis by simp
qed

section \<open>Exact values round to themselves\<close>

lemma round_half_even_int [simp]: "round_half_even (of_int n) = n"
  by (simp add: round_half_even_def)

lemma round_half_even_nat [simp]: "round_half_even (of_nat n) = int n"
  using round_half_even_int [of "int n"] by simp

lemma round_half_even_cases: "round_half_even x = \<lfloor>x\<rfloor> \<or> round_half_even x = \<lfloor>x\<rfloor> + 1"
  by (simp add: round_half_even_def Let_def)

lemma round_bits_exact:
  assumes "0 < m" and "m < 2 ^ 53" and "2 ^ 52 \<le> m \<or> e = - 1074" and "- 1074 \<le> e"
  shows "round_bits (of_nat m * pow_int 2 e) = nat ((e + 1074) * 2 ^ 52 + int m)"
proof -
  let ?q = "of_nat m * pow_int 2 e :: rat"
  have q: "0 < ?q" using assms(1) by simp
  have p: "(0::rat) < pow_int 2 e" by simp
  have up: "?q < pow_int 2 (e + 53)"
  proof -
    have "(of_nat m :: rat) < 2 ^ 53" using assms(2) by (metis of_nat_less_iff of_nat_numeral of_nat_power)
    then show ?thesis
      using p pow_int_add [of 2 53 e] pow_int_nat [of 2 53] by (simp add: add.commute)
  qed
  have "max (- 1074) (flog 2 ?q - 52) = e"
  proof (cases "2 ^ 52 \<le> m")
    case True
    then have "(2 ^ 52 :: rat) \<le> of_nat m" by (metis of_nat_le_iff of_nat_numeral of_nat_power)
    then have "pow_int 2 (e + 52) \<le> ?q"
      using p pow_int_add [of 2 52 e] pow_int_nat [of 2 52] by (simp add: add.commute)
    with up have "flog 2 ?q = e + 52" using q by (intro flog_unique) (auto simp: add.assoc)
    with assms(4) show ?thesis by simp
  next
    case False
    then have e: "e = - 1074" "m < 2 ^ 52" using assms(3) by auto
    then have "(of_nat m :: rat) < 2 ^ 52" by (metis of_nat_less_iff of_nat_numeral of_nat_power)
    then have "?q < pow_int 2 (e + 52)"
      using p pow_int_add [of 2 52 e] pow_int_nat [of 2 52] by (simp add: add.commute)
    moreover have "pow_int 2 (flog 2 ?q) \<le> ?q"
      using flog_bounds [of 2 ?q] q by simp
    ultimately have "flog 2 ?q < e + 52"
      using pow_int_less [of 2 "flog 2 ?q" "e + 52"] by simp
    with e show ?thesis by simp
  qed
  moreover have "?q / pow_int 2 e = of_nat m" using p by simp
  ultimately show ?thesis
    using q by (simp add: round_bits_def Let_def)
qed

lemma unat_split: "unat (f :: float64) mod 2 ^ 63 = f_exp f * 2 ^ 52 + f_man f"
proof -
  have "unat f mod 2 ^ 63 = (unat f div 2 ^ 52 mod 2 ^ 11) * 2 ^ 52 + unat f mod 2 ^ 52"
    using mod_mult2_eq [of "unat f" "2 ^ 52" "2 ^ 11"] by simp
  then show ?thesis by (simp add: f_exp_def f_man_def)
qed

lemma f_man_less: "f_man f < 2 ^ 52"
  by (simp add: f_man_def)

text \<open>The magnitude of a finite pattern rounds to the pattern.\<close>

lemma round_bits_f_abs: "round_bits (f_abs f) = unat f mod 2 ^ 63"
proof (cases "f_exp f = 0")
  case True
  show ?thesis
  proof (cases "f_man f = 0")
    case True
    with \<open>f_exp f = 0\<close> show ?thesis
      using unat_split [of f] by (simp add: f_abs_def round_bits_def)
  next
    case False
    then have "round_bits (f_abs f) = nat ((- 1074 + 1074) * 2 ^ 52 + int (f_man f))"
      using True f_man_less [of f] round_bits_exact [of "f_man f" "- 1074"]
      by (simp add: f_abs_def)
    with True show ?thesis using unat_split [of f] by simp
  qed
next
  case False
  have "round_bits (of_nat (2 ^ 52 + f_man f) * pow_int 2 (int (f_exp f) - 1075))
      = nat ((int (f_exp f) - 1075 + 1074) * 2 ^ 52 + int (2 ^ 52 + f_man f))"
    using f_man_less [of f] False by (intro round_bits_exact) auto
  moreover have "(int (f_exp f) - 1075 + 1074) * 2 ^ 52 + int (2 ^ 52 + f_man f)
      = int (f_exp f * 2 ^ 52 + f_man f)"
    by (simp add: algebra_simps)
  ultimately show ?thesis
    using False by (simp only: f_abs_def unat_split if_False nat_int)
qed

section \<open>The shortest decimal\<close>

lemma round_half_even_nat_cases:
  assumes "0 \<le> x"
  shows "nat (round_half_even x) = nat \<lfloor>x\<rfloor> \<or> nat (round_half_even x) = nat \<lfloor>x\<rfloor> + 1"
proof -
  have "0 \<le> \<lfloor>x\<rfloor>" using assms by simp
  then show ?thesis using round_half_even_cases [of x] by linarith
qed

lemma candidate_sound:
  assumes "candidate b q dp n = Some d" and "0 \<le> q"
  shows "round_bits (decimal_val d) = b"
proof -
  let ?x = "q / pow_int 10 (dp - int n)"
  have "0 \<le> ?x" using assms(2) by (simp add: less_imp_le)
  from round_half_even_nat_cases [OF this] show ?thesis
    using assms(1) by (auto simp: candidate_def Let_def split: if_splits)
qed

lemma floor_near:
  fixes x :: rat
  assumes "1 \<le> x"
  shows "x / 2 \<le> of_int \<lfloor>x\<rfloor>" and "of_int \<lfloor>x\<rfloor> + 1 \<le> 2 * x"
proof -
  have "(1 :: rat) \<le> of_int \<lfloor>x\<rfloor>" using assms by simp
  moreover have "of_int \<lfloor>x\<rfloor> \<le> x" "x < of_int \<lfloor>x\<rfloor> + 1" using floor_correct [of x] by simp_all
  ultimately show "x / 2 \<le> of_int \<lfloor>x\<rfloor>" and "of_int \<lfloor>x\<rfloor> + 1 \<le> 2 * x" by linarith+
qed

lemma scale_near:
  fixes p q l :: rat
  assumes "0 < p" and "q / p / 2 \<le> l" and "l + 1 \<le> 2 * (q / p)" and "k = l \<or> k = l + 1"
  shows "q / 2 \<le> k * p \<and> k * p \<le> 2 * q"
proof -
  have "q / 2 \<le> l * p" "(l + 1) * p \<le> 2 * q" "l * p \<le> (l + 1) * p"
    using assms(1-3) by (simp_all add: field_simps)
  with assms(4) show ?thesis by auto
qed

lemma candidate_near:
  assumes "candidate b q dp n = Some d" and "pow_int 10 (dp - int n) \<le> q"
  shows "q / 2 \<le> decimal_val d \<and> decimal_val d \<le> 2 * q"
proof -
  let ?p = "pow_int 10 (dp - int n)"
  let ?x = "q / ?p"
  let ?l = "nat \<lfloor>?x\<rfloor>"
  have p: "0 < ?p" by simp
  then have x: "1 \<le> ?x" using assms(2) by (simp add: divide_simps)
  then have l: "1 \<le> \<lfloor>?x\<rfloor>" by simp
  have "0 \<le> ?x" using x by linarith
  from round_half_even_nat_cases [OF this] have d: "d = (?l, dp - int n) \<or> d = (?l + 1, dp - int n)"
    using assms(1) by (auto simp: candidate_def Let_def split: if_splits)
  have lr: "(of_nat ?l :: rat) = of_int \<lfloor>?x\<rfloor>"
    using order_trans [OF zero_le_one l] by (rule of_nat_nat)
  have b: "?x / 2 \<le> of_nat ?l" "of_nat ?l + 1 \<le> 2 * ?x"
    using floor_near [OF x] unfolding lr by simp_all
  obtain k where "d = (k, dp - int n)" "k = ?l \<or> k = ?l + 1" using d by auto
  moreover from this have "(of_nat k :: rat) = of_nat ?l \<or> (of_nat k :: rat) = of_nat ?l + 1"
    by (metis of_nat_1 of_nat_add)
  ultimately show ?thesis
    using scale_near [OF p b] by (simp only: decimal_val_def fst_conv snd_conv)
qed

lemma shortest_from_Some:
  assumes "shortest_from fuel n b q dp = Some d"
  shows "\<exists>m \<ge> n. candidate b q dp m = Some d"
  using assms
proof (induction fuel arbitrary: n)
  case (Suc fuel)
  then show ?case
    by (cases "candidate b q dp n") (auto intro: exI [of _ n] dest: Suc_leD)
qed simp

lemma strip_zeros_val [simp]: "decimal_val (strip_zeros d p) = decimal_val (d, p)"
proof (induction d p rule: strip_zeros.induct)
  case (1 d p)
  show ?case
  proof (cases "d = 0 \<or> d mod 10 \<noteq> 0")
    case True
    then show ?thesis by (subst strip_zeros.simps) simp
  next
    case False
    then have "d = 10 * (d div 10)" by auto
    then have "(of_nat d :: rat) = 10 * of_nat (d div 10)"
      by (metis of_nat_mult of_nat_numeral)
    moreover have "pow_int 10 (p + 1) = 10 * pow_int 10 p" by (simp add: pow_int_Suc)
    ultimately have "decimal_val (d div 10, p + 1) = decimal_val (d, p)"
      by (simp add: decimal_val_def)
    with 1 False show ?thesis by (subst strip_zeros.simps) simp
  qed
qed

lemma exact_decimal_val: "decimal_val (exact_decimal f) = f_abs f"
proof -
  define m where "m = (if f_exp f = 0 then f_man f else 2 ^ 52 + f_man f)"
  define e where "e = (if f_exp f = 0 then - 1074 else int (f_exp f) - 1075)"
  have d: "exact_decimal f = (if 0 \<le> e then (m * 2 ^ nat e, 0) else (m * 5 ^ nat (- e), e))"
    by (simp only: exact_decimal_def m_def e_def Let_def)
  have f: "f_abs f = of_nat m * pow_int 2 e"
    by (simp only: f_abs_def m_def e_def split: if_split) blast
  show ?thesis
  proof (cases "0 \<le> e")
    case True
    then show ?thesis unfolding d f by (simp add: decimal_val_def pow_int_def)
  next
    case False
    have "(10 :: rat) ^ nat (- e) = 2 ^ nat (- e) * 5 ^ nat (- e)"
      by (simp flip: power_mult_distrib)
    with False show ?thesis unfolding d f by (simp add: decimal_val_def pow_int_def)
  qed
qed

lemma f_abs_nonneg: "0 \<le> f_abs f"
  by (simp add: f_abs_def less_imp_le)

text \<open>The shortest decimal rounds to the pattern it was made from, and is of its magnitude.\<close>

lemma shortest_rounds: "round_bits (decimal_val (shortest f)) = unat f mod 2 ^ 63"
  using shortest_from_Some candidate_sound f_abs_nonneg [of f] exact_decimal_val [of f]
    round_bits_f_abs [of f]
  by (fastforce simp: shortest_def Let_def split: option.splits)

lemma shortest_near:
  assumes "0 < f_abs f"
  shows "f_abs f / 2 \<le> decimal_val (shortest f) \<and> decimal_val (shortest f) \<le> 2 * f_abs f"
proof (cases "shortest_from 17 1 (unat f mod 2 ^ 63) (f_abs f) (flog 10 (f_abs f) + 1)")
  case None
  with assms exact_decimal_val [of f] show ?thesis by (simp add: shortest_def Let_def)
next
  case (Some d)
  then obtain n where n: "1 \<le> n" "candidate (unat f mod 2 ^ 63) (f_abs f) (flog 10 (f_abs f) + 1) n = Some d"
    using shortest_from_Some by blast
  have "pow_int 10 (flog 10 (f_abs f) + 1 - int n) \<le> pow_int 10 (flog 10 (f_abs f))"
    using n(1) by (intro pow_int_mono) auto
  also have "\<dots> \<le> f_abs f" using flog_bounds [of 10 "f_abs f"] assms by simp
  finally show ?thesis
    using candidate_near [OF n(2)] Some by (simp add: shortest_def Let_def)
qed

section \<open>Numerals\<close>

lemma is_digit_neq:
  assumes "is_digit c"
  shows "c \<noteq> CHR ''_''" "c \<noteq> CHR ''.''" "c \<noteq> CHR ''e''" "c \<noteq> CHR ''E''" "c \<noteq> CHR ''-''"
    "c \<noteq> CHR ''+''" "c \<noteq> CHR ''x''" "c \<noteq> CHR ''X''" "c \<noteq> CHR ''i''" "c \<noteq> CHR ''n''"
  using assms by (auto simp: is_digit_def)

lemma lower_digit [simp]: "is_digit c \<Longrightarrow> lower c = c"
  by (simp add: lower_def is_digit_def ToLower_rune_def)

lemma hex_val_digit: "is_digit c \<Longrightarrow> hex_val c = digit_val c"
  by (simp add: hex_val_def)

lemma digits_base_10:
  assumes "list_all is_digit ds"
  shows "digits_base 10 ds = digits_val ds"
proof -
  have "foldl (\<lambda>n c. 10 * n + hex_val c) a ds = foldl (\<lambda>n c. 10 * n + digit_val c) a ds" for a
    using assms by (induction ds arbitrary: a) (auto simp: hex_val_digit)
  then show ?thesis by (simp add: digits_base_def digits_val_def)
qed

lemma digits_val_append: "digits_val (a @ b) = digits_val a * 10 ^ length b + digits_val b"
proof (induction b rule: rev_induct)
  case (snoc c b)
  have "digits_val (a @ b @ [c]) = 10 * digits_val (a @ b) + digit_val c"
    using digits_val_append_digit [of "a @ b" c] by simp
  with snoc show ?case by (simp add: digits_val_append_digit)
qed (simp add: digits_val_def)

lemma digits_val_zeros [simp]: "digits_val (replicate n (CHR ''0'')) = 0"
proof (induction n)
  case (Suc n)
  then show ?case
    using digits_val_append [of "[CHR ''0'']" "replicate n (CHR ''0'')"]
    by (simp add: digits_val_def digit_val_def)
qed (simp add: digits_val_def)

lemma digits_zeros [simp]: "list_all is_digit (replicate n (CHR ''0''))"
  by (simp add: list_all_iff is_digit_def)

lemma mantissa_digits:
  assumes "list_all is_digit ds" and "mantissa is_digit dot r = (xs, n, r')"
  shows "mantissa is_digit dot (ds @ r) = (ds @ xs, n + (if dot then length ds else 0), r')"
  using assms(1)
proof (induction ds)
  case (Cons c ds)
  then show ?case by (auto simp: is_digit_neq)
qed (use assms(2) in simp)

text \<open>
  A numeral of integer digits \<open>i\<close>, fraction digits \<open>fd\<close> and an exponent part \<open>x\<close> of value \<open>e\<close>.
\<close>

definition numeral_parts :: "string \<Rightarrow> string \<Rightarrow> string \<Rightarrow> int \<Rightarrow> bool" where
  "numeral_parts i fd x e \<longleftrightarrow>
     list_all is_digit i \<and> i \<noteq> [] \<and> (i = ''0'' \<or> hd i \<noteq> CHR ''0'') \<and> list_all is_digit fd
     \<and> ((x = [] \<and> e = 0)
        \<or> (\<exists>s xd. x = CHR ''e'' # s # xd \<and> (s = CHR ''+'' \<or> s = CHR ''-'') \<and> xd \<noteq> []
              \<and> list_all is_digit xd \<and> e = (if s = CHR ''-'' then - int (exp_val xd) else int (exp_val xd))))"

definition numeral_text :: "bool \<Rightarrow> string \<Rightarrow> string \<Rightarrow> string \<Rightarrow> string" where
  "numeral_text neg i fd x =
     (if neg then ''-'' else '''') @ i @ (if fd = [] then [] else CHR ''.'' # fd) @ x"

lemma exponent_digits:
  assumes "xd \<noteq> []" and "list_all is_digit xd" and "s = CHR ''+'' \<or> s = CHR ''-''"
  shows "exponent (s # xd) = Some (if s = CHR ''-'' then - int (exp_val xd) else int (exp_val xd))"
proof -
  have "filter is_digit xd = xd" using assms(2) by (simp add: list_all_iff)
  moreover have "list_all (\<lambda>c. is_digit c \<or> c = CHR ''_'') xd" using assms(2) by (auto simp: list_all_iff)
  ultimately show ?thesis
    using assms by (cases xd) (auto simp: exponent_def strip_sign_def)
qed

lemma numeral_mantissa:
  assumes "numeral_parts i fd x e"
  shows "mantissa is_digit False (numeral_text False i fd x) = (i @ fd, length fd, x)"
proof -
  have stop: "mantissa is_digit dot x = ([], 0, x)" for dot
    using assms by (auto simp: numeral_parts_def is_digit_def)
  have i: "list_all is_digit i" and fd: "list_all is_digit fd"
    using assms by (auto simp: numeral_parts_def)
  show ?thesis
  proof (cases "fd = []")
    case True
    with mantissa_digits [OF i stop] show ?thesis by (simp add: numeral_text_def)
  next
    case False
    have "mantissa is_digit False (CHR ''.'' # fd @ x) = (fd, length fd, x)"
      using mantissa_digits [OF fd stop, of True] by simp
    from mantissa_digits [OF i this] False show ?thesis by (simp add: numeral_text_def)
  qed
qed

lemma digits_no_underscore: "list_all is_digit ds \<Longrightarrow> CHR ''_'' \<notin> set ds"
  using is_digit_neq(1) by (auto simp: list_all_iff)

lemma numeral_no_underscore:
  assumes "numeral_parts i fd x e"
  shows "CHR ''_'' \<notin> set (numeral_text neg i fd x)"
  using assms by (auto simp: numeral_parts_def numeral_text_def dest: digits_no_underscore)

lemma numeral_head:
  assumes "numeral_parts i fd x e"
  obtains c t where "numeral_text False i fd x = c # t" "is_digit c" "t = [] \<or> hd t \<noteq> CHR ''x'' \<and> hd t \<noteq> CHR ''X''"
proof -
  obtain c u where i: "i = c # u" using assms by (cases i) (auto simp: numeral_parts_def)
  let ?t = "u @ (if fd = [] then [] else CHR ''.'' # fd) @ x"
  have "numeral_text False i fd x = c # ?t" "is_digit c"
    using assms i by (auto simp: numeral_parts_def numeral_text_def)
  moreover have "?t = [] \<or> hd ?t \<noteq> CHR ''x'' \<and> hd ?t \<noteq> CHR ''X''"
  proof (cases u)
    case Nil
    then show ?thesis using assms by (auto simp: numeral_parts_def)
  next
    case (Cons a v)
    then have "is_digit a" using assms i by (simp add: numeral_parts_def)
    with Cons show ?thesis by (simp add: is_digit_neq)
  qed
  ultimately show ?thesis using that by blast
qed

lemma numeral_text_neg: "numeral_text neg i fd x = (if neg then ''-'' else '''') @ numeral_text False i fd x"
  by (simp add: numeral_text_def)

lemma numeral_strip_sign:
  assumes "numeral_parts i fd x e"
  shows "strip_sign (numeral_text neg i fd x) = (neg, numeral_text False i fd x)"
proof -
  obtain c t where "numeral_text False i fd x = c # t" "is_digit c"
    using numeral_head [OF assms] by metis
  then show ?thesis
    by (subst numeral_text_neg) (auto simp: strip_sign_def is_digit_neq)
qed

lemma read_numeral:
  assumes "numeral_parts i fd x e"
  shows "read_float (numeral_text neg i fd x) =
     Some (neg, of_nat (digits_val (i @ fd)) * pow_int 10 (e - int (length fd)))"
proof -
  obtain c t where h: "numeral_text False i fd x = c # t" "t = [] \<or> hd t \<noteq> CHR ''x'' \<and> hd t \<noteq> CHR ''X''"
    using numeral_head [OF assms] by metis
  have hex: "\<not> hex_prefix (numeral_text False i fd x)"
    unfolding h(1) using h(2) by (cases t) (auto simp: hex_prefix_def)
  have d: "digits_base 10 (i @ fd) = digits_val (i @ fd)" "i @ fd \<noteq> []"
    using assms by (auto simp: numeral_parts_def intro!: digits_base_10)
  have x: "(x = [] \<and> e = 0) \<or> (\<exists>x'. x = CHR ''e'' # x' \<and> exponent x' = Some e)"
    using assms exponent_digits by (fastforce simp: numeral_parts_def)
  have low: "lower (CHR ''e'') = CHR ''e''"
    by (simp add: lower_def ToLower_rune_def char_of_eqI)
  show ?thesis
    using x d numeral_no_underscore [OF assms, of neg]
    by (auto simp: read_float_def numeral_strip_sign [OF assms] hex numeral_mantissa [OF assms] low)
qed

lemma ParseFloat_numeral:
  assumes "numeral_parts i fd x e"
  shows "ParseFloat (numeral_text neg i fd x) =
     round_float neg (of_nat (digits_val (i @ fd)) * pow_int 10 (e - int (length fd)))"
proof -
  obtain c t where h: "numeral_text False i fd x = c # t" "is_digit c"
    using numeral_head [OF assms] by metis
  have low: "lower (CHR ''-'') = CHR ''-''"
    by (simp add: lower_def ToLower_rune_def char_of_eqI)
  have "\<not> equal_fold (numeral_text False i fd x) ''inf''" "\<not> equal_fold (numeral_text False i fd x) ''infinity''"
    "\<not> equal_fold (numeral_text neg i fd x) ''nan''"
    using h is_digit_neq [OF h(2)] numeral_text_neg [of neg i fd x] low by (auto simp: equal_fold_def)
  then show ?thesis
    by (simp add: ParseFloat_def numeral_strip_sign [OF assms] read_numeral [OF assms])
qed

lemma numeral_lex:
  assumes n: "numeral_parts i fd x e" and r: "delim rest"
  shows "lex_number (numeral_text neg i fd x @ rest) = Some (numeral_text neg i fd x, rest)"
proof -
  let ?f = "if fd = [] then [] else CHR ''.'' # fd"
  have i: "list_all is_digit i" "i \<noteq> []" and fd: "list_all is_digit fd"
    using n by (auto simp: numeral_parts_def)
  have rest: "rest = [] \<or> \<not> is_digit (hd rest)" using r by (auto simp: delim_def is_digit_def)
  have ex: "lex_exp (x @ rest) = Some (x, rest)"
  proof (cases "x = []")
    case False
    then obtain s xd where x: "x = CHR ''e'' # s # xd" "s = CHR ''+'' \<or> s = CHR ''-''" "xd \<noteq> []" "list_all is_digit xd"
      using n by (auto simp: numeral_parts_def)
    then show ?thesis
      using lex_digits_append [OF x(4,3) rest] by (auto simp: lex_exp_def)
  qed (use r in simp)
  have xh: "x @ rest = [] \<or> \<not> is_digit (hd (x @ rest)) \<and> hd (x @ rest) \<noteq> CHR ''.''"
    using n r by (auto simp: numeral_parts_def delim_def is_digit_def)
  have fr: "lex_frac (?f @ x @ rest) = Some (?f, x @ rest)"
  proof (cases "fd = []")
    case True
    with xh show ?thesis by (cases "x @ rest") (auto simp: lex_frac_def)
  next
    case False
    with lex_digits_append [OF fd False, of "x @ rest"] xh show ?thesis by (auto simp: lex_frac_def)
  qed
  have fh: "?f @ x @ rest = [] \<or> \<not> is_digit (hd (?f @ x @ rest))"
    using xh by (auto simp: is_digit_def)
  have int: "lex_int (i @ ?f @ x @ rest) = Some (i, ?f @ x @ rest)"
  proof (cases "i = ''0''")
    case True
    then show ?thesis by (simp add: lex_int_def)
  next
    case False
    then have "hd i \<noteq> CHR ''0''" using n by (simp add: numeral_parts_def)
    with lex_digits_append [OF i fh] i(2) show ?thesis by (cases i) (auto simp: lex_int_def)
  qed
  obtain c u where c: "i = c # u" "c \<noteq> CHR ''-''"
    using i by (cases i) (auto simp: is_digit_neq)
  have "(case i @ ?f @ x @ rest of c # r \<Rightarrow> if c = CHR ''-'' then ([c], r) else ([], i @ ?f @ x @ rest)
      | [] \<Rightarrow> ([], i @ ?f @ x @ rest)) = ([], i @ ?f @ x @ rest)"
    using c by simp
  then show ?thesis
    by (cases neg) (simp_all add: lex_number_def numeral_text_def int fr ex)
qed

lemma number_text_numeral:
  assumes "numeral_parts i fd x e"
  shows "number_text (numeral_text neg i fd x)"
proof -
  obtain c t where "numeral_text False i fd x = c # t" "is_digit c"
    using numeral_head [OF assms] by metis
  then have "numeral_text neg i fd x \<noteq> []" "is_digit (hd (numeral_text neg i fd x)) \<or> hd (numeral_text neg i fd x) = CHR ''-''"
    using numeral_text_neg [of neg i fd x] by auto
  with numeral_lex [OF assms] show ?thesis by (simp add: number_text_def)
qed

section \<open>Layouts\<close>

lemma length_show_nat_pos: "0 < length (show_nat d)"
  by simp

lemma numeral_zero [simp]: "numeral_parts ''0'' [] [] 0"
  by (simp add: numeral_parts_def is_digit_def)

lemma digits_val_zero_Cons [simp]: "digits_val (CHR ''0'' # s) = digits_val s"
  by (simp add: digits_val_def digit_val_def)

lemma layout_f_numeral:
  "\<exists>i fd. numeral_parts i fd [] 0 \<and> layout_f d p = numeral_text False i fd []
     \<and> of_nat (digits_val (i @ fd)) * pow_int 10 (0 - int (length fd)) = decimal_val (d, p)"
proof (cases "d = 0")
  case True
  then show ?thesis
    by (intro exI [of _ "''0''"] exI [of _ "[]"])
      (simp add: layout_f_def numeral_text_def decimal_val_def digits_val_def digit_val_def)
next
  case False
  let ?ds = "show_nat d" and ?dp = "int (length (show_nat d)) + p"
  have ds: "list_all is_digit ?ds" "?ds \<noteq> []" "hd ?ds \<noteq> CHR ''0''" "digits_val ?ds = d"
    using False by (simp_all add: show_nat_digits hd_show_nat)
  consider "0 \<le> p" | "p < 0" "0 < ?dp" | "p < 0" "?dp \<le> 0" by linarith
  then show ?thesis
  proof cases
    case 1
    have "numeral_parts (?ds @ replicate (nat p) (CHR ''0'')) [] [] 0"
      using ds by (simp add: numeral_parts_def)
    moreover have "layout_f d p = numeral_text False (?ds @ replicate (nat p) (CHR ''0'')) [] []"
      using 1 False by (simp add: layout_f_def Let_def numeral_text_def)
    moreover have "of_nat (digits_val (?ds @ replicate (nat p) (CHR ''0''))) = decimal_val (d, p)"
      using 1 by (simp add: digits_val_append decimal_val_def pow_int_def)
    ultimately show ?thesis
      by (intro exI [of _ "?ds @ replicate (nat p) (CHR ''0'')"] exI [of _ "[]"]) (simp add: pow_int_def)
  next
    case 2
    let ?i = "take (nat ?dp) ?ds" and ?f = "drop (nat ?dp) ?ds"
    have i: "?i \<noteq> []" "hd ?i = hd ?ds" using 2 ds(2) by (simp_all add: hd_take)
    have "nat ?dp < length ?ds" using 2 by linarith
    then have f: "?f \<noteq> []" "int (length ?f) = - p" using 2 by auto
    have "numeral_parts ?i ?f [] 0"
      using ds i by (auto simp: numeral_parts_def list_all_iff dest: in_set_takeD in_set_dropD)
    moreover have "layout_f d p = numeral_text False ?i ?f []"
      using 2 False f by (simp add: layout_f_def Let_def numeral_text_def)
    moreover have "?i @ ?f = ?ds" by simp
    ultimately show ?thesis
      using f(2) by (intro exI [of _ ?i] exI [of _ ?f]) (simp add: decimal_val_def)
  next
    case 3
    let ?f = "replicate (nat (- ?dp)) (CHR ''0'') @ ?ds"
    have "numeral_parts ''0'' ?f [] 0"
      using ds by (simp add: numeral_parts_def is_digit_def)
    moreover have "layout_f d p = numeral_text False ''0'' ?f []"
      using 3 False by (simp add: layout_f_def Let_def numeral_text_def)
    moreover have "digits_val (''0'' @ ?f) = d"
      by (simp add: digits_val_append)
    moreover have "int (length ?f) = - p" using 3 by simp
    ultimately show ?thesis
      by (intro exI [of _ "''0''"] exI [of _ ?f]) (simp add: decimal_val_def)
  qed
qed

lemma exp_val_show_nat:
  assumes "n < 10000"
  shows "exp_val (show_nat n) = n" "exp_val (CHR ''0'' # show_nat n) = n"
proof -
  have e: "exp_val ds = digits_val ds" if "digits_val ds < 10000" for ds
    using that
  proof (induction ds rule: rev_induct)
    case (snoc c ds)
    then show ?case by (simp add: exp_val_def digits_val_append_digit)
  qed (simp add: exp_val_def digits_val_def)
  show "exp_val (show_nat n) = n" "exp_val (CHR ''0'' # show_nat n) = n"
    using assms e [of "show_nat n"] e [of "CHR ''0'' # show_nat n"]
    by simp_all
qed

lemma fix_exp_numeral:
  assumes "list_all is_digit xd" and "2 \<le> length xd" and "s = CHR ''+'' \<or> s = CHR ''-''"
  shows "\<exists>xd'. fix_exp (u @ CHR ''e'' # s # xd) = u @ CHR ''e'' # s # xd' \<and> xd' \<noteq> []
     \<and> list_all is_digit xd' \<and> exp_val xd' = exp_val xd"
proof -
  obtain a b ys where xd: "xd = a # b # ys"
    using assms(2) by (cases xd; cases "tl xd") auto
  show ?thesis
  proof (cases ys)
    case Nil
    have "exp_val [CHR ''0'', b] = exp_val [b]" by (simp add: exp_val_def digit_val_def)
    then show ?thesis
      using assms xd Nil
      by (auto simp: fix_exp_def Let_def nth_append nth_Cons' intro!: exI [of _ "[b]"] exI [of _ "[a, b]"])
  next
    case (Cons c zs)
    let ?t = "u @ CHR ''e'' # s # xd"
    have "?t ! (length ?t - 4) = (s # xd) ! length zs"
      using xd Cons by (simp add: nth_append)
    moreover have "(s # xd) ! length zs \<in> set (s # xd)"
      using xd Cons by (intro nth_mem) simp
    moreover have "CHR ''e'' \<notin> set (s # xd)"
      using assms(1,3) is_digit_neq(3) by (auto simp: list_all_iff)
    ultimately have "?t ! (length ?t - 4) \<noteq> CHR ''e''" by metis
    then have "fix_exp ?t = ?t" by (simp add: fix_exp_def Let_def)
    with assms xd show ?thesis by (intro exI [of _ xd]) simp
  qed
qed

abbreviation sign_of :: "bool \<Rightarrow> string" where
  "sign_of neg \<equiv> (if neg then ''-'' else '''')"

lemma layout_e_numeral:
  assumes "d \<noteq> 0" and e: "e = int (length (show_nat d)) + p - 1" and "\<bar>e\<bar> < 10000"
  shows "\<exists>i fd x. numeral_parts i fd x e \<and> fix_exp (sign_of neg @ layout_e d p) = numeral_text neg i fd x
     \<and> of_nat (digits_val (i @ fd)) * pow_int 10 (e - int (length fd)) = decimal_val (d, p)"
proof -
  let ?ds = "show_nat d" and ?n = "nat \<bar>e\<bar>"
  let ?i = "take 1 ?ds" and ?fd = "drop 1 ?ds"
  define s where "s = (if e < 0 then CHR ''-'' else CHR ''+'')"
  have sg: "s = CHR ''+'' \<or> s = CHR ''-''" by (simp add: s_def)
  define xd where "xd = (if \<bar>e\<bar> < 10 then ''0'' else []) @ show_nat ?n"
  define u where "u = sign_of neg @ ?i @ (if ?fd = [] then [] else CHR ''.'' # ?fd)"
  have ds: "list_all is_digit ?ds" "?ds \<noteq> []" "hd ?ds \<noteq> CHR ''0''" "digits_val ?ds = d"
    using assms(1) by (simp_all add: show_nat_digits hd_show_nat)
  have n: "?n < 10000" using assms(3) by simp
  have long: "2 \<le> length (show_nat ?n)" if "\<not> \<bar>e\<bar> < 10"
  proof -
    have "\<not> ?n < 10" using that by linarith
    then show ?thesis
      using length_show_nat_pos [of "?n div 10"] by (subst show_nat.simps) (simp add: Suc_le_eq)
  qed
  have xd: "list_all is_digit xd" "2 \<le> length xd" "exp_val xd = ?n"
    using n long length_show_nat_pos [of ?n] exp_val_show_nat [OF n]
    by (auto simp: xd_def show_nat_digits is_digit_def Suc_le_eq)
  have fd: "?fd = [] \<longleftrightarrow> \<not> 1 < length ?ds"
    by auto
  have layout: "sign_of neg @ layout_e d p = u @ CHR ''e'' # s # xd"
    using assms(1) fd
    by (simp add: layout_e_def exp_text_def s_def xd_def u_def Let_def e)
  obtain xd' where xd': "xd' \<noteq> []" "list_all is_digit xd'" "exp_val xd' = ?n"
    and fx: "fix_exp (u @ CHR ''e'' # s # xd) = u @ CHR ''e'' # s # xd'"
    using fix_exp_numeral [OF xd(1,2) sg, of u] xd(3) by auto
  have i: "?i \<noteq> []" "hd ?i = hd ?ds" using ds(2) by (simp_all add: hd_take)
  have parts: "numeral_parts ?i ?fd (CHR ''e'' # s # xd') e"
    using ds i xd' by (auto simp: numeral_parts_def s_def list_all_iff dest: in_set_takeD in_set_dropD)
  have "fix_exp (sign_of neg @ layout_e d p) = numeral_text neg ?i ?fd (CHR ''e'' # s # xd')"
    unfolding layout fx by (simp add: numeral_text_def u_def)
  moreover have "e - int (length ?fd) = p"
    using e ds(2) by (cases ?ds) auto
  ultimately show ?thesis
    using parts ds(4)
    by (intro exI [of _ ?i] exI [of _ ?fd] exI [of _ "CHR ''e'' # s # xd'"]) (simp add: decimal_val_def)
qed

section \<open>Reading back\<close>

lemma show_nat_bounds:
  assumes "d \<noteq> 0"
  shows "10 ^ (length (show_nat d) - 1) \<le> d \<and> d < 10 ^ length (show_nat d)"
  using assms
proof (induction d rule: show_nat.induct)
  case (1 d)
  show ?case
  proof (cases "d < 10")
    case True
    with 1 show ?thesis by (subst (1 2) show_nat.simps) simp
  next
    case False
    let ?n = "length (show_nat (d div 10))"
    have len: "length (show_nat d) = ?n + 1" using False by (subst show_nat.simps) simp
    have ih: "10 ^ (?n - 1) \<le> d div 10" "d div 10 < 10 ^ ?n" using 1 False by auto
    have "(10::nat) * 10 ^ (?n - 1) = 10 ^ ?n"
      using length_show_nat_pos [of "d div 10"] by (cases ?n) auto
    then have "10 ^ ?n \<le> 10 * (d div 10)" "d < 10 * 10 ^ ?n" using ih by linarith+
    then show ?thesis unfolding len by simp
  qed
qed

text \<open>The decimal exponent of \<open>d * 10 ^ p\<close>, and a bound on it for a finite pattern.\<close>

lemma decimal_exponent:
  assumes "d \<noteq> 0"
  shows "pow_int 10 (int (length (show_nat d)) + p - 1) \<le> decimal_val (d, p)"
    and "decimal_val (d, p) < pow_int 10 (int (length (show_nat d)) + p)"
proof -
  let ?n = "length (show_nat d)"
  have n: "int ?n - 1 = int (?n - 1)" by (cases ?n) auto
  have b: "(10 :: rat) ^ (?n - 1) \<le> of_nat d" "of_nat d < (10 :: rat) ^ ?n"
    using show_nat_bounds [OF assms] by (metis of_nat_le_iff of_nat_numeral of_nat_power,
        metis of_nat_less_iff of_nat_numeral of_nat_power)
  have p: "0 < pow_int 10 p" by simp
  have "pow_int 10 (int ?n + p - 1) = 10 ^ (?n - 1) * pow_int 10 p"
  proof -
    have e: "int ?n + p - 1 = int (?n - 1) + p" using n by linarith
    show ?thesis unfolding e by (simp only: pow_int_add [of 10] pow_int_nat)
  qed
  with b(1) p show "pow_int 10 (int ?n + p - 1) \<le> decimal_val (d, p)"
    by (simp add: decimal_val_def)
  have "pow_int 10 (int ?n + p) = 10 ^ ?n * pow_int 10 p"
    using pow_int_add [of 10 "int ?n" p] pow_int_nat [of 10 ?n] by simp
  with b(2) p show "decimal_val (d, p) < pow_int 10 (int ?n + p)"
    by (simp add: decimal_val_def)
qed

lemma pow_2_10: "pow_int 2 (int k) \<le> pow_int 10 (int k)" "pow_int 10 (- int k) \<le> pow_int 2 (- int k)"
proof -
  have "(2 :: rat) ^ k \<le> 10 ^ k" by (intro power_mono) auto
  then show "pow_int 2 (int k) \<le> pow_int 10 (int k)" "pow_int 10 (- int k) \<le> pow_int 2 (- int k)"
    by (simp_all add: pow_int_powi power_int_minus divide_simps)
qed

lemma f_abs_bounds:
  assumes "f_finite f" and "f_abs f \<noteq> 0"
  shows "pow_int 2 (- 1074) \<le> f_abs f" and "f_abs f < pow_int 2 1024"
proof -
  define m where "m = (if f_exp f = 0 then f_man f else 2 ^ 52 + f_man f)"
  define e where "e = (if f_exp f = 0 then - 1074 else int (f_exp f) - 1075)"
  have f: "f_abs f = of_nat m * pow_int 2 e"
    by (simp only: f_abs_def m_def e_def split: if_split) blast
  have "f_exp f < 2048" by (simp add: f_exp_def)
  then have e: "- 1074 \<le> e" "e \<le> 971" using assms(1) by (auto simp: e_def f_finite_def)
  have m: "1 \<le> m" "m < 2 ^ 53"
    using assms(2) f_man_less [of f] by (auto simp: f m_def)
  have p: "0 < pow_int 2 e" by simp
  have "pow_int 2 (- 1074) \<le> 1 * pow_int 2 e" using pow_int_mono [of 2 "- 1074" e] e by simp
  also have "\<dots> \<le> f_abs f" unfolding f using m(1) by (intro mult_right_mono) (simp_all add: less_imp_le)
  finally show "pow_int 2 (- 1074) \<le> f_abs f" .
  have "(of_nat m :: rat) < 2 ^ 53" using m(2) by (metis of_nat_less_iff of_nat_numeral of_nat_power)
  then have "f_abs f < 2 ^ 53 * pow_int 2 e" unfolding f using p by simp
  also have "\<dots> \<le> 2 ^ 53 * pow_int 2 971" using pow_int_mono [of 2 e 971] e by simp
  also have "\<dots> = pow_int 2 1024" using pow_int_add [of 2 53 971] pow_int_nat [of 2 53] by simp
  finally show "f_abs f < pow_int 2 1024" .
qed

lemma shortest_exponent:
  assumes f: "f_finite f" "f_abs f \<noteq> 0" and d: "shortest f = (d, p)"
  shows "d \<noteq> 0" and "\<bar>int (length (show_nat d)) + p - 1\<bar> < 10000"
proof -
  let ?e = "int (length (show_nat d)) + p - 1"
  have q: "0 < f_abs f" using f(2) f_abs_nonneg [of f] by simp
  note near = shortest_near [OF q, unfolded d]
  have "decimal_val (0, p) = 0" by (simp add: decimal_val_def)
  then show "d \<noteq> 0" using near q by (intro notI) simp
  note de = decimal_exponent [OF this, of p]
  have "pow_int 10 ?e \<le> 2 * f_abs f" using de(1) near by simp
  also have "\<dots> < 2 * pow_int 2 1024" using f_abs_bounds(2) [OF f] by simp
  also have "\<dots> = pow_int 2 1025" using pow_int_Suc [of 2 1024] by simp
  also have "\<dots> \<le> pow_int 10 1025" using pow_2_10(1) [of 1025] by simp
  finally have "?e < 1025" by (rule pow_int_less [rotated]) simp
  moreover have "- 1075 < ?e + 1"
  proof (rule pow_int_less)
    have "pow_int 10 (- 1075) \<le> pow_int 2 (- 1075)" using pow_2_10(2) [of 1075] by simp
    also have "\<dots> = pow_int 2 (- 1074) / 2" using pow_int_Suc [of 2 "- 1075"] by simp
    also have "\<dots> \<le> f_abs f / 2" using f_abs_bounds(1) [OF f] by simp
    also have "\<dots> < pow_int 10 (?e + 1)" using de(2) near by simp
    finally show "pow_int 10 (- 1075) < pow_int 10 (?e + 1)" .
  qed simp
  ultimately show "\<bar>?e\<bar> < 10000" by linarith
qed

lemma f_bits_split: "f_bits (f_neg f) (unat f mod 2 ^ 63) = f"
proof -
  have u: "unat f < 2 ^ 64" using unsigned_less [of f] by simp
  then have "(if f_neg f then 2 ^ 63 + unat f mod 2 ^ 63 else unat f mod 2 ^ 63) = unat f"
    by (auto simp: f_neg_def mod_if)
  then show ?thesis using u by (simp only: f_bits_def word_unat_eq_iff unat_of_nat) simp
qed

lemma round_float_shortest:
  assumes "f_finite f"
  shows "round_float (f_neg f) (decimal_val (shortest f)) = Some f"
proof -
  have "f_exp f * 2 ^ 52 + f_man f < 2047 * 2 ^ 52"
  proof -
    have "f_exp f < 2047" using assms by (simp add: f_finite_def f_exp_def less_Suc_eq)
    then have "f_exp f * 2 ^ 52 \<le> 2046 * 2 ^ 52" by simp
    with f_man_less [of f] show ?thesis by linarith
  qed
  then have "unat f mod 2 ^ 63 < 2047 * 2 ^ 52" by (simp only: unat_split)
  then show ?thesis
    by (simp only: round_float_def shortest_rounds f_bits_split Let_def if_True)
qed

text \<open>The text of a finite number is a JSON number that reads back as the same pattern.\<close>

lemma float_text_reads_back:
  assumes "f_finite f"
  obtains t where "float_text f = Inr t" "number_text t" "ParseFloat t = Some f"
proof -
  obtain d p where d: "shortest f = (d, p)" by (cases "shortest f")
  have sg: "sign_text f = sign_of (f_neg f)" by (simp add: sign_text_def)
  have fin: "\<not> IsNaN f" "\<not> IsInf f" using assms by (simp_all add: f_finite_def IsNaN_def IsInf_def)
  have rb: "round_float (f_neg f) (decimal_val (d, p)) = Some f"
    using round_float_shortest [OF assms] d by simp
  let ?e = "f_abs f \<noteq> 0 \<and> (f_abs f < f_abs 0x3EB0C6F7A0B5ED8D \<or> pow_int 10 21 \<le> f_abs f)"
  show thesis
  proof (cases ?e)
    case True
    note ex = shortest_exponent [OF assms _ d]
    obtain i fd x where n: "numeral_parts i fd x (int (length (show_nat d)) + p - 1)"
      "fix_exp (sign_of (f_neg f) @ layout_e d p) = numeral_text (f_neg f) i fd x"
      "of_nat (digits_val (i @ fd)) * pow_int 10 (int (length (show_nat d)) + p - 1 - int (length fd)) = decimal_val (d, p)"
      using layout_e_numeral [OF ex(1) refl ex(2), of "f_neg f"] True by blast
    show thesis
    proof (rule that)
      show "float_text f = Inr (numeral_text (f_neg f) i fd x)"
        unfolding float_text_def if_P [OF True] using assms fin n(2) d sg by (simp add: FormatFloat_e_def)
      show "ParseFloat (numeral_text (f_neg f) i fd x) = Some f"
        using ParseFloat_numeral [OF n(1)] n(3) rb by simp
    qed (rule number_text_numeral [OF n(1)])
  next
    case False
    obtain i fd where n: "numeral_parts i fd [] 0" "layout_f d p = numeral_text False i fd []"
      "of_nat (digits_val (i @ fd)) * pow_int 10 (0 - int (length fd)) = decimal_val (d, p)"
      using layout_f_numeral by blast
    show thesis
    proof (rule that)
      show "float_text f = Inr (numeral_text (f_neg f) i fd [])"
        unfolding float_text_def if_not_P [OF False] numeral_text_neg [of "f_neg f"]
        using assms fin n(2) d sg by (simp add: FormatFloat_f_def)
      show "ParseFloat (numeral_text (f_neg f) i fd []) = Some f"
        using ParseFloat_numeral [OF n(1)] n(3) rb by simp
    qed (rule number_text_numeral [OF n(1)])
  qed
qed

end
