(* ===== verification/Go_Time_Facts.thy ===== *)
theory Go_Time_Facts
  imports Go_Time Go_Float_Facts
begin

text \<open>
  Lemmas on \<^verbatim>\<open>time.Time\<close>: the calendar functions are inverse to each other, and the RFC 3339 text of
  a UTC time reads back as the time.
\<close>

section \<open>Calendar\<close>

lemma cut3:
  fixes x k :: int
  assumes "0 \<le> x" "x \<le> 4 * k" "0 < k"
  shows "0 \<le> min 3 (x div k)" "0 \<le> x - k * min 3 (x div k)" "x - k * min 3 (x div k) \<le> k"
    "x - k * min 3 (x div k) = k \<Longrightarrow> min 3 (x div k) = 3"
proof -
  have m: "x = k * (x div k) + x mod k" "0 \<le> x mod k" "x mod k < k" "0 \<le> x div k"
    using assms by (simp_all add: pos_imp_zdiv_nonneg_iff)
  show "0 \<le> min 3 (x div k)" using m(4) by simp
  have "0 \<le> x - k * min 3 (x div k) \<and> x - k * min 3 (x div k) \<le> k
      \<and> (x - k * min 3 (x div k) = k \<longrightarrow> min 3 (x div k) = 3)"
  proof (cases "3 \<le> x div k")
    case True
    then have "k * 3 \<le> k * (x div k)" using assms(3) by (intro mult_left_mono) auto
    then have "k * 3 \<le> x" using m by linarith
    with True assms show ?thesis by (simp add: min_absorb1)
  next
    case False
    then have mn: "min 3 (x div k) = x div k" by simp
    have md: "x - k * (x div k) = x mod k" using m(1) by linarith
    show ?thesis unfolding mn md using m by auto
  qed
  then show "0 \<le> x - k * min 3 (x div k)" "x - k * min 3 (x div k) \<le> k"
    "x - k * min 3 (x div k) = k \<Longrightarrow> min 3 (x div k) = 3"
    by blast+
qed

lemma mod_zero_bound: "0 < x \<Longrightarrow> x \<le> k \<Longrightarrow> x mod k = 0 \<longleftrightarrow> x = (k :: int)"
  by (cases "x = k") auto

text \<open>The parts that \<open>year_yday\<close> cuts a day number into.\<close>

lemma day_parts:
  fixes d :: int
  obtains a b c e r where "d = 146097 * a + 36524 * b + 1461 * c + 365 * e + r"
    "0 \<le> b" "b \<le> 3" "0 \<le> c" "c \<le> 24" "0 \<le> e" "e \<le> 3" "0 \<le> r" "r \<le> 365"
    "r = 365 \<Longrightarrow> e = 3 \<and> (c = 24 \<longrightarrow> b = 3)"
    "year_yday d = (400 * a + 100 * b + 4 * c + e + 1, r)"
proof -
  define a d1 where "a = d div 146097" and "d1 = d mod 146097"
  have d: "d = 146097 * a + d1" "0 \<le> d1" "d1 < 146097" by (simp_all add: a_def d1_def)
  define b d2 where "b = min 3 (d1 div 36524)" and "d2 = d1 - 36524 * b"
  have b1: "b \<le> 3" by (simp add: b_def)
  have b2: "d1 = 36524 * b + d2" by (simp add: d2_def)
  note b = cut3 [of d1 36524, folded b_def, folded d2_def, simplified, OF d(2)]
  define c d3 where "c = d2 div 1461" and "d3 = d2 mod 1461"
  have c1: "d2 = 1461 * c + d3" "0 \<le> d3" "d3 < 1461" by (simp_all add: c_def d3_def)
  have b3: "0 \<le> b" "0 \<le> d2" "d2 \<le> 36524" "d2 = 36524 \<Longrightarrow> b = 3" using b d(3) by simp_all
  have c2: "0 \<le> c" "c \<le> 24" using c1 b3(2,3) by linarith+
  define e r where "e = min 3 (d3 div 365)" and "r = d3 - 365 * e"
  have e1: "e \<le> 3" by (simp add: e_def)
  have e2: "d3 = 365 * e + r" by (simp add: r_def)
  have e3: "0 \<le> e" "0 \<le> r" "r \<le> 365" "r = 365 \<Longrightarrow> e = 3"
    using cut3 [of d3 365, folded e_def, folded r_def] c1(2,3) by simp_all
  have "e = 3 \<and> (c = 24 \<longrightarrow> b = 3)" if "r = 365"
  proof -
    have "e = 3" using e3(4) that by simp
    moreover from this have "d2 = 1461 * c + 1460" using c1(1) e2 that by simp
    ultimately show ?thesis using b3(4) by simp
  qed
  moreover have "year_yday d = (400 * a + 100 * b + 4 * c + e + 1, r)"
    by (simp only: year_yday_def Let_def a_def [symmetric] b_def [symmetric] c_def [symmetric]
        e_def [symmetric] d1_def [symmetric] d2_def [symmetric] d3_def [symmetric] r_def [symmetric])
  moreover have "d = 146097 * a + 36524 * b + 1461 * c + 365 * e + r"
    using d(1) b2 c1(1) e2 by linarith
  ultimately show thesis
    using that b1 b3(1) c2 e1 e3(1-3) by blast
qed

lemma year_parts:
  fixes a b c e :: int
  assumes "0 \<le> b" "b \<le> 3" "0 \<le> c" "c \<le> 24" "0 \<le> e" "e \<le> 3"
    and y: "y = 400 * a + 100 * b + 4 * c + e + 1"
  shows "days_before_year y = 146097 * a + 36524 * b + 1461 * c + 365 * e"
    and "isLeap y \<longleftrightarrow> e = 3 \<and> (c = 24 \<longrightarrow> b = 3)"
proof -
  let ?y0 = "y - 1"
  have r: "0 \<le> 100 * b + 4 * c + e" "100 * b + 4 * c + e < 400" "0 \<le> 4 * c + e" "4 * c + e < 100" "e < 4"
    using assms(1-6) by linarith+
  have y0: "?y0 = 400 * a + (100 * b + 4 * c + e)" "?y0 = 100 * (4 * a + b) + (4 * c + e)"
    "?y0 = 4 * (100 * a + 25 * b + c) + e"
    by (simp_all add: y)
  have "?y0 div 400 = a" "?y0 mod 400 = 100 * b + 4 * c + e"
    using int_div_pos_eq [OF y0(1) r(1,2)] int_mod_pos_eq [OF y0(1) r(1,2)] by simp_all
  moreover have "(100 * b + (4 * c + e)) div 100 = b" "(4 * c + e) div 4 = c"
    using int_div_pos_eq [OF refl r(3,4), of b] int_div_pos_eq [OF refl assms(5) r(5), of c] by simp_all
  moreover have "?y0 mod 100 = 4 * c + e" "?y0 mod 4 = e"
    using int_mod_pos_eq [OF y0(2) r(3,4)] int_mod_pos_eq [OF y0(3) assms(5) r(5)] by simp_all
  ultimately show "days_before_year y = 146097 * a + 36524 * b + 1461 * c + 365 * e"
    by (simp only: days_before_year_def Let_def add.assoc)
  have "y = (e + 1) + 4 * (100 * a + 25 * b + c)" "y = (4 * c + e + 1) + 100 * (4 * a + b)"
    "y = (100 * b + 4 * c + e + 1) + 400 * a"
    using y by simp_all
  then have "y mod 4 = (e + 1) mod 4" "y mod 100 = (4 * c + e + 1) mod 100"
    "y mod 400 = (100 * b + 4 * c + e + 1) mod 400"
    by (metis mod_mult_self2)+
  moreover have "(e + 1) mod 4 = 0 \<longleftrightarrow> e = 3"
    using assms(5,6) by (subst mod_zero_bound) auto
  moreover have "(4 * c + e + 1) mod 100 = 0 \<longleftrightarrow> c = 24 \<and> e = 3"
    using assms(3-6) by (cases "c = 24"; subst mod_zero_bound) auto
  moreover have "(100 * b + 4 * c + e + 1) mod 400 = 0 \<longleftrightarrow> b = 3 \<and> c = 24 \<and> e = 3"
    using assms(1-6) by (cases "b = 3"; cases "c = 24"; subst mod_zero_bound) auto
  ultimately have "y mod 4 = 0 \<longleftrightarrow> e = 3" "y mod 100 = 0 \<longleftrightarrow> c = 24 \<and> e = 3"
    "y mod 400 = 0 \<longleftrightarrow> b = 3 \<and> c = 24 \<and> e = 3"
    by simp_all
  then show "isLeap y \<longleftrightarrow> e = 3 \<and> (c = 24 \<longrightarrow> b = 3)"
    by (auto simp: isLeap_def)
qed

lemma year_yday_inverse:
  assumes "year_yday d = (y, r)"
  shows "days_before_year y + r = d" and "0 \<le> r" and "r < (if isLeap y then 366 else 365)"
proof -
  obtain a b c e where p: "d = 146097 * a + 36524 * b + 1461 * c + 365 * e + r"
    "0 \<le> b" "b \<le> 3" "0 \<le> c" "c \<le> 24" "0 \<le> e" "e \<le> 3" "0 \<le> r" "r \<le> 365"
    "r = 365 \<Longrightarrow> e = 3 \<and> (c = 24 \<longrightarrow> b = 3)" "y = 400 * a + 100 * b + 4 * c + e + 1"
    by (rule day_parts [of d]) (use assms in auto)
  note q = year_parts [OF p(2-7) p(11)]
  show "days_before_year y + r = d" using p(1) q(1) by simp
  show "0 \<le> r" by fact
  show "r < (if isLeap y then 366 else 365)" using p(8-10) q(2) by auto
qed

lemma month_day_parts:
  assumes "month_day ls m0 r = (m, d)" and "0 \<le> r" and "r < sum_list ls"
  shows "\<exists>k < length ls. m = m0 + int k \<and> 1 \<le> d \<and> d \<le> ls ! k \<and> sum_list (take k ls) + d - 1 = r"
  using assms
proof (induction ls arbitrary: m0 r)
  case (Cons l ls)
  show ?case
  proof (cases "r < l")
    case True
    with Cons.prems show ?thesis by (intro exI [of _ 0]) auto
  next
    case False
    with Cons.prems Cons.IH [of "m0 + 1" "r - l"] obtain k where
      "k < length ls" "m = m0 + 1 + int k" "1 \<le> d" "d \<le> ls ! k" "sum_list (take k ls) + d - 1 = r - l"
      by auto
    then show ?thesis by (intro exI [of _ "Suc k"]) auto
  qed
qed simp

lemma month_day_inverse:
  assumes "month_day (month_lengths leap) 1 r = (m, d)" and "0 \<le> r" and "r < (if leap then 366 else 365)"
  shows "days_before_month leap m + d - 1 = r" and "1 \<le> m" and "m \<le> 12" and "1 \<le> d"
    and "d \<le> month_lengths leap ! nat (m - 1)" and "d \<le> 31"
proof -
  have "r < sum_list (month_lengths leap)" using assms(3) by (simp add: month_lengths_def split: if_splits)
  from month_day_parts [OF assms(1,2) this] obtain k where
    k: "k < 12" "m = 1 + int k" "1 \<le> d" "d \<le> month_lengths leap ! k"
      "sum_list (take k (month_lengths leap)) + d - 1 = r"
    by (auto simp: month_lengths_def)
  have "\<forall>l \<in> set (month_lengths leap). l \<le> 31" by (simp add: month_lengths_def)
  moreover have "month_lengths leap ! k \<in> set (month_lengths leap)"
    using k(1) by (intro nth_mem) (simp add: month_lengths_def)
  ultimately have "month_lengths leap ! k \<le> 31" by blast
  with k show "days_before_month leap m + d - 1 = r" "1 \<le> m" "m \<le> 12" "1 \<le> d"
    "d \<le> month_lengths leap ! nat (m - 1)" "d \<le> 31"
    by (auto simp: days_before_month_def)
qed

lemma civil_inverse:
  assumes "civil n = (y, m, d)"
  shows "day_number y m d = n" and "1 \<le> m" and "m \<le> 12" and "1 \<le> d" and "d \<le> daysIn m y" and "d \<le> 31"
proof -
  obtain r where r: "year_yday n = (y, r)" "month_day (month_lengths (isLeap y)) 1 r = (m, d)"
    using assms by (auto simp: civil_def split: prod.splits)
  note y = year_yday_inverse [OF r(1)]
  note md = month_day_inverse [OF r(2) y(2,3)]
  show "day_number y m d = n" using y(1) md(1) by (simp add: day_number_def)
  show "1 \<le> m" "m \<le> 12" "1 \<le> d" "d \<le> daysIn m y" "d \<le> 31" using md by (auto simp: daysIn_def)
qed

section \<open>Digits of fixed width\<close>

lemma length_show_nat_le:
  assumes "n < 10 ^ w" and "0 < w"
  shows "length (show_nat n) \<le> w"
proof (cases "n = 0")
  case True
  then show ?thesis using assms(2) by (simp add: show_nat.simps)
next
  case False
  have "(10::nat) ^ (length (show_nat n) - 1) < 10 ^ w"
    using show_nat_bounds [OF False] assms(1) by linarith
  then have "length (show_nat n) - 1 < w" by (rule power_less_imp_less_exp [rotated]) simp
  then show ?thesis by linarith
qed

lemma pad_props:
  assumes "n < 10 ^ w" and "0 < w"
  shows "length (pad w n) = w" "list_all is_digit (pad w n)" "digits_val (pad w n) = n"
  using length_show_nat_le [OF assms]
  by (simp_all add: pad_def show_nat_digits digits_val_append)

lemma pad_2:
  assumes "n < 100"
  obtains a b where "pad 2 n = [a, b]" "is_digit a" "is_digit b" "10 * digit_val a + digit_val b = n"
proof -
  have p: "length (pad 2 n) = 2" "list_all is_digit (pad 2 n)" "digits_val (pad 2 n) = n"
    using pad_props [of n 2] assms by simp_all
  then obtain a b where "pad 2 n = [a, b]"
    by (auto simp: length_Suc_conv numeral_2_eq_2)
  with p show thesis by (intro that [of a b]) (simp_all add: digits_val_def)
qed

section \<open>Fields\<close>

lemma HasPrefix_append [simp]: "HasPrefix (p @ r) p"
  by (induction p) auto

lemma field_pad:
  assumes "lo \<le> x" "x \<le> hi" "0 \<le> x" "x < 100"
  shows "field fixed lo hi suffix (pad 2 (nat x) @ suffix @ r) = Some (x, r)"
proof -
  obtain a b where ab: "pad 2 (nat x) = [a, b]" "is_digit a" "is_digit b" "10 * digit_val a + digit_val b = nat x"
    by (rule pad_2 [of "nat x"]) (use assms in auto)
  then have "int (10 * digit_val a + digit_val b) = x" using assms(3) by simp
  then have "getnum fixed (pad 2 (nat x) @ suffix @ r) = Some (x, suffix @ r)"
    using ab by (simp add: getnum_def)
  with assms show ?thesis by (simp add: field_def)
qed

lemma year_field_pad:
  assumes "0 \<le> y" "y \<le> 9999"
  shows "year_field (pad_int 4 y @ CHR ''-'' # r) = Some (y, r)"
proof -
  have p: "length (pad 4 (nat y)) = 4" "list_all is_digit (pad 4 (nat y))" "digits_val (pad 4 (nat y)) = nat y"
    using pad_props [of "nat y" 4] assms by simp_all
  have "(pad 4 (nat y) @ CHR ''-'' # r) ! 4 = CHR ''-''" "drop 5 (pad 4 (nat y) @ CHR ''-'' # r) = r"
    using p(1) by (simp_all add: nth_append)
  with p assms show ?thesis by (simp add: year_field_def pad_int_def)
qed

lemma frac_split:
  assumes "0 < ns" "ns < 1000000000"
  obtains ds where "frac_text ns = CHR ''.'' # ds" "ds \<noteq> []" "list_all is_digit ds" "length ds \<le> 9"
    "digits_val ds * 10 ^ (9 - length ds) = ns"
proof -
  let ?p = "pad 9 ns"
  have p: "length ?p = 9" "list_all is_digit ?p" "digits_val ?p = ns"
    using pad_props [of ns 9] assms by simp_all
  define ds where "ds = rev (dropWhile (\<lambda>c. c = CHR ''0'') (rev ?p))"
  define zs where "zs = rev (takeWhile (\<lambda>c. c = CHR ''0'') (rev ?p))"
  have split: "?p = ds @ zs"
    unfolding ds_def zs_def by (metis rev_append rev_rev_ident takeWhile_dropWhile_id)
  have zs: "zs = replicate (length zs) (CHR ''0'')"
    unfolding zs_def by (intro replicate_eqI) (auto dest: set_takeWhileD)
  have v: "digits_val ds * 10 ^ length zs = ns"
    using p(3) digits_val_append [of ds zs] digits_val_zeros [of "length zs"] zs split by simp
  have len: "length zs = 9 - length ds" "length ds \<le> 9" using p(1) split by auto
  show thesis
  proof (rule that)
    show "frac_text ns = CHR ''.'' # ds" using assms by (simp add: frac_text_def ds_def)
    show "ds \<noteq> []" using v assms by (auto simp: digits_val_def)
    show "list_all is_digit ds" using p(2) split by simp
    show "digits_val ds * 10 ^ (9 - length ds) = ns" using v len by simp
  qed (rule len(2))
qed

lemma frac_field_text:
  assumes "ns < 1000000000"
  shows "frac_field (frac_text ns @ ''Z'') = (ns, ''Z'')"
proof (cases "ns = 0")
  case True
  then show ?thesis by (simp add: frac_text_def frac_field_def)
next
  case False
  then obtain ds where ds: "frac_text ns = CHR ''.'' # ds" "ds \<noteq> []" "list_all is_digit ds" "length ds \<le> 9"
    "digits_val ds * 10 ^ (9 - length ds) = ns"
    using frac_split [of ns] assms by blast
  obtain b r where b: "ds = b # r" using ds(2) by (cases ds) auto
  have z: "''Z'' = [] \<or> \<not> is_digit (hd ''Z'')" by (simp add: is_digit_def)
  have "takeWhile is_digit (b # r @ ''Z'') = ds" "dropWhile is_digit (b # r @ ''Z'') = ''Z''"
    using takeWhile_digits [OF ds(3) z] b by simp_all
  with ds b show ?thesis by (simp add: frac_field_def)
qed

section \<open>Reading back\<close>

text \<open>A UTC time of a year that the format has room for is written as a text that reads back as it.\<close>

lemma Parse_parts:
  assumes "0 \<le> y" "y \<le> 9999" "1 \<le> m" "m \<le> 12" "1 \<le> d" "d \<le> daysIn m y" "d \<le> 31"
    and "0 \<le> h" "h \<le> 23" "0 \<le> mi" "mi \<le> 59" "0 \<le> sc" "sc \<le> 59" and "ns < 1000000000"
  shows "Parse_RFC3339 (pad_int 4 y @ ''-'' @ pad 2 (nat m) @ ''-'' @ pad 2 (nat d) @ ''T''
      @ pad 2 (nat h) @ '':'' @ pad 2 (nat mi) @ '':'' @ pad 2 (nat sc) @ frac_text ns @ ''Z'') =
    Some \<lparr>t_sec = day_number y m d * 86400 + h * 3600 + mi * 60 + sc, t_nsec = ns, t_off = 0\<rparr>"
proof -
  define r6 where "r6 = frac_text ns @ ''Z''"
  define r5 where "r5 = pad 2 (nat sc) @ r6"
  define r4 where "r4 = pad 2 (nat mi) @ '':'' @ r5"
  define r3 where "r3 = pad 2 (nat h) @ '':'' @ r4"
  define r2 where "r2 = pad 2 (nat d) @ ''T'' @ r3"
  define r1 where "r1 = pad 2 (nat m) @ ''-'' @ r2"
  have g: "year_field (pad_int 4 y @ ''-'' @ r1) = Some (y, r1)"
    using year_field_pad [of y r1] assms by simp
  have g1: "field True 1 12 ''-'' r1 = Some (m, r2)"
    unfolding r1_def using assms by (intro field_pad) auto
  have g2: "field True 0 99 ''T'' r2 = Some (d, r3)"
    unfolding r2_def using assms by (intro field_pad) auto
  have g3: "field False 0 23 '':'' r3 = Some (h, r4)"
    unfolding r3_def using assms by (intro field_pad) auto
  have g4: "field True 0 59 '':'' r4 = Some (mi, r5)"
    unfolding r4_def using assms by (intro field_pad) auto
  have g5: "field True 0 59 [] r5 = Some (sc, r6)"
    unfolding r5_def using field_pad [of 0 sc 59 True "[]" r6] assms by simp
  have g6: "frac_field r6 = (ns, ''Z'')"
    unfolding r6_def using assms by (intro frac_field_text)
  have g7: "zone_field ''Z'' = Some 0" by (simp add: zone_field_def)
  have g8: "\<not> (d < 1 \<or> daysIn m y < d)" using assms by simp
  show ?thesis
    unfolding r6_def [symmetric] r5_def [symmetric] r4_def [symmetric] r3_def [symmetric]
      r2_def [symmetric] r1_def [symmetric]
    by (simp only: Parse_RFC3339_def g g1 g2 g3 g4 g5 g6 g7 g8 option.case prod.case Let_def if_False diff_0_right)
qed

lemma Parse_format:
  assumes off: "t_off t = 0" and ns: "time_wf t" and y: "0 \<le> year_of t" "year_of t \<le> 9999"
  shows "Parse_RFC3339 (format_RFC3339Nano t) = Some t"
proof -
  obtain y m d where c: "civil (t_sec t div 86400) = (y, m, d)" by (cases "civil (t_sec t div 86400)") auto
  define s where "s = t_sec t mod 86400"
  have s: "0 \<le> s" "s < 86400" by (simp_all add: s_def)
  have yy: "0 \<le> y" "y \<le> 9999" using y c off by (simp_all add: year_of_def)
  have h: "0 \<le> s div 3600" "s div 3600 \<le> 23" "0 \<le> s mod 3600 div 60" "s mod 3600 div 60 \<le> 59"
    "0 \<le> s mod 60" "s mod 60 \<le> 59"
    using s by auto
  have hms: "s div 3600 * 3600 + s mod 3600 div 60 * 60 + s mod 60 = s"
  proof -
    have "s mod 3600 mod 60 = s mod 60" by (simp add: mod_mod_cancel)
    then have "s mod 3600 = s mod 3600 div 60 * 60 + s mod 60" by (metis div_mult_mod_eq)
    moreover have "s = s div 3600 * 3600 + s mod 3600" by (metis div_mult_mod_eq)
    ultimately show ?thesis by linarith
  qed
  have f: "format_RFC3339Nano t = pad_int 4 y @ ''-'' @ pad 2 (nat m) @ ''-'' @ pad 2 (nat d) @ ''T''
      @ pad 2 (nat (s div 3600)) @ '':'' @ pad 2 (nat (s mod 3600 div 60)) @ '':''
      @ pad 2 (nat (s mod 60)) @ frac_text (t_nsec t) @ ''Z''"
    by (simp add: format_RFC3339Nano_def zone_text_def off c s_def Let_def)
  have "day_number y m d * 86400 + s = t_sec t"
    using civil_inverse(1) [OF c] by (simp add: s_def)
  then have sec: "day_number y m d * 86400 + s div 3600 * 3600 + s mod 3600 div 60 * 60 + s mod 60 = t_sec t"
    using hms by linarith
  have n: "t_nsec t < 1000000000" using ns by (simp only: time_wf_def)
  have "Parse_RFC3339 (format_RFC3339Nano t) = Some \<lparr>t_sec = t_sec t, t_nsec = t_nsec t, t_off = 0\<rparr>"
    unfolding f Parse_parts [OF yy civil_inverse(2-6) [OF c] h n] sec ..
  then show ?thesis using off by (cases t) simp
qed

text \<open>The text has only bytes that a JSON string holds as they are.\<close>

lemma plain_digit: "is_digit c \<Longrightarrow> plain_byte c"
  by (auto simp: plain_byte_def is_digit_def)

lemma plain_digits: "list_all is_digit ds \<Longrightarrow> list_all plain_byte ds"
  by (auto simp: list_all_iff plain_digit)

lemma plain_pad: "list_all plain_byte (pad w n)"
  by (intro plain_digits) (simp add: pad_def show_nat_digits)

lemma plain_frac: "list_all plain_byte (frac_text ns)"
proof -
  have "list_all plain_byte (rev (dropWhile P (rev (pad 9 ns))))" for P
    using plain_pad [of 9 ns] by (auto simp: list_all_iff dest: set_dropWhileD)
  then show ?thesis by (simp add: frac_text_def plain_byte_def)
qed

lemma plain_format: "list_all plain_byte (format_RFC3339Nano t)"
  by (simp add: format_RFC3339Nano_def pad_int_def zone_text_def plain_pad plain_frac plain_byte_def
      Let_def split: prod.split)

lemma value_text_plain:
  assumes "list_all plain_byte s"
  shows "value_text 0 (DQUOTE # s @ [DQUOTE]) (JStr s)"
proof (unfold value_text_def, intro allI impI)
  fix n d rest
  assume "2 * length (DQUOTE # s @ [DQUOTE]) < n \<and> d + 0 \<le> maxNestingDepth \<and> delim rest"
  then obtain m where n: "n = Suc m" by (cases n) auto
  show "parse_value n d ((DQUOTE # s @ [DQUOTE]) @ rest) = Some (JStr s, rest)"
    using lex_string_plain [OF assms, of "DQUOTE # rest"] by (simp add: n skip_ws_keep)
qed

end
