(* ===== verification/Schema_Wire.thy ===== *)
theory Schema_Wire
  imports Schema Go_Time_Facts Go_Case
begin

text \<open>
  The wire format of events: what \<open>json.Marshal\<close> writes for an event is read back by
  \<open>json.Unmarshal\<close> as the event, with invalid UTF-8 replaced.
\<close>

section \<open>Maps\<close>

lemma gm_put_all_self: "gm_wf m \<Longrightarrow> gm_put_all m gm_empty = m"
  by (rule gm.ext)
    (simp_all add: gm.wf_put_all gm.wf_empty gm.get_put_all_distinct gm_wf_distinct gm_get_def gm_empty_def
      fun_eq_iff map_add_def split: option.split)

section \<open>The event a message carries\<close>

text \<open>
  What the wire format keeps of an event: invalid UTF-8 in a string is replaced, an empty
  attribute map becomes nil.
\<close>

definition wire_attrs :: "gomap option \<Rightarrow> gomap option" where
  "wire_attrs a =
     (if entries a = [] then None
      else Some (gm_put_all (map (\<lambda>(k, v). (coerce_utf8 k, coerce_utf8 v)) (entries a)) gm_empty))"

definition wire_event :: "LogEvent \<Rightarrow> LogEvent" where
  "wire_event e =
     \<lparr>Timestamp = Timestamp e, ID = ID e, LogLevel = coerce_utf8 (LogLevel e),
      Message = coerce_utf8 (Message e), Service = coerce_utf8 (Service e), Host = coerce_utf8 (Host e),
      Environment = coerce_utf8 (Environment e), RequestID = coerce_utf8 (RequestID e),
      ClientIP = coerce_utf8 (ClientIP e), UserAgent = coerce_utf8 (UserAgent e),
      RequestMethod = coerce_utf8 (RequestMethod e), RequestPath = coerce_utf8 (RequestPath e),
      ResponseStatus = ResponseStatus e, ResponseDurationMs = ResponseDurationMs e,
      Attrs = wire_attrs (Attrs e)\<rparr>"

text \<open>The times and numbers that the wire format can carry.\<close>

definition wire_time :: "gotime \<Rightarrow> bool" where
  "wire_time t \<longleftrightarrow> t_off t = 0 \<and> time_wf t \<and> 0 \<le> year_of t \<and> year_of t \<le> 9999"

lemma value_text_mono: "value_text j t v \<Longrightarrow> j \<le> k \<Longrightarrow> value_text k t v"
  unfolding value_text_def by (meson add_left_mono order_trans)

lemma time_text:
  assumes "wire_time t"
  shows "time_MarshalJSON t = Inr (DQUOTE # format_RFC3339Nano t @ [DQUOTE])"
  using assms by (simp add: time_MarshalJSON_def wire_time_def)

lemma value_text_strmap:
  "value_text 1 (strmap_text m) (JObj (map (\<lambda>(k, v). (escape_body k, JStr (escape_body v))) m))"
proof -
  have "value_text (0 + 1)
      (object_text (map (\<lambda>(k, t, v). (k, t)) (map (\<lambda>(k, v). (k, quote v, JStr (escape_body v))) m)))
      (JObj (map (\<lambda>(k, t, v). (escape_body k, v)) (map (\<lambda>(k, v). (k, quote v, JStr (escape_body v))) m)))"
    by (rule value_text_object) (auto simp: value_text_quote)
  then show ?thesis
    by (simp add: strmap_text_def comp_def case_prod_unfold)
qed

lemma dec_entries_texts:
  "dec_entries m None (map (\<lambda>(k, v). (escape_body k, JStr (escape_body v))) es) =
     (gm_put_all (map (\<lambda>(k, v). (coerce_utf8 k, coerce_utf8 v)) es) m, None)"
proof (induction es arbitrary: m)
  case Nil
  show ?case by (simp add: gm_put_all_def)
next
  case (Cons x es)
  then show ?case
    by (cases x) (simp add: dec_string_def unquote_escape_body save_error_def gm_put_all_def)
qed

definition event_values :: "LogEvent \<Rightarrow> string \<Rightarrow> (string \<times> string \<times> json) list" where
  "event_values e dur =
     [(''timestamp'', DQUOTE # format_RFC3339Nano (Timestamp e) @ [DQUOTE], JStr (format_RFC3339Nano (Timestamp e))),
      (''id'', show_nat (unat (ID e)), JNum (show_nat (unat (ID e)))),
      (''log_level'', quote (LogLevel e), JStr (escape_body (LogLevel e))),
      (''message'', quote (Message e), JStr (escape_body (Message e))),
      (''service'', quote (Service e), JStr (escape_body (Service e))),
      (''host'', quote (Host e), JStr (escape_body (Host e))),
      (''environment'', quote (Environment e), JStr (escape_body (Environment e))),
      (''request_id'', quote (RequestID e), JStr (escape_body (RequestID e))),
      (''client_ip'', quote (ClientIP e), JStr (escape_body (ClientIP e))),
      (''user_agent'', quote (UserAgent e), JStr (escape_body (UserAgent e))),
      (''request_method'', quote (RequestMethod e), JStr (escape_body (RequestMethod e))),
      (''request_path'', quote (RequestPath e), JStr (escape_body (RequestPath e))),
      (''response_status'', show_nat (unat (ResponseStatus e)), JNum (show_nat (unat (ResponseStatus e)))),
      (''response_duration_ms'', dur, JNum dur)]
     @ (if entries (Attrs e) = [] then []
        else [(''attrs'', strmap_text (entries (Attrs e)),
               JObj (map (\<lambda>(k, v). (escape_body k, JStr (escape_body v))) (entries (Attrs e))))])"

lemma event_values_texts:
  assumes "number_text dur" and "(k, t, v) \<in> set (event_values e dur)"
  shows "value_text 1 t v"
proof -
  have q: "value_text 1 (quote s) (JStr (escape_body s))" for s
    using value_text_mono [OF value_text_quote] by simp
  have n: "value_text 1 t (JNum t)" if "number_text t" for t
    using value_text_mono [OF value_text_number [OF that]] by simp
  have p: "value_text 1 (DQUOTE # format_RFC3339Nano u @ [DQUOTE]) (JStr (format_RFC3339Nano u))" for u
    using value_text_mono [OF value_text_plain [OF plain_format]] by simp
  show ?thesis
    using assms(2) q p n [OF assms(1)] n [OF number_text_show_nat] value_text_strmap
    by (auto simp: event_values_def split: if_splits)
qed

lemma event_values_members:
  "map (\<lambda>(k, t, v). (k, t)) (event_values e dur) =
     event_members e (DQUOTE # format_RFC3339Nano (Timestamp e) @ [DQUOTE]) dur"
  by (simp add: event_values_def event_members_def)

lemma parse_event_text:
  assumes "number_text dur"
  shows "parse_document (object_text (event_members e (DQUOTE # format_RFC3339Nano (Timestamp e) @ [DQUOTE]) dur))
     = Inr (JObj (map (\<lambda>(k, t, v). (escape_body k, v)) (event_values e dur)))"
  using parse_document_value_text [OF value_text_object [of "event_values e dur" 1]]
    event_values_texts [OF assms]
  by (simp add: event_values_members maxNestingDepth_def)

lemma field_name:
  assumes "f \<in> set names" and "list_all is_ascii names"
  shows "match_field names (unquote (escape_body f)) = Some f"
proof -
  have "is_ascii f" using assms by (auto simp: list_all_iff)
  then have "unquote (escape_body f) = f"
    using valid_utf8_ascii by (simp add: unquote_escape_body valid_utf8_def)
  with assms(1) show ?thesis by (simp add: match_field_def)
qed

lemma fields_ascii:
  "list_all is_ascii event_fields" "list_all is_ascii payload_fields"
  "list_all is_ascii metadata_fields" "list_all is_ascii source_fields"
  by (simp_all add: event_fields_def payload_fields_def metadata_fields_def source_fields_def is_ascii_def)

lemma dec_event_members_field:
  assumes "f \<in> set event_fields" and "dec_event_field e f v = Inr (e', None)"
  shows "dec_event_members e None ((escape_body f, v) # ms) = dec_event_members e' None ms"
  using assms by (simp add: field_name fields_ascii save_error_def)

text \<open>A struct of the REST payload, member by member.\<close>

lemma dec_members_field:
  assumes "f \<in> set names" and "list_all is_ascii names" and "dec x f v = (x', None)"
  shows "dec_members names dec x None ((escape_body f, v) # ms) = dec_members names dec x' None ms"
  using assms by (simp add: field_name save_error_def)

lemma dec_uint_show_nat:
  fixes w old :: "'w::len word"
  assumes "2 ^ LENGTH('w) \<le> bound" and "bound \<le> 2 ^ 64"
  shows "dec_uint bound old (JNum (show_nat (unat w))) = (w, None)"
proof -
  have "unat w < 2 ^ LENGTH('w)" by (rule unsigned_less)
  then have "unat w < bound" "unat w < 2 ^ 64" using assms by linarith+
  then show ?thesis by (simp add: dec_uint_def)
qed

lemma dec_uint64_show_nat: "dec_uint64 old (JNum (show_nat (unat w))) = (w, None)"
  by (simp add: dec_uint64_def dec_uint_show_nat)

lemma dec_uint16_show_nat: "dec_uint16 old (JNum (show_nat (unat w))) = (w, None)"
  by (simp add: dec_uint16_def dec_uint_show_nat)

lemma dec_string_escape: "dec_string old (JStr (escape_body s)) = (coerce_utf8 s, None)"
  by (simp add: dec_string_def unquote_escape_body)

lemma dec_time_format:
  assumes "wire_time t"
  shows "dec_time old (JStr (format_RFC3339Nano t)) = Inr t"
  using assms by (simp add: dec_time_def Parse_format wire_time_def)

lemma dec_float_text: "ParseFloat dur = Some f \<Longrightarrow> dec_float old (JNum dur) = (f, None)"
  by (simp add: dec_float_def)

lemmas dec_values = dec_uint64_show_nat dec_uint16_show_nat dec_string_escape dec_time_format dec_float_text

lemma dec_event_values:
  assumes "wire_time (Timestamp e)" and "ParseFloat dur = Some (ResponseDurationMs e)"
  shows "dec_event_members zero_event None (map (\<lambda>(k, t, v). (escape_body k, v)) (event_values e dur))
    = Inr (wire_event e, None)"
proof -
  let ?a = "entries (Attrs e)"
  have attrs: "dec_strmap None (JObj (map (\<lambda>(k, v). (escape_body k, JStr (escape_body v))) ?a)) =
      (Some (gm_put_all (map (\<lambda>(k, v). (coerce_utf8 k, coerce_utf8 v)) ?a) gm_empty), None)"
    by (simp add: dec_strmap_def dec_entries_texts entries_def)
  have init: "zero_event = zero_event\<lparr>Attrs := None\<rparr>" by (simp add: zero_event_def)
  show ?thesis
    using assms
    by (simp add: event_values_def dec_event_members_field event_fields_def dec_event_field_def dec_values
        attrs wire_event_def wire_attrs_def zero_event_def del: dec_event_members.simps(2))
qed

lemma json_round_trip:
  assumes "wire_time (Timestamp e)" and "f_finite (ResponseDurationMs e)"
  shows "\<exists>b. json_Marshal_event e = Inr b \<and> json_Unmarshal_event b = Inr (wire_event e)"
proof -
  obtain dur where dur: "float_text (ResponseDurationMs e) = Inr dur" "number_text dur"
    "ParseFloat dur = Some (ResponseDurationMs e)"
    using float_text_reads_back [OF assms(2)] by blast
  show ?thesis
    by (simp add: json_Marshal_event_def time_text [OF assms(1)] dur(1) json_Unmarshal_event_def
        parse_event_text [OF dur(2)] dec_event_values [OF assms(1) dur(3)])
qed

text \<open>Events that the wire format keeps as they are.\<close>

definition attrs_ok :: "gomap option \<Rightarrow> bool" where
  "attrs_ok a \<longleftrightarrow>
     (case a of None \<Rightarrow> True
      | Some m \<Rightarrow> m \<noteq> [] \<and> gm_wf m \<and> list_all (\<lambda>(k, v). valid_utf8 k \<and> valid_utf8 v) m)"

definition event_strings :: "LogEvent \<Rightarrow> string list" where
  "event_strings e =
     [LogLevel e, Message e, Service e, Host e, Environment e, RequestID e, ClientIP e, UserAgent e,
      RequestMethod e, RequestPath e]"

definition wire_ok :: "LogEvent \<Rightarrow> bool" where
  "wire_ok e \<longleftrightarrow>
     wire_time (Timestamp e) \<and> f_finite (ResponseDurationMs e)
     \<and> list_all valid_utf8 (event_strings e) \<and> attrs_ok (Attrs e)"

lemma wire_attrs_id: "attrs_ok a \<Longrightarrow> wire_attrs a = a"
proof (cases a)
  case None
  then show ?thesis by (simp add: wire_attrs_def entries_def gm_empty_def)
next
  case (Some m)
  assume ok: "attrs_ok a"
  have "map (\<lambda>(k, v). (coerce_utf8 k, coerce_utf8 v)) m = m"
    using ok Some by (intro map_idI) (auto simp: attrs_ok_def list_all_iff valid_utf8_def)
  with ok Some show ?thesis
    by (simp add: attrs_ok_def wire_attrs_def entries_def gm_put_all_self)
qed

lemma wire_event_id: "wire_ok e \<Longrightarrow> wire_event e = e"
  by (simp add: wire_ok_def wire_event_def wire_attrs_id event_strings_def valid_utf8_def)

end
