(* ===== verification/Schema_Facts.thy ===== *)
theory Schema_Facts
  imports Schema_Wire
begin

text \<open>
  Properties of package \<^verbatim>\<open>pkg/schema\<close>: what the conversions accept and produce, the merging of
  attributes, and the round trips of the REST shape and of the wire format.
\<close>

section \<open>Log levels\<close>

definition levels :: "string set" where
  "levels = {LevelDebug, LevelInfo, LevelWarn, LevelError, LevelFatal}"

lemmas level_defs = LevelDebug_def LevelInfo_def LevelWarn_def LevelError_def LevelFatal_def

lemma levels_upper: "l \<in> levels \<Longrightarrow> list_all (\<lambda>c. 65 \<le> byte c \<and> byte c \<le> 90) l"
  by (auto simp: levels_def level_defs)

lemma ValidLogLevel_levels: "ValidLogLevel l \<longleftrightarrow> ToUpper (TrimSpace l) \<in> levels"
  by (simp add: ValidLogLevel_def levels_def)

lemma TrimSpace_ascii:
  assumes "is_ascii s" and "s \<noteq> []" and "\<not> IsSpace (byte (hd s))" and "\<not> IsSpace (byte (last s))"
  shows "TrimSpace s = s"
proof -
  have "list_all scalar (map byte s)" using assms(1) by (auto simp: is_ascii_def list_all_iff scalar_def)
  then have "TrimSpace (encode_runes (map byte s)) = encode_runes (map byte s)"
    using assms by (intro TrimSpace_id) (simp_all add: hd_map last_map)
  then show ?thesis by (simp add: encode_runes_ascii assms(1))
qed

lemma level_fixed:
  assumes "l \<in> levels"
  shows "TrimSpace l = l" "ToUpper l = l" "l \<noteq> []" "NormalizeLogLevel l = l" "ValidLogLevel l" "is_ascii l"
proof -
  have "is_ascii l" "l \<noteq> []" "\<not> IsSpace (byte (hd l))" "\<not> IsSpace (byte (last l))"
    using assms by (auto simp: levels_def level_defs is_ascii_def IsSpace_def)
  then show t: "TrimSpace l = l" "l \<noteq> []" "is_ascii l" by (auto intro: TrimSpace_ascii)
  have "map (\<lambda>c. char_of (ToUpper_rune (byte c))) l = l"
    using levels_upper [OF assms] by (intro map_idI) (auto simp: list_all_iff ToUpper_rune_def)
  then show u: "ToUpper l = l" using t by (simp add: ToUpper_def)
  show "NormalizeLogLevel l = l" "ValidLogLevel l"
    using t u assms by (simp_all add: NormalizeLogLevel_def ValidLogLevel_levels Let_def)
qed

text \<open>A normalised level that is valid is one of the five levels as it stands.\<close>

lemma normalized_level:
  assumes "ValidLogLevel (NormalizeLogLevel l)"
  shows "NormalizeLogLevel l \<in> levels"
proof (cases "ToUpper (TrimSpace l) = []")
  case True
  then show ?thesis by (simp add: NormalizeLogLevel_def levels_def)
next
  case False
  then have n: "NormalizeLogLevel l = ToUpper (TrimSpace l)" by (simp add: NormalizeLogLevel_def Let_def)
  have "TrimSpace l \<noteq> []" using False by auto
  then have u: "ToUpper (ToUpper (TrimSpace l)) \<in> levels"
    using assms TrimSpace_ToUpper unfolding n ValidLogLevel_levels by simp
  show ?thesis
    unfolding n by (subst ToUpper_twice [OF refl levels_upper [OF u]]) (rule u)
qed

lemma NormalizeLogLevel_not_Nil: "NormalizeLogLevel l \<noteq> []"
  by (simp add: NormalizeLogLevel_def LevelInfo_def Let_def)

section \<open>Validation\<close>

text \<open>What the rest of the system may rely on in an event.\<close>

definition event_wf :: "LogEvent \<Rightarrow> bool" where
  "event_wf e \<longleftrightarrow>
     TrimSpace (Message e) \<noteq> [] \<and> TrimSpace (Service e) \<noteq> [] \<and> LogLevel e \<in> levels
     \<and> \<not> IsZero (Timestamp e)"

lemma Validate_None:
  "Validate (Some e) = None \<longleftrightarrow>
     TrimSpace (Message e) \<noteq> [] \<and> TrimSpace (Service e) \<noteq> []
     \<and> (LogLevel e = [] \<or> ValidLogLevel (LogLevel e)) \<and> \<not> IsZero (Timestamp e)"
  by (auto simp: Validate_def)

lemma event_wf_valid: "event_wf e \<Longrightarrow> Validate (Some e) = None"
  by (simp add: event_wf_def Validate_None level_fixed(5))

lemma valid_normalized:
  assumes "Validate (Some e) = None" and "LogLevel e = NormalizeLogLevel l"
  shows "event_wf e"
  using assms normalized_level [of l] NormalizeLogLevel_not_Nil [of l]
  by (auto simp: event_wf_def Validate_None)

lemma FromREST_Inr: "FromREST now p = Inr ev \<longleftrightarrow> Validate (Some ev) = None \<and> ev = rest_event now p"
  by (auto simp: FromREST_def Let_def split: option.splits)

lemma FromOTLPLike_Inr:
  "FromOTLPLike now ts sev body ra la = Inr ev \<longleftrightarrow>
     Validate (Some ev) = None
     \<and> ev = (let e0 = otlp_event ts sev body ra la in
             if IsZero (Timestamp e0) then e0\<lparr>Timestamp := UTC now\<rparr> else e0)"
  unfolding FromOTLPLike_def Let_def by (auto split: option.split)

lemma rest_event_fields [simp]:
  "LogLevel (rest_event now p) = NormalizeLogLevel (p_LogLevel p)"
  "Message (rest_event now p) = p_Message p"
  "Service (rest_event now p) = s_Service (p_Source p)"
  "Timestamp (rest_event now p) =
     (if p_Timestamp p = 0 then UTC now else UnixMilli_UTC (sint (p_Timestamp p)))"
  "ResponseStatus (rest_event now p) = word_of_int (m_ResponseStatus (p_Metadata p))"
  "ResponseDurationMs (rest_event now p) = m_ResponseDuration (p_Metadata p)"
  "Attrs (rest_event now p) = mergeAttrs [s_Extra (p_Source p), m_Extra (p_Metadata p)]"
  "ID (rest_event now p) = p_ID p"
  by (simp_all add: rest_event_def Let_def)

lemma otlp_event_fields [simp]:
  "LogLevel (otlp_event ts sev body ra la) = NormalizeLogLevel sev"
  "Message (otlp_event ts sev body ra la) = body"
  "Timestamp (otlp_event ts sev body ra la) = UTC ts"
  "Service (otlp_event ts sev body ra la) = firstAttr (mergeAttrs [ra, la]) [''service.name'', ''service'']"
  "Attrs (otlp_event ts sev body ra la) = mergeAttrs [ra, la]"
  by (simp_all add: otlp_event_def Let_def)

lemma FromREST_wf: "FromREST now p = Inr ev \<Longrightarrow> event_wf ev"
  unfolding FromREST_Inr by (elim conjE) (rule valid_normalized [of _ "p_LogLevel p"], simp_all)

lemma FromOTLPLike_wf: "FromOTLPLike now ts sev body ra la = Inr ev \<Longrightarrow> event_wf ev"
  unfolding FromOTLPLike_Inr Let_def
  by (elim conjE) (rule valid_normalized [of _ sev], assumption, simp)

lemma UnmarshalEvent_wf:
  assumes "UnmarshalEvent b = Inr ev"
  shows "event_wf ev"
proof -
  obtain e0 where "ev = e0\<lparr>LogLevel := NormalizeLogLevel (LogLevel e0)\<rparr>" "Validate (Some ev) = None"
    using assms by (auto simp: UnmarshalEvent_def bind_res_eq_Inr Let_def split: option.splits)
  then show ?thesis by (intro valid_normalized [of _ "LogLevel e0"]) simp_all
qed

section \<open>Attributes\<close>

definition attr_get :: "gomap option \<Rightarrow> string \<Rightarrow> string option" where
  "attr_get a k = gm_get (entries a) k"

definition opt_wf :: "gomap option \<Rightarrow> bool" where
  "opt_wf a \<longleftrightarrow> gm_wf (entries a)"

lemma merge_map_put_all: "merge_map es out = gm_put_all (filter (\<lambda>(k, v). k \<noteq> []) es) out"
  by (induction es out rule: merge_map.induct) (simp_all add: gm_put_all_def)

lemma gm_wf_merge_map: "gm_wf out \<Longrightarrow> gm_wf (merge_map es out)"
  by (simp add: merge_map_put_all gm.wf_put_all)

lemma map_of_filter_keys:
  "map_of (filter (\<lambda>(k, v). k \<noteq> []) es) k = (if k = [] then None else map_of es k)"
  by (induction es) auto

lemma gm_get_merge_map:
  assumes "gm_wf m" and "gm_wf out"
  shows "gm_get (merge_map m out) k =
     (if k = [] then gm_get out k else case gm_get m k of Some v \<Rightarrow> Some v | None \<Rightarrow> gm_get out k)"
proof -
  have "distinct (map fst (filter (\<lambda>(k, v). k \<noteq> []) m))"
    using gm_wf_distinct [OF assms(1)] by (rule distinct_map_filter)
  then show ?thesis
    using gm.get_put_all_distinct [OF assms(2)]
    by (simp add: merge_map_put_all gm_get_def map_add_def map_of_filter_keys)
qed

text \<open>The value that a key has in the last map that holds it.\<close>

fun last_value :: "gomap option list \<Rightarrow> string \<Rightarrow> string option \<Rightarrow> string option" where
  "last_value [] k acc = acc"
| "last_value (m # ms) k acc = last_value ms k (case attr_get m k of Some v \<Rightarrow> Some v | None \<Rightarrow> acc)"

lemma gm_wf_merge_maps: "gm_wf out \<Longrightarrow> gm_wf (merge_maps ms out)"
  by (induction ms arbitrary: out) (simp_all add: gm_wf_merge_map)

lemma gm_get_merge_maps:
  assumes "list_all opt_wf ms" and "gm_wf out" and "k \<noteq> []"
  shows "gm_get (merge_maps ms out) k = last_value ms k (gm_get out k)"
  using assms
  by (induction ms arbitrary: out)
    (simp_all add: gm_wf_merge_map gm_get_merge_map attr_get_def opt_wf_def)

lemma gm_get_merge_maps_Nil:
  assumes "list_all opt_wf ms" and "gm_wf out"
  shows "gm_get (merge_maps ms out) [] = gm_get out []"
  using assms
  by (induction ms arbitrary: out) (simp_all add: gm_wf_merge_map gm_get_merge_map opt_wf_def)

lemma entries_mergeAttrs: "entries (mergeAttrs ms) = merge_maps ms gm_empty"
  by (simp add: mergeAttrs_def entries_def Let_def gm_empty_def)

lemma opt_wf_mergeAttrs: "opt_wf (mergeAttrs ms)"
  by (simp add: opt_wf_def entries_mergeAttrs gm_wf_merge_maps gm.wf_empty)

lemma mergeAttrs_nonempty: "mergeAttrs ms = Some m \<Longrightarrow> m \<noteq> []"
  by (auto simp: mergeAttrs_def Let_def split: if_splits)

section \<open>Round trips\<close>

text \<open>Times that the conversions produce: UTC, with the nanoseconds in range.\<close>

definition utc_time :: "gotime \<Rightarrow> bool" where
  "utc_time t \<longleftrightarrow> t_off t = 0 \<and> time_wf t"

text \<open>Events that the REST shape can carry: whole milliseconds, other than the epoch itself.\<close>

definition rest_time :: "gotime \<Rightarrow> bool" where
  "rest_time t \<longleftrightarrow>
     t_off t = 0 \<and> time_wf t \<and> t_nsec t mod 1000000 = 0 \<and> UnixMilli t \<noteq> 0 \<and> in_int64 (UnixMilli t)"

definition rest_attrs :: "gomap option \<Rightarrow> bool" where
  "rest_attrs a \<longleftrightarrow> (case a of None \<Rightarrow> True | Some m \<Rightarrow> m \<noteq> [] \<and> gm_wf m \<and> gm_get m [] = None)"

lemma filter_no_empty_key: "gm_get m [] = None \<Longrightarrow> filter (\<lambda>(k, v). k \<noteq> []) m = m"
  by (auto simp: gm_get_def map_of_eq_None_iff filter_id_conv image_iff)

lemma mergeAttrs_clone: "rest_attrs a \<Longrightarrow> mergeAttrs [None, cloneMap a] = a"
  by (cases a)
    (auto simp: rest_attrs_def mergeAttrs_def cloneMap_def entries_def Let_def merge_map_put_all
      filter_no_empty_key gm_put_all_self [unfolded gm_empty_def] gm_empty_def)

text \<open>
  What a round trip through the REST shape makes of a time: the sub-millisecond part is cut off, and
  the epoch, whose 0 stands for no time, becomes the current time.
\<close>

definition millis :: "gotime \<Rightarrow> gotime" where
  "millis t = t\<lparr>t_nsec := t_nsec t div 1000000 * 1000000\<rparr>"

definition rest_stamp :: "gotime \<Rightarrow> gotime \<Rightarrow> gotime" where
  "rest_stamp now t = (if UnixMilli t = 0 then UTC now else millis t)"

lemma mergeAttrs_cloneMap: "opt_wf a \<Longrightarrow> mergeAttrs [None, cloneMap a] = mergeAttrs [a]"
  by (cases a)
    (auto simp: opt_wf_def mergeAttrs_def cloneMap_def entries_def Let_def merge_map_put_all
      gm_put_all_self [unfolded gm_empty_def] gm_empty_def)

lemma mergeAttrs_self_iff:
  assumes "opt_wf a"
  shows "mergeAttrs [a] = a \<longleftrightarrow> rest_attrs a"
proof (cases a)
  case None
  then show ?thesis by (simp add: mergeAttrs_def entries_def rest_attrs_def gm_empty_def)
next
  case (Some m)
  have wf: "gm_wf m" using assms Some by (simp add: opt_wf_def entries_def)
  then have "gm_get (merge_map m gm_empty) [] = None"
    using gm_get_merge_map [OF wf gm.wf_empty, of "[]"] by (simp add: gm_get_def gm_empty_def)
  then have "rest_attrs a" if "mergeAttrs [a] = a"
    using that Some wf by (auto simp: mergeAttrs_def entries_def rest_attrs_def Let_def split: if_splits)
  moreover have "mergeAttrs [a] = a" if "rest_attrs a"
    using mergeAttrs_clone [OF that] mergeAttrs_cloneMap [OF assms] by simp
  ultimately show ?thesis by blast
qed

lemma UnixMilli_millis:
  assumes "utc_time t"
  shows "UnixMilli_UTC (UnixMilli t) = millis t"
proof -
  let ?k = "t_nsec t div 1000000"
  have k: "int ?k < 1000" "0 \<le> int ?k"
    using assms by (auto simp: utc_time_def time_wf_def)
  have "UnixMilli t div 1000 = t_sec t - unixToInternal" "UnixMilli t mod 1000 = int ?k"
    using k by (auto simp: UnixMilli_def intro!: int_div_pos_eq int_mod_pos_eq [where q = "t_sec t - unixToInternal"])
  then show ?thesis
    using assms by (cases t) (simp add: UnixMilli_UTC_def utc_time_def millis_def)
qed

lemma rest_event_ToREST:
  assumes "utc_time (Timestamp e)" and "in_int64 (UnixMilli (Timestamp e))" and "opt_wf (Attrs e)" and "LogLevel e \<in> levels"
  shows "rest_event now (ToREST e) = e\<lparr>Timestamp := rest_stamp now (Timestamp e), Attrs := mergeAttrs [Attrs e]\<rparr>"
proof -
  let ?ms = "UnixMilli (Timestamp e)"
  have utc: "UTC (Timestamp e) = Timestamp e"
    using assms(1) by (simp add: UTC_def utc_time_def)
  have s: "sint (word_of_int ?ms :: uint64) = ?ms"
    using wrap64_id [OF assms(2)] by (simp add: wrap64_def)
  then have nz: "(word_of_int ?ms :: uint64) = 0 \<longleftrightarrow> ?ms = 0"
    by (metis of_int_0 signed_0 word_of_int_0)
  show ?thesis
    using s nz utc mergeAttrs_cloneMap [OF assms(3)] UnixMilli_millis [OF assms(1)] level_fixed(4) [OF assms(4)]
    by (cases e) (simp add: rest_event_def ToREST_def Let_def rest_stamp_def)
qed

lemma millis_self_iff: "millis t = t \<longleftrightarrow> t_nsec t mod 1000000 = 0"
  by (cases t) (auto simp: millis_def, metis mod_mult_self2_is_0)

lemma rest_attrs_opt_wf: "rest_attrs a \<Longrightarrow> opt_wf a"
  by (auto simp: rest_attrs_def opt_wf_def entries_def gm.wf_empty split: option.splits)

lemma rest_event_self:
  assumes "rest_time (Timestamp e)" and "rest_attrs (Attrs e)" and "LogLevel e \<in> levels"
  shows "rest_event now (ToREST e) = e"
proof -
  have "utc_time (Timestamp e)" "in_int64 (UnixMilli (Timestamp e))" "rest_stamp now (Timestamp e) = Timestamp e"
    using assms(1) millis_self_iff by (auto simp: rest_time_def utc_time_def rest_stamp_def)
  moreover have "mergeAttrs [Attrs e] = Attrs e"
    using mergeAttrs_self_iff assms(2) rest_attrs_opt_wf by blast
  ultimately show ?thesis using rest_event_ToREST [of e] rest_attrs_opt_wf assms(2,3) by simp
qed

lemma utc_UTC [simp]: "time_wf t \<Longrightarrow> utc_time (UTC t)"
  by (simp add: utc_time_def UTC_def time_wf_def)

lemma utc_UnixMilli [simp]: "utc_time (UnixMilli_UTC ms)"
proof -
  have "nat (ms mod 1000) < 1000" by (simp add: nat_less_iff)
  then show ?thesis by (simp add: utc_time_def UnixMilli_UTC_def time_wf_def)
qed

lemma utc_UnixNano [simp]: "utc_time (UnixNano_UTC ns)"
  by (simp add: utc_time_def UnixNano_UTC_def time_wf_def nat_less_iff)

lemma time_MarshalJSON_ok:
  "utc_time t \<Longrightarrow> (\<exists>x. time_MarshalJSON t = Inr x) \<longleftrightarrow> wire_time t"
  by (auto simp: time_MarshalJSON_def utc_time_def wire_time_def)

lemma float_text_ok: "(\<exists>x. float_text f = Inr x) \<longleftrightarrow> f_finite f"
  by (simp add: float_text_def)

lemma json_Marshal_event_ok:
  "utc_time (Timestamp e) \<Longrightarrow>
     (\<exists>b. json_Marshal_event e = Inr b) \<longleftrightarrow> wire_time (Timestamp e) \<and> f_finite (ResponseDurationMs e)"
  using time_MarshalJSON_ok [of "Timestamp e"] float_text_ok [of "ResponseDurationMs e"]
  by (auto simp: json_Marshal_event_def bind_res_eq_Inr)

lemma coerce_level: "l \<in> levels \<Longrightarrow> coerce_utf8 l = l"
  using level_fixed(6) valid_utf8_ascii by (simp add: valid_utf8_def)

lemma wire_event_wf: "event_wf e \<Longrightarrow> event_wf (wire_event e)"
  by (simp add: event_wf_def wire_event_def coerce_level)

lemma MarshalEvent_valid: "event_wf e \<Longrightarrow> MarshalEvent e = json_Marshal_event e"
  using event_wf_valid by (simp add: MarshalEvent_def)

lemma MarshalEvent_ok:
  assumes "event_wf e" and "utc_time (Timestamp e)"
  shows "(\<exists>b. MarshalEvent e = Inr b) \<longleftrightarrow>
           0 \<le> year_of (Timestamp e) \<and> year_of (Timestamp e) \<le> 9999 \<and> f_finite (ResponseDurationMs e)"
  using json_Marshal_event_ok [OF assms(2)] assms(2) MarshalEvent_valid [OF assms(1)]
  by (auto simp: wire_time_def utc_time_def)

lemma MarshalEvent_decodes:
  assumes "event_wf e" and "utc_time (Timestamp e)" and "MarshalEvent e = Inr b"
  shows "UnmarshalEvent b = Inr (wire_event e)"
proof -
  have "json_Unmarshal_event b = Inr (wire_event e)"
    using json_Marshal_event_ok [OF assms(2)] json_round_trip [of e] assms(3) MarshalEvent_valid [OF assms(1)]
    by auto
  moreover have "NormalizeLogLevel (LogLevel (wire_event e)) = LogLevel (wire_event e)"
    using wire_event_wf [OF assms(1)] level_fixed(4) by (simp add: event_wf_def)
  ultimately show ?thesis
    using event_wf_valid [OF wire_event_wf [OF assms(1)]] by (simp add: UnmarshalEvent_def)
qed

text \<open>The levels that a conversion accepts.\<close>

lemma normalized_valid:
  "ValidLogLevel (NormalizeLogLevel l) \<longleftrightarrow> ToUpper (TrimSpace l) \<in> insert [] levels"
proof
  assume "ValidLogLevel (NormalizeLogLevel l)"
  then show "ToUpper (TrimSpace l) \<in> insert [] levels"
    using normalized_level [of l] by (auto simp: NormalizeLogLevel_def Let_def split: if_splits)
next
  assume "ToUpper (TrimSpace l) \<in> insert [] levels"
  then show "ValidLogLevel (NormalizeLogLevel l)"
    using level_fixed(5) by (auto simp: NormalizeLogLevel_def Let_def levels_def)
qed

lemma FromREST_utc: "FromREST now p = Inr ev \<Longrightarrow> time_wf now \<Longrightarrow> utc_time (Timestamp ev)"
  by (auto simp: FromREST_Inr)

lemma FromOTLPLike_utc:
  "FromOTLPLike now ts sev body ra la = Inr ev \<Longrightarrow> time_wf now \<Longrightarrow> time_wf ts \<Longrightarrow> utc_time (Timestamp ev)"
  by (auto simp: FromOTLPLike_Inr Let_def)

section \<open>Samples\<close>

text \<open>An event and a payload on which the properties are applied.\<close>

definition sample_event :: LogEvent where
  "sample_event =
     \<lparr>Timestamp = UnixMilli_UTC 1700000000123, ID = 7, LogLevel = LevelWarn, Message = ''slow query'',
      Service = ''api'', Host = ''h1'', Environment = ''prod'', RequestID = ''r-1'', ClientIP = ''10.0.0.1'',
      UserAgent = ''curl'', RequestMethod = ''GET'', RequestPath = ''/q'', ResponseStatus = 503,
      ResponseDurationMs = 0x4016000000000000, Attrs = Some [(''zone'', ''a'')]\<rparr>"

lemma is_ascii_Cons [simp]: "is_ascii (c # s) \<longleftrightarrow> byte c < 128 \<and> is_ascii s" "is_ascii []"
  by (simp_all add: is_ascii_def)

lemma sample_trim: "TrimSpace ''slow query'' = ''slow query''" "TrimSpace ''api'' = ''api''"
  by (intro TrimSpace_ascii; simp add: IsSpace_def)+

lemma sample_wf: "event_wf sample_event"
  by (simp add: event_wf_def sample_event_def sample_trim levels_def IsZero_def UnixMilli_UTC_def unixToInternal_def)

lemma sample_rest: "rest_time (Timestamp sample_event)" "rest_attrs (Attrs sample_event)"
  by (simp_all add: rest_time_def sample_event_def UnixMilli_UTC_def UnixMilli_def unixToInternal_def
      time_wf_def in_int64_def rest_attrs_def gm_get_def gm_wf_def)

lemma sample_year: "year_of (Timestamp sample_event) = 2023"
  by (simp add: year_of_def sample_event_def UnixMilli_UTC_def unixToInternal_def civil_def year_yday_def
      isLeap_def month_lengths_def)

lemma sample_wire: "wire_ok sample_event"
  using sample_year
  by (simp add: wire_ok_def wire_time_def sample_event_def UnixMilli_UTC_def time_wf_def f_finite_def
      f_exp_def event_strings_def attrs_ok_def gm_wf_def level_defs)

section \<open>Properties\<close>

text \<open>
  C22. Whatever FromREST, FromOTLPLike or UnmarshalEvent returns as an event has a message and a
  service that are not blank, a level that is exactly one of the five level constants, and a time.
\<close>

theorem accepted_events_wf:
  "(FromREST now p = Inr ev \<longrightarrow> event_wf ev)
   \<and> (FromOTLPLike now ts sev body ra la = Inr ev \<longrightarrow> event_wf ev)
   \<and> (UnmarshalEvent b = Inr ev \<longrightarrow> event_wf ev)"
  using FromREST_wf FromOTLPLike_wf UnmarshalEvent_wf by blast

theorem accepted_events_wf_witness:
  "FromREST zero_time (ToREST sample_event) = Inr sample_event \<and> event_wf sample_event"
proof -
  have "FromREST zero_time (ToREST sample_event) = Inr sample_event"
    using sample_rest sample_wf event_wf_valid
    by (simp add: FromREST_Inr rest_event_self event_wf_def)
  with accepted_events_wf [of zero_time "ToREST sample_event" sample_event] show ?thesis by blast
qed

text \<open>
  C23. What converting a well-formed event with a UTC time in the range of a 64-bit millisecond count to
  its REST shape and back gives: the event with its time cut to whole milliseconds, or the current
  time for an event of the epoch's millisecond, and without an attribute of the empty key; it is
  refused if that time is the zero time. So, the epoch apart, the event comes back unchanged exactly
  when its time is a whole number of milliseconds and its attributes have no empty key and are not an
  empty map.
\<close>

theorem FromREST_ToREST:
  assumes "event_wf e" and "utc_time (Timestamp e)" and "in_int64 (UnixMilli (Timestamp e))" and "opt_wf (Attrs e)"
  shows "FromREST now (ToREST e) =
      (let ts = rest_stamp now (Timestamp e) in
       if IsZero ts then Inl (ErrNew ''timestamp is required'')
       else Inr (e\<lparr>Timestamp := ts, Attrs := mergeAttrs [Attrs e]\<rparr>))
    \<and> (UnixMilli (Timestamp e) \<noteq> 0 \<longrightarrow>
        (FromREST now (ToREST e) = Inr e \<longleftrightarrow> t_nsec (Timestamp e) mod 1000000 = 0 \<and> rest_attrs (Attrs e)))"
proof -
  have ev: "rest_event now (ToREST e) = e\<lparr>Timestamp := rest_stamp now (Timestamp e), Attrs := mergeAttrs [Attrs e]\<rparr>"
    using rest_event_ToREST [OF assms(2-4)] assms(1) by (simp add: event_wf_def)
  have lvl: "ValidLogLevel (LogLevel e)" using assms(1) level_fixed(5) by (simp add: event_wf_def)
  have eq: "FromREST now (ToREST e) =
      (let ts = rest_stamp now (Timestamp e) in
       if IsZero ts then Inl (ErrNew ''timestamp is required'')
       else Inr (e\<lparr>Timestamp := ts, Attrs := mergeAttrs [Attrs e]\<rparr>))"
    using assms(1) lvl by (simp add: FromREST_def ev Let_def Validate_def event_wf_def)
  have "FromREST now (ToREST e) = Inr e \<longleftrightarrow> t_nsec (Timestamp e) mod 1000000 = 0 \<and> rest_attrs (Attrs e)"
    if "UnixMilli (Timestamp e) \<noteq> 0"
  proof -
    have "FromREST now (ToREST e) = Inr e \<longleftrightarrow> millis (Timestamp e) = Timestamp e \<and> mergeAttrs [Attrs e] = Attrs e"
      using eq that assms(1) by (cases e) (auto simp: rest_stamp_def event_wf_def Let_def)
    then show ?thesis using mergeAttrs_self_iff [OF assms(4)] millis_self_iff by simp
  qed
  with eq show ?thesis by blast
qed

theorem FromREST_ToREST_witness:
  "FromREST zero_time (ToREST sample_event) = Inr sample_event"
proof -
  have "utc_time (Timestamp sample_event)" "in_int64 (UnixMilli (Timestamp sample_event))"
    "UnixMilli (Timestamp sample_event) \<noteq> 0" "t_nsec (Timestamp sample_event) mod 1000000 = 0" "opt_wf (Attrs sample_event)"
    using sample_rest rest_attrs_opt_wf by (auto simp: rest_time_def utc_time_def)
  with FromREST_ToREST [OF sample_wf, of zero_time] sample_rest(2) show ?thesis by blast
qed

text \<open>
  C1. An event that is published is the event that is consumed: MarshalEvent encodes every
  well-formed event whose time is a UTC time of the years 0 to 9999, whose duration is finite and whose
  strings are valid UTF-8, and UnmarshalEvent decodes the bytes to the same event.
\<close>

theorem MarshalEvent_UnmarshalEvent:
  assumes "event_wf e" and "wire_ok e"
  shows "\<exists>b. MarshalEvent e = Inr b \<and> UnmarshalEvent b = Inr e"
proof -
  obtain b where b: "json_Marshal_event e = Inr b" "json_Unmarshal_event b = Inr e"
    using json_round_trip [of e] assms(2) wire_event_id [OF assms(2)] by (auto simp: wire_ok_def)
  have "NormalizeLogLevel (LogLevel e) = LogLevel e"
    using assms(1) level_fixed(4) by (simp add: event_wf_def)
  then show ?thesis
    using b event_wf_valid [OF assms(1)] by (simp add: MarshalEvent_def UnmarshalEvent_def)
qed

theorem MarshalEvent_UnmarshalEvent_witness:
  "\<exists>b. MarshalEvent sample_event = Inr b \<and> UnmarshalEvent b = Inr sample_event"
  by (rule MarshalEvent_UnmarshalEvent [OF sample_wf sample_wire])

text \<open>
  C10. No event that the encoder accepts is refused by the decoder: MarshalEvent encodes a
  well-formed event with a UTC time exactly when the year is between 0 and 9999 and the duration is
  finite, and UnmarshalEvent then gives the event back, with invalid UTF-8 replaced.
\<close>

theorem published_events_decode:
  assumes "event_wf e" and "utc_time (Timestamp e)"
  shows "((\<exists>b. MarshalEvent e = Inr b) \<longleftrightarrow>
            0 \<le> year_of (Timestamp e) \<and> year_of (Timestamp e) \<le> 9999 \<and> f_finite (ResponseDurationMs e))
         \<and> (\<forall>b. MarshalEvent e = Inr b \<longrightarrow> UnmarshalEvent b = Inr (wire_event e))"
  using MarshalEvent_ok MarshalEvent_decodes assms by blast

theorem published_events_decode_witness:
  "\<exists>b. MarshalEvent sample_event = Inr b \<and> UnmarshalEvent b = Inr sample_event"
proof -
  have "utc_time (Timestamp sample_event)" using sample_wire by (simp add: wire_ok_def wire_time_def utc_time_def)
  note p = published_events_decode [OF sample_wf this]
  have "f_finite (ResponseDurationMs sample_event)" using sample_wire by (simp add: wire_ok_def)
  then obtain b where "MarshalEvent sample_event = Inr b" using p sample_year by auto
  with p wire_event_id [OF sample_wire] show ?thesis by auto
qed

text \<open>
  C9. FromREST accepts a payload exactly when its message and its service are not blank, its level
  is empty, blank or one of the five levels in any case and with white space around it, and its
  time is not the zero time; the event is then the one the payload describes.
\<close>

theorem FromREST_accepts:
  "FromREST now p = Inr ev \<longleftrightarrow>
     TrimSpace (p_Message p) \<noteq> [] \<and> TrimSpace (s_Service (p_Source p)) \<noteq> []
     \<and> ToUpper (TrimSpace (p_LogLevel p)) \<in> {[], LevelDebug, LevelInfo, LevelWarn, LevelError, LevelFatal}
     \<and> \<not> IsZero (if p_Timestamp p = 0 then UTC now else UnixMilli_UTC (sint (p_Timestamp p)))
     \<and> ev = rest_event now p"
proof -
  have "ValidLogLevel (NormalizeLogLevel (p_LogLevel p)) \<longleftrightarrow>
      ToUpper (TrimSpace (p_LogLevel p)) \<in> {[], LevelDebug, LevelInfo, LevelWarn, LevelError, LevelFatal}"
    unfolding normalized_valid levels_def by simp
  then have "Validate (Some (rest_event now p)) = None \<longleftrightarrow>
      TrimSpace (p_Message p) \<noteq> [] \<and> TrimSpace (s_Service (p_Source p)) \<noteq> []
      \<and> ToUpper (TrimSpace (p_LogLevel p)) \<in> {[], LevelDebug, LevelInfo, LevelWarn, LevelError, LevelFatal}
      \<and> \<not> IsZero (if p_Timestamp p = 0 then UTC now else UnixMilli_UTC (sint (p_Timestamp p)))"
    unfolding Validate_None rest_event_fields(1-4) using NormalizeLogLevel_not_Nil [of "p_LogLevel p"]
    by (simp only: simp_thms)
  then show ?thesis
    unfolding FromREST_Inr by (cases "ev = rest_event now p") (simp_all only: simp_thms)
qed

text \<open>
  C39. The response status of a REST payload is kept modulo 65536 and not checked: a status of 65736
  is stored as 200 and -1 as 65535.
\<close>

theorem FromREST_status_wraps:
  assumes "FromREST now p = Inr ev"
  shows "uint (ResponseStatus ev) = m_ResponseStatus (p_Metadata p) mod 65536"
  using assms by (simp add: FromREST_Inr uint_word_of_int)

theorem FromREST_status_wraps_witness:
  "\<exists>ev. FromREST zero_time ((ToREST sample_event)\<lparr>p_Metadata := zero_metadata\<lparr>m_ResponseStatus := 65736\<rparr>\<rparr>) = Inr ev
     \<and> uint (ResponseStatus ev) = 200"
proof -
  let ?p = "(ToREST sample_event)\<lparr>p_Metadata := zero_metadata\<lparr>m_ResponseStatus := 65736\<rparr>\<rparr>"
  have "Validate (Some (rest_event zero_time (ToREST sample_event))) = None"
    using sample_rest sample_wf event_wf_valid by (simp add: rest_event_self event_wf_def)
  then have "FromREST zero_time ?p = Inr (rest_event zero_time ?p)"
    unfolding FromREST_Inr Validate_None by (simp split: if_splits)
  from this FromREST_status_wraps [OF this] show ?thesis by auto
qed

text \<open>
  C25. The attributes of an event: mergeAttrs keeps for every non-empty key the value of the last map
  that has the key, drops the empty key, and returns nil when nothing is left.
\<close>

theorem mergeAttrs_last_wins:
  assumes "list_all opt_wf ms"
  shows "attr_get (mergeAttrs ms) k = (if k = [] then None else last_value ms k None)
         \<and> (mergeAttrs ms = None \<longleftrightarrow> (\<forall>k. k \<noteq> [] \<longrightarrow> last_value ms k None = None))"
proof -
  have get: "attr_get (mergeAttrs ms) k = (if k = [] then None else last_value ms k None)" for k
    using gm_get_merge_maps [OF assms gm.wf_empty, of k] gm_get_merge_maps_Nil [OF assms gm.wf_empty]
    by (simp add: attr_get_def entries_mergeAttrs gm.get_empty)
  have "mergeAttrs ms = None \<longleftrightarrow> (\<forall>k. attr_get (mergeAttrs ms) k = None)"
    using mergeAttrs_nonempty [of ms]
    by (cases "mergeAttrs ms") (auto simp: attr_get_def entries_def gm_get_def neq_Nil_conv gm_empty_def)
  with get show ?thesis by (metis (no_types))
qed

theorem mergeAttrs_last_wins_witness:
  "attr_get (mergeAttrs [Some [(''env'', ''dev''), (''zone'', ''a'')], None, Some [([], ''x''), (''env'', ''prod'')]]) ''env''
   = Some ''prod''"
  using mergeAttrs_last_wins [of "[Some [(''env'', ''dev''), (''zone'', ''a'')], None, Some [([], ''x''), (''env'', ''prod'')]]" "''env''"]
  by (simp add: attr_get_def opt_wf_def entries_def gm_get_def gm_wf_def gm_empty_def)

end
