(* ===== verification/Otlp_Facts.thy ===== *)
theory Otlp_Facts
  imports Otlp Schema_Facts
begin

text \<open>
  Properties of \<^verbatim>\<open>pkg/schema/otlp.go\<close>: the loops over resources, scopes and records against the flat
  list of records, the attribute maps, and the severity numbers.
\<close>

section \<open>The records of a request\<close>

text \<open>Every record of a request in order, with the attributes of its resource.\<close>

definition scope_records :: "gomap option \<Rightarrow> ScopeLogs list \<Rightarrow> (gomap option \<times> LogRecord) list" where
  "scope_records ra sls = concat (map (\<lambda>sl. map (Pair ra) (sl_LogRecords sl)) sls)"

definition otlp_records ::
  "(AnyValue \<Rightarrow> string) \<Rightarrow> ExportLogsServiceRequest \<Rightarrow> (gomap option \<times> LogRecord) list" where
  "otlp_records sprint req =
     concat (map (\<lambda>rl. scope_records (keyValuesToMap sprint (rl_Attributes rl)) (rl_ScopeLogs rl))
       (req_ResourceLogs req))"

text \<open>One loop over the flat list.\<close>

fun flat_loop ::
  "(AnyValue \<Rightarrow> string) \<Rightarrow> (nat \<Rightarrow> gotime) \<Rightarrow> (gomap option \<times> LogRecord) list \<Rightarrow> LogEvent list
   \<Rightarrow> LogEvent list res" where
  "flat_loop sprint now [] events = Inr events"
| "flat_loop sprint now ((ra, lr) # rs) events =
     bind_res (log_record sprint (now (length events)) ra lr) (\<lambda>ev. flat_loop sprint now rs (events @ [ev]))"

lemma flat_loop_append:
  "flat_loop sprint now (xs @ ys) events = bind_res (flat_loop sprint now xs events) (flat_loop sprint now ys)"
proof (induction xs arbitrary: events)
  case (Cons x xs)
  obtain ra lr where x: "x = (ra, lr)" by (cases x)
  show ?case by (cases "log_record sprint (now (length events)) ra lr") (simp_all add: x Cons)
qed simp

lemma record_loop_flat: "record_loop sprint now ra lrs events = flat_loop sprint now (map (Pair ra) lrs) events"
  by (induction lrs arbitrary: events) (auto simp: bind_res_def split: sum.split)

lemma scope_loop_flat: "scope_loop sprint now ra sls = flat_loop sprint now (scope_records ra sls)"
  by (induction sls) (rule ext, simp add: scope_records_def flat_loop_append record_loop_flat)+

lemma resource_loop_flat:
  "resource_loop sprint now rls =
     flat_loop sprint now
       (concat (map (\<lambda>rl. scope_records (keyValuesToMap sprint (rl_Attributes rl)) (rl_ScopeLogs rl)) rls))"
  by (induction rls) (rule ext, simp add: flat_loop_append scope_loop_flat)+

lemma LogEventsFromOTLP_flat:
  "LogEventsFromOTLP sprint now (Some req) = flat_loop sprint now (otlp_records sprint req) []"
  by (simp add: LogEventsFromOTLP_def resource_loop_flat otlp_records_def)

text \<open>What the flat loop accepts.\<close>

definition accepts ::
  "(AnyValue \<Rightarrow> string) \<Rightarrow> (nat \<Rightarrow> gotime) \<Rightarrow> nat \<times> gomap option \<times> LogRecord \<Rightarrow> LogEvent \<Rightarrow> bool" where
  "accepts sprint now r ev \<longleftrightarrow> (case r of (i, ra, lr) \<Rightarrow> log_record sprint (now i) ra lr = Inr ev)"

lemma not_accepts:
  "(\<not> (\<exists>ev. accepts sprint now r ev)) \<longleftrightarrow> (case r of (i, ra, lr) \<Rightarrow> \<exists>e. log_record sprint (now i) ra lr = Inl e)"
proof (cases r)
  case (fields i ra lr)
  then show ?thesis by (cases "log_record sprint (now i) ra lr") (simp_all add: accepts_def)
qed

lemma flat_loop_Inr:
  "flat_loop sprint now rs events = Inr evs \<longleftrightarrow>
     (\<exists>es. evs = events @ es \<and> list_all2 (accepts sprint now) (enumerate (length events) rs) es)"
proof (induction rs arbitrary: events)
  case (Cons r rs)
  obtain ra lr where r: "r = (ra, lr)" by (cases r)
  show ?case
    using Cons.IH [of "events @ [_]"]
    by (cases "log_record sprint (now (length events)) ra lr")
      (auto simp: r accepts_def list_all2_Cons1)
qed auto

section \<open>Records\<close>

lemma log_record_Inr:
  "log_record sprint now ra lr = Inr ev \<longleftrightarrow>
     FromOTLPLike now (if lr_TimeUnixNano lr = 0 then UTC now else UnixNano_UTC (sint (lr_TimeUnixNano lr)))
       (if lr_SeverityText lr = [] then severityNumberToText (lr_SeverityNumber lr) else lr_SeverityText lr)
       (anyValueToString sprint (lr_Body lr)) ra (keyValuesToMap sprint (lr_Attributes lr)) = Inr ev"
  by (auto simp: log_record_def Let_def split: sum.splits)

lemma log_record_Attrs:
  "log_record sprint now ra lr = Inr ev \<Longrightarrow> Attrs ev = mergeAttrs [ra, keyValuesToMap sprint (lr_Attributes lr)]"
  unfolding log_record_Inr FromOTLPLike_Inr Let_def by (elim conjE) simp

lemma log_record_wf: "log_record sprint now ra lr = Inr ev \<Longrightarrow> event_wf ev"
  unfolding log_record_Inr by (rule FromOTLPLike_wf)

lemma log_record_utc: "log_record sprint now ra lr = Inr ev \<Longrightarrow> time_wf now \<Longrightarrow> utc_time (Timestamp ev)"
  unfolding log_record_Inr
  by (erule FromOTLPLike_utc) (use utc_UnixNano [of "sint (lr_TimeUnixNano lr)"] utc_UTC [of now] in
    \<open>simp_all add: utc_time_def\<close>)

lemma LogEventsFromOTLP_events:
  assumes "LogEventsFromOTLP sprint now (Some req) = Inr evs" and "ev \<in> set evs"
  obtains i ra lr where "log_record sprint (now i) ra lr = Inr ev"
  using assms unfolding LogEventsFromOTLP_flat flat_loop_Inr
  by (auto simp: list_all2_conv_all_nth accepts_def in_set_conv_nth split: prod.splits) (metis prod_cases3)

lemma LogEventsFromOTLP_wf:
  assumes "LogEventsFromOTLP sprint now (Some req) = Inr evs" and "\<And>i. time_wf (now i)"
  shows "list_all (\<lambda>ev. event_wf ev \<and> utc_time (Timestamp ev)) evs"
  using LogEventsFromOTLP_events [OF assms(1)] log_record_wf log_record_utc assms(2)
  unfolding list_all_iff by metis

section \<open>Attribute lists\<close>

text \<open>The last value that a list gives to a key.\<close>

fun last_kv :: "KeyValue option list \<Rightarrow> string \<Rightarrow> AnyValue option option \<Rightarrow> AnyValue option option" where
  "last_kv [] k acc = acc"
| "last_kv (kv # kvs) k acc =
     last_kv kvs k (case kv of Some x \<Rightarrow> if kv_Key x = k then Some (kv_Value x) else acc | None \<Rightarrow> acc)"

lemma gm_wf_kv_loop: "gm_wf out \<Longrightarrow> gm_wf (kv_loop sprint kvs out)"
  by (induction kvs arbitrary: out) (auto simp: gm.wf_put split: option.splits)

lemma gm_get_kv_loop:
  assumes "gm_wf out" and "gm_get out k = map_option (anyValueToString sprint) acc" and "k \<noteq> []"
  shows "gm_get (kv_loop sprint kvs out) k = map_option (anyValueToString sprint) (last_kv kvs k acc)"
  using assms
proof (induction kvs arbitrary: out acc)
  case (Cons kv kvs)
  show ?case
  proof (cases kv)
    case None
    with Cons show ?thesis by simp
  next
    case (Some x)
    let ?acc = "if kv_Key x = k then Some (kv_Value x) else acc"
    let ?out = "if kv_Key x = [] then out else gm_put (kv_Key x) (anyValueToString sprint (kv_Value x)) out"
    have "gm_get (kv_loop sprint kvs ?out) k = map_option (anyValueToString sprint) (last_kv kvs k ?acc)"
      by (rule Cons.IH) (use Cons.prems in \<open>auto simp: gm.wf_put gm.get_put\<close>)
    with Some Cons.prems(3) show ?thesis by (auto split: if_splits)
  qed
qed simp

lemma gm_get_kv_loop_Nil: "gm_wf out \<Longrightarrow> gm_get (kv_loop sprint kvs out) [] = gm_get out []"
  by (induction kvs arbitrary: out) (auto simp: gm.wf_put gm.get_put split: option.splits)

lemma opt_wf_keyValues: "opt_wf (keyValuesToMap sprint kvs)"
  using gm_wf_kv_loop [OF gm.wf_empty] gm.wf_empty by (auto simp: opt_wf_def keyValuesToMap_def entries_def)

lemma attr_get_keyValues:
  "attr_get (keyValuesToMap sprint kvs) k =
     (if k = [] then None else map_option (anyValueToString sprint) (last_kv kvs k None))"
  using gm_get_kv_loop [OF gm.wf_empty, of k sprint None kvs] gm_get_kv_loop_Nil [OF gm.wf_empty, of sprint kvs]
  by (auto simp: attr_get_def keyValuesToMap_def entries_def gm.get_empty)

lemma attr_get_merge2:
  assumes "opt_wf ra" and "opt_wf la" and "k \<noteq> []"
  shows "attr_get (mergeAttrs [ra, la]) k = (case attr_get la k of Some v \<Rightarrow> Some v | None \<Rightarrow> attr_get ra k)"
  using assms gm_get_merge_maps [OF _ gm.wf_empty, of "[ra, la]" k]
  by (auto simp: attr_get_def entries_mergeAttrs gm.get_empty split: option.splits)

lemma last_kv_acc: "last_kv kvs k acc = (case last_kv kvs k None of Some v \<Rightarrow> Some v | None \<Rightarrow> acc)"
proof (induction kvs arbitrary: acc)
  case (Cons kv kvs)
  show ?case using Cons [of "Some _"] Cons [of acc] by (auto split: option.splits)
qed simp

lemma ex_list_all2: "(\<exists>ys. list_all2 P xs ys) \<longleftrightarrow> (\<forall>x \<in> set xs. \<exists>y. P x y)"
  by (induction xs) (auto simp: list_all2_Cons1)

section \<open>Properties\<close>

text \<open>
  C14. An export request is converted as a whole or not at all: the result holds one event for each
  log record, in the order of resources, scopes and records, when every record is accepted, and is
  an error when one of them is refused.
\<close>

theorem LogEventsFromOTLP_all_or_nothing:
  "(LogEventsFromOTLP sprint now (Some req) = Inr evs \<longleftrightarrow>
      list_all2 (\<lambda>(i, ra, lr) ev. log_record sprint (now i) ra lr = Inr ev)
        (enumerate 0 (otlp_records sprint req)) evs)
   \<and> ((\<exists>e. LogEventsFromOTLP sprint now (Some req) = Inl e) \<longleftrightarrow>
      (\<exists>(i, ra, lr) \<in> set (enumerate 0 (otlp_records sprint req)). \<exists>e. log_record sprint (now i) ra lr = Inl e))"
proof -
  let ?rs = "enumerate 0 (otlp_records sprint req)"
  have inr: "LogEventsFromOTLP sprint now (Some req) = Inr es \<longleftrightarrow> list_all2 (accepts sprint now) ?rs es" for es
    unfolding LogEventsFromOTLP_flat flat_loop_Inr by simp
  have "(\<exists>es. LogEventsFromOTLP sprint now (Some req) = Inr es) \<longleftrightarrow> (\<forall>r \<in> set ?rs. \<exists>ev. accepts sprint now r ev)"
    unfolding inr by (rule ex_list_all2)
  moreover have "(\<exists>e. LogEventsFromOTLP sprint now (Some req) = Inl e) \<longleftrightarrow>
      \<not> (\<exists>es. LogEventsFromOTLP sprint now (Some req) = Inr es)"
    by (cases "LogEventsFromOTLP sprint now (Some req)") simp_all
  ultimately have "(\<exists>e. LogEventsFromOTLP sprint now (Some req) = Inl e) \<longleftrightarrow>
      (\<exists>r \<in> set ?rs. case r of (i, ra, lr) \<Rightarrow> \<exists>e. log_record sprint (now i) ra lr = Inl e)"
    by (simp only: not_accepts [symmetric] ball_simps bex_simps not_all)
  moreover have "accepts sprint now = (\<lambda>(i, ra, lr) ev. log_record sprint (now i) ra lr = Inr ev)"
    by (auto simp: fun_eq_iff accepts_def)
  ultimately show ?thesis using inr [of evs] by (simp only: simp_thms)
qed

text \<open>
  C24. A log record's own attributes override those of its resource, the last of several equal keys
  counts, and the empty key is dropped.
\<close>

theorem log_record_attributes:
  assumes "log_record sprint now (keyValuesToMap sprint rattrs) lr = Inr ev"
  shows "attr_get (Attrs ev) k =
     (if k = [] then None
      else map_option (anyValueToString sprint) (last_kv (lr_Attributes lr) k (last_kv rattrs k None)))"
proof (cases "k = []")
  case True
  then show ?thesis
    using gm_get_merge_maps_Nil [OF _ gm.wf_empty, of "[keyValuesToMap sprint rattrs, keyValuesToMap sprint (lr_Attributes lr)]"]
    by (simp add: log_record_Attrs [OF assms] attr_get_def entries_mergeAttrs gm.get_empty opt_wf_keyValues)
next
  case False
  let ?la = "keyValuesToMap sprint (lr_Attributes lr)" and ?ra = "keyValuesToMap sprint rattrs"
  have "attr_get (Attrs ev) k = (case attr_get ?la k of Some v \<Rightarrow> Some v | None \<Rightarrow> attr_get ?ra k)"
    unfolding log_record_Attrs [OF assms] by (rule attr_get_merge2 [OF opt_wf_keyValues opt_wf_keyValues False])
  with False show ?thesis
    by (simp add: attr_get_keyValues last_kv_acc [of "lr_Attributes lr" k "last_kv rattrs k None"] split: option.splits)
qed

definition sample_record :: LogRecord where
  "sample_record =
     \<lparr>lr_TimeUnixNano = 1700000000000000000, lr_SeverityNumber = 13, lr_SeverityText = [],
      lr_Body = Some (StringValue ''slow query''),
      lr_Attributes = [Some \<lparr>kv_Key = ''env'', kv_Value = Some (BoolValue True)\<rparr>, None,
                       Some \<lparr>kv_Key = ''env'', kv_Value = Some (BoolValue False)\<rparr>]\<rparr>"

definition sample_resource :: "KeyValue option list" where
  "sample_resource =
     [Some \<lparr>kv_Key = ''service.name'', kv_Value = Some (StringValue ''api'')\<rparr>,
      Some \<lparr>kv_Key = ''env'', kv_Value = None\<rparr>]"

lemma sample_record_ok:
  "\<exists>ev. log_record (\<lambda>_. []) zero_time (keyValuesToMap (\<lambda>_. []) sample_resource) sample_record = Inr ev"
proof -
  let ?ra = "keyValuesToMap (\<lambda>_. []) sample_resource"
  let ?la = "keyValuesToMap (\<lambda>_. []) (lr_Attributes sample_record)"
  have "attr_get (mergeAttrs [?ra, ?la]) ''service.name'' = Some ''api''"
    by (simp add: attr_get_merge2 opt_wf_keyValues attr_get_keyValues sample_record_def sample_resource_def anyValueToString_def)
  then have "firstAttr (mergeAttrs [?ra, ?la]) [''service.name'', ''service''] = ''api''"
    by (simp add: attr_get_def)
  moreover have "NormalizeLogLevel LevelWarn = LevelWarn" "ValidLogLevel LevelWarn"
    using level_fixed(4,5) [of LevelWarn] by (simp_all add: levels_def)
  moreover have "sint (1700000000000000000 :: uint64) = 1700000000000000000" by simp
  ultimately show ?thesis
    unfolding log_record_Inr FromOTLPLike_Inr Validate_None Let_def
    by (simp add: sample_record_def severityNumberToText_def anyValueToString_def sample_trim
        IsZero_def UTC_def UnixNano_UTC_def unixToInternal_def)
qed

theorem log_record_attributes_witness:
  "\<exists>ev. log_record (\<lambda>_. []) zero_time (keyValuesToMap (\<lambda>_. []) sample_resource) sample_record = Inr ev
     \<and> attr_get (Attrs ev) ''env'' = Some ''false''"
proof -
  obtain ev where ev: "log_record (\<lambda>_. []) zero_time (keyValuesToMap (\<lambda>_. []) sample_resource) sample_record = Inr ev"
    using sample_record_ok by blast
  from log_record_attributes [OF this, of "''env''"] have "attr_get (Attrs ev) ''env'' = Some ''false''"
    by (simp add: sample_record_def sample_resource_def anyValueToString_def FormatBool_def)
  with ev show ?thesis by blast
qed

text \<open>
  The severities of the OTLP log data model: the numbers 1 to 24 are six groups of four, TRACE to FATAL.
  And the order of the levels of the program.
\<close>

definition severity_groups :: "string list" where
  "severity_groups = [''TRACE'', ''DEBUG'', ''INFO'', ''WARN'', ''ERROR'', ''FATAL'']"

definition level_rank :: "string \<Rightarrow> nat" where
  "level_rank l = (if l = LevelDebug then 0 else if l = LevelInfo then 1 else if l = LevelWarn then 2
     else if l = LevelError then 3 else 4)"

lemma severity_group:
  assumes "5 \<le> n" and "n \<le> 24"
  shows "severityNumberToText n = severity_groups ! nat ((n - 1) div 4)"
proof -
  define q where "q = (n - 1) div 4"
  have n: "4 * q + 1 \<le> n" "n \<le> 4 * q + 4" unfolding q_def by linarith+
  then consider "q = 1" | "q = 2" | "q = 3" | "q = 4" | "q = 5" using assms by linarith
  then have "severityNumberToText n = severity_groups ! nat q"
    by cases (use n in \<open>simp_all add: severityNumberToText_def severity_groups_def level_defs eval_nat_numeral\<close>)
  then show ?thesis by (simp add: q_def)
qed

text \<open>
  C40. A severity number of the OTLP groups DEBUG to FATAL becomes the level of its group's name, those
  of the group TRACE and numbers below 1 become INFO, and numbers above 24 become FATAL. So from DEBUG
  upwards the order is kept, but every TRACE number gets a level above that of every DEBUG number.
\<close>

theorem severity_levels:
  "(5 \<le> n \<and> n \<le> 24 \<longrightarrow> severityNumberToText n = severity_groups ! nat ((n - 1) div 4))
   \<and> (n \<le> 4 \<longrightarrow> severityNumberToText n = LevelInfo) \<and> (24 < n \<longrightarrow> severityNumberToText n = LevelFatal)
   \<and> (5 \<le> m \<and> m \<le> n \<longrightarrow> level_rank (severityNumberToText m) \<le> level_rank (severityNumberToText n))
   \<and> (1 \<le> m \<and> m \<le> 4 \<and> 5 \<le> n \<and> n \<le> 8 \<longrightarrow>
        level_rank (severityNumberToText n) < level_rank (severityNumberToText m))"
proof -
  have "level_rank (severityNumberToText m) \<le> level_rank (severityNumberToText n)" if "5 \<le> m \<and> m \<le> n"
    using that by (auto simp: severityNumberToText_def level_rank_def level_defs)
  moreover have "level_rank (severityNumberToText n) < level_rank (severityNumberToText m)"
    if "1 \<le> m \<and> m \<le> 4 \<and> 5 \<le> n \<and> n \<le> 8"
    using that by (auto simp: severityNumberToText_def level_rank_def level_defs)
  moreover have "severityNumberToText n = LevelInfo" if "n \<le> 4" using that by (simp add: severityNumberToText_def)
  moreover have "severityNumberToText n = LevelFatal" if "24 < n" using that by (simp add: severityNumberToText_def)
  ultimately show ?thesis using severity_group by blast
qed

theorem severity_levels_witness:
  "severityNumberToText 2 = LevelInfo \<and> severityNumberToText 8 = ''DEBUG'' \<and> severityNumberToText 20 = ''ERROR''
   \<and> level_rank (severityNumberToText 5) < level_rank (severityNumberToText 2)
   \<and> level_rank (severityNumberToText 8) \<le> level_rank (severityNumberToText 20)"
  using severity_levels [of 8 2] severity_levels [of 20 8] severity_levels [of 2 5] severity_levels [of 5 2]
  by (auto simp: severity_groups_def eval_nat_numeral)

end
