(* ===== verification/Gateway_Facts.thy ===== *)
theory Gateway_Facts
  imports Gateway Otlp_Facts
begin

text \<open>
  Properties of \<^verbatim>\<open>cmd/gateway\<close>: what the publishing loop and the handlers do to the broker's log, the
  counters and the response, over any broker that keeps the contract \<open>event_publisher\<close> and so over
  Redpanda, and which requests reach the handlers.
\<close>

section \<open>Publishing\<close>

text \<open>The payloads of a list of events, each of them once or in up to \<open>n\<close> copies.\<close>

fun payloads :: "nat \<Rightarrow> LogEvent list \<Rightarrow> bytes list \<Rightarrow> bool" where
  "payloads n [] ps \<longleftrightarrow> ps = []"
| "payloads n (ev # evs) ps \<longleftrightarrow>
     (\<exists>p k qs. MarshalEvent ev = Inr p \<and> 1 \<le> k \<and> k \<le> n \<and> ps = replicate k p @ qs \<and> payloads n evs qs)"

lemma payloads_set: "payloads n evs ps \<Longrightarrow> p \<in> set ps \<Longrightarrow> \<exists>ev \<in> set evs. MarshalEvent ev = Inr p"
  by (induction evs arbitrary: ps) fastforce+

context event_publisher
begin

lemma publish_from_ok:
  "publish_from publish t ctx i evs s = (None, s') \<Longrightarrow>
     \<exists>ps. payloads copies evs ps \<and> log_of s' = (log_of s)(t := log_of s t @ ps)"
proof (induction evs arbitrary: i s)
  case Nil
  then show ?case by (simp add: fun_eq_iff)
next
  case (Cons ev evs)
  obtain r s1 where p: "publish s (ctx i) t ev = (r, s1)" by (cases "publish s (ctx i) t ev")
  with Cons.prems have r: "r = None" "publish_from publish t ctx (i + 1) evs s1 = (None, s')"
    by (auto split: option.splits)
  from publish_ok p r(1) obtain b n where b: "MarshalEvent ev = Inr b" "1 \<le> n" "n \<le> copies"
    "log_of s1 = (log_of s)(t := log_of s t @ replicate n b)" by blast
  from Cons.IH [OF r(2)] obtain ps where "payloads copies evs ps" "log_of s' = (log_of s1)(t := log_of s1 t @ ps)"
    by blast
  with b have "payloads copies (ev # evs) (replicate n b @ ps)"
    and "log_of s' = (log_of s)(t := log_of s t @ replicate n b @ ps)" by auto
  then show ?case by blast
qed

text \<open>
  A failure at event \<open>k\<close> leaves the events before it in the log, and perhaps copies of the one that
  failed.
\<close>

lemma publish_from_err:
  "publish_from publish t ctx i evs s = (Some e, s') \<Longrightarrow>
     \<exists>k ps qs e'. k < length evs \<and> e = Wrap ''publish event[%d]: %w'' [ArgD (int (i + k))] e'
       \<and> payloads copies (take k evs) ps
       \<and> (qs = [] \<or> (\<exists>p n. MarshalEvent (evs ! k) = Inr p \<and> n \<le> copies \<and> qs = replicate n p))
       \<and> log_of s' = (log_of s)(t := log_of s t @ ps @ qs)"
proof (induction evs arbitrary: i s)
  case Nil
  then show ?case by simp
next
  case (Cons ev evs)
  obtain r s1 where p: "publish s (ctx i) t ev = (r, s1)" by (cases "publish s (ctx i) t ev")
  show ?case
  proof (cases r)
    case None
    with Cons.prems p have "publish_from publish t ctx (i + 1) evs s1 = (Some e, s')" by simp
    from Cons.IH [OF this] obtain k ps qs e' where k: "k < length evs"
      "e = Wrap ''publish event[%d]: %w'' [ArgD (int (i + 1 + k))] e'" "payloads copies (take k evs) ps"
      "qs = [] \<or> (\<exists>p n. MarshalEvent (evs ! k) = Inr p \<and> n \<le> copies \<and> qs = replicate n p)"
      "log_of s' = (log_of s1)(t := log_of s1 t @ ps @ qs)" by blast
    from publish_ok p None obtain b n where b: "MarshalEvent ev = Inr b" "1 \<le> n" "n \<le> copies"
      "log_of s1 = (log_of s)(t := log_of s t @ replicate n b)" by blast
    have "payloads copies (take (Suc k) (ev # evs)) (replicate n b @ ps)" using b k(3) by auto
    moreover have "log_of s' = (log_of s)(t := log_of s t @ (replicate n b @ ps) @ qs)" using b(4) k(5) by simp
    ultimately show ?thesis
      using k(1,2,4) by (intro exI [of _ "Suc k"] exI [of _ "replicate n b @ ps"] exI [of _ qs] exI [of _ e']) simp
  next
    case (Some e')
    with Cons.prems p have e: "e = Wrap ''publish event[%d]: %w'' [ArgD (int i)] e'" "s1 = s'" by auto
    from publish_err p Some e(2) obtain qs where
      "qs = [] \<or> (\<exists>p n. MarshalEvent ev = Inr p \<and> n \<le> copies \<and> qs = replicate n p)"
      "log_of s' = (log_of s)(t := log_of s t @ qs)" by (metis append_Nil2 fun_upd_triv)
    with e(1) show ?thesis by (intro exI [of _ 0] exI [of _ "[]"] exI [of _ qs] exI [of _ e']) simp
  qed
qed

lemmas publishEvents_ok = publish_from_ok [of _ _ 0, folded publishEvents_def]
lemmas publishEvents_err = publish_from_err [of _ _ 0, folded publishEvents_def, simplified]

text \<open>In every case only payloads of the given events are appended, and only to the topic.\<close>

lemma publishEvents_log:
  assumes "publishEvents publish t ctx evs s = (r, s')"
  shows "\<exists>ps. log_of s' = (log_of s)(t := log_of s t @ ps) \<and> (\<forall>p \<in> set ps. \<exists>ev \<in> set evs. MarshalEvent ev = Inr p)"
proof (cases r)
  case None
  with assms have "publishEvents publish t ctx evs s = (None, s')" by simp
  from publishEvents_ok [OF this] payloads_set show ?thesis by metis
next
  case (Some e)
  with assms have "publishEvents publish t ctx evs s = (Some e, s')" by simp
  from publishEvents_err [OF this] obtain k ps qs where k: "k < length evs" "payloads copies (take k evs) ps"
    "qs = [] \<or> (\<exists>p n. MarshalEvent (evs ! k) = Inr p \<and> n \<le> copies \<and> qs = replicate n p)"
    "log_of s' = (log_of s)(t := log_of s t @ ps @ qs)" by blast
  have "\<exists>ev \<in> set evs. MarshalEvent ev = Inr p" if "p \<in> set (ps @ qs)" for p
    using that k(1,3) payloads_set [OF k(2)] by (auto dest: in_set_takeD)
  with k(4) show ?thesis by blast
qed

end

section \<open>Handlers\<close>

text \<open>The ways a REST request can end.\<close>

lemma ingest_cases:
  assumes "ingest_ServeHTTP pub topic now r (s, m) = (resp, (s', m'))"
  obtains (refused) msg e where "resp = writeErr 400 msg e" "s' = s" "m' = incRestErr m"
      "\<forall>payload ev. decode_body r = Inr payload \<longrightarrow> FromREST now payload \<noteq> Inr ev"
  | (failed) payload ev e where "decode_body r = Inr payload" "FromREST now payload = Inr ev"
      "publishEvents pub topic (r_ctx r) [ev] s = (Some e, s')"
      "resp = writeErr 502 ''publish failed'' e" "m' = incRestErr m"
  | (created) payload ev where "decode_body r = Inr payload" "FromREST now payload = Inr ev"
      "publishEvents pub topic (r_ctx r) [ev] s = (None, s')"
      "resp = \<lparr>w_Status = 201, w_ContentType = Some ''application/json'',
               w_Body = SuccessBody (ID ev) (Service ev)\<rparr>" "m' = incRestOK m"
  using assms by (auto simp: ingest_ServeHTTP_def split: sum.splits prod.splits option.splits)

text \<open>The ways an OTLP export can end, after the request is decoded.\<close>

lemma Export_cases:
  assumes "Export d pub topic now ctx req (s, m) = (er, (s', m'))"
  obtains (refused) e where "LogEventsFromOTLP (proto_sprint d) now req = Inl e" "er = Some e"
      "s' = s" "m' = incOTLPErr m"
  | (nothing) "LogEventsFromOTLP (proto_sprint d) now req = Inr []" "er = None" "s' = s" "m' = incOTLPOK 0 m"
  | (failed) evs e where "LogEventsFromOTLP (proto_sprint d) now req = Inr evs" "evs \<noteq> []"
      "publishEvents pub topic ctx evs s = (Some e, s')" "er = Some (Wrap ''publish failed: %w'' [] e)"
      "m' = incOTLPErr m"
  | (published) evs where "LogEventsFromOTLP (proto_sprint d) now req = Inr evs" "evs \<noteq> []"
      "publishEvents pub topic ctx evs s = (None, s')" "er = None" "m' = incOTLPOK (of_nat (length evs)) m"
  using assms by (auto simp: Export_def split: sum.splits prod.splits option.splits if_splits)

text \<open>The HTTP handler is the gRPC method behind the reading and decoding of the body.\<close>

definition otlp_decoded :: "decoders \<Rightarrow> request \<Rightarrow> (string \<times> err) + ExportLogsServiceRequest" where
  "otlp_decoded d r =
     (case read_limited r of Inl e \<Rightarrow> Inl (''read body failed'', e) | Inr body \<Rightarrow> decode_otlp d r body)"

definition export_response ::
  "(AnyValue \<Rightarrow> string) \<Rightarrow> (nat \<Rightarrow> gotime) \<Rightarrow> ExportLogsServiceRequest \<Rightarrow> err option \<Rightarrow> response" where
  "export_response sprint now req er =
     (case er of None \<Rightarrow> status_only 200
      | Some e \<Rightarrow>
          (case LogEventsFromOTLP sprint now (Some req) of
             Inl _ \<Rightarrow> writeErr 400 ''otlp mapping failed'' e
           | Inr _ \<Rightarrow>
               writeErr 502 ''publish failed'' (case e of Wrap _ _ e' \<Rightarrow> e' | _ \<Rightarrow> e)))"

lemma otlp_ServeHTTP_Export:
  "otlp_ServeHTTP d pub topic now r st =
     (case otlp_decoded d r of
        Inl (msg, e) \<Rightarrow> (writeErr 400 msg e, (fst st, incOTLPErr (snd st)))
      | Inr req \<Rightarrow>
          (let (er, st') = Export d pub topic now (r_ctx r) (Some req) st
           in (export_response (proto_sprint d) now req er, st')))"
  by (auto simp: otlp_ServeHTTP_def otlp_decoded_def Export_def export_response_def
      split: sum.splits prod.splits option.splits)

section \<open>Start\<close>

text \<open>
  C33. The gateway starts whenever it can listen on its gRPC address, whatever the environment says:
  the broker list is never empty, so the broker is always constructed, and the gRPC address is never
  empty, so the gRPC server, which checks no API key, cannot be switched off by a setting.
\<close>

theorem gateway_start_outcomes:
  "gateway_start listen env =
     (let cfg = gateway_config_of env in
      case listen (gc_otlpGRPCAddr cfg) of
        Some e \<Rightarrow> Fatal ''otlp grpc'' e
      | None \<Rightarrow> Started \<lparr>gw_cfg = cfg,
          gw_bus = \<lparr>rp_cfg = \<lparr>cfg_Brokers = gc_brokers cfg, cfg_ClientID = gc_clientID cfg, cfg_GroupID = ''apexio-writer''\<rparr>,
                    rp_writer = True, rp_closed = False\<rparr>,
          gw_grpc = True\<rparr>)"
proof -
  let ?cfg = "gateway_config_of env"
  have "gc_brokers ?cfg \<noteq> []" "gc_clientID ?cfg \<noteq> []" "gc_otlpGRPCAddr ?cfg \<noteq> []"
    by (simp_all add: gateway_config_of_def Split_not_Nil envOr_def)
  then show ?thesis
    by (simp add: gateway_start_def Let_def NewRedpanda_def startOTLPGRPC_def split: option.split)
qed

end
