(* ===== verification/Sample_Client.thy ===== *)
theory Sample_Client
  imports Gateway_Facts
begin

text \<open>
  The sample client \<^verbatim>\<open>examples/sample-client\<close>: the two requests it sends and its exit status. The
  network is a parameter \<open>send\<close> that takes the URL and the request to the status and the body of the
  response, or to an error; \<^verbatim>\<open>proto.Marshal\<close> is a parameter \<open>pmarshal\<close>; the values of the flags and of
  each \<^verbatim>\<open>time.Now()\<close> are arguments.
\<close>

section \<open>Requests\<close>

type_synonym 's transport = "string \<Rightarrow> request \<Rightarrow> 's \<Rightarrow> (nat \<times> string) res \<times> 's"

definition UnixNano :: "gotime \<Rightarrow> int" where
  "UnixNano t = wrap64 ((t_sec t - unixToInternal) * 1000000000 + int (t_nsec t))"

text \<open>The duration 5.5 that the client reports, as a float64.\<close>

definition client_duration :: float64 where
  "client_duration = 0x4016000000000000"

text \<open>\<^verbatim>\<open>json.Marshal\<close> writes the entries of a map in the order of their keys.\<close>

definition rest_body :: "int \<Rightarrow> int \<Rightarrow> string \<Rightarrow> string \<Rightarrow> bytes res" where
  "rest_body nano milli message service =
     bind_res (float_text client_duration) (\<lambda>dur.
       Inr (object_text
         [(''id'', show_int nano),
          (''logLevel'', quote ''INFO''),
          (''message'', quote message),
          (''metadata'', object_text
             [(''requestId'', quote ''sample-req''),
              (''requestMethod'', quote ''POST''),
              (''requestPath'', quote ''/sample''),
              (''responseDuration'', dur),
              (''responseStatus'', show_int 200)]),
          (''source'', object_text
             [(''environment'', quote ''dev''), (''host'', quote ''localhost''), (''service'', quote service)]),
          (''timestamp'', show_int milli)]))"

definition post :: "string \<Rightarrow> string \<Rightarrow> bytes \<Rightarrow> request" where
  "post path ctype body =
     \<lparr>r_Method = ''POST'', r_Path = path, r_Header = [''Content-Type'' \<mapsto> [ctype]], r_Body = body,
      r_BodyErr = None, r_ctx = (\<lambda>_. None)\<rparr>"

definition sendREST ::
  "'s transport \<Rightarrow> gotime \<Rightarrow> gotime \<Rightarrow> string \<Rightarrow> string \<Rightarrow> string \<Rightarrow> 's \<Rightarrow> err option \<times> 's" where
  "sendREST send now1 now2 gateway message service s =
     (case rest_body (UnixNano now1) (UnixMilli now2) message service of
        Inl e \<Rightarrow> (Some e, s)
      | Inr body \<Rightarrow>
          (case send (gateway @ ''/api/v1/log'') (post ''/api/v1/log'' ''application/json'' body) s of
             (Inl e, s') \<Rightarrow> (Some e, s')
           | (Inr (code, b), s') \<Rightarrow>
               if code \<noteq> 201
               then (Some (ErrNew (''rest status '' @ show_nat code @ '': '' @ b)), s')
               else (None, s')))"

definition otlp_request :: "gotime \<Rightarrow> string \<Rightarrow> string \<Rightarrow> ExportLogsServiceRequest" where
  "otlp_request now message service =
     \<lparr>req_ResourceLogs =
        [\<lparr>rl_Attributes =
            [Some \<lparr>kv_Key = ''service.name'', kv_Value = Some (StringValue service)\<rparr>,
             Some \<lparr>kv_Key = ''deployment.environment'', kv_Value = Some (StringValue ''dev'')\<rparr>],
          rl_ScopeLogs =
            [\<lparr>sl_LogRecords =
                [\<lparr>lr_TimeUnixNano = word_of_int (UnixNano now),
                  lr_SeverityNumber = 0,
                  lr_SeverityText = ''INFO'',
                  lr_Body = Some (StringValue message),
                  lr_Attributes =
                    [Some \<lparr>kv_Key = ''http.request.method'', kv_Value = Some (StringValue ''POST'')\<rparr>]\<rparr>]\<rparr>]\<rparr>]\<rparr>"

definition sendOTLP ::
  "(ExportLogsServiceRequest \<Rightarrow> bytes res) \<Rightarrow> 's transport \<Rightarrow> gotime \<Rightarrow> string \<Rightarrow> string \<Rightarrow> string \<Rightarrow> 's
   \<Rightarrow> err option \<times> 's" where
  "sendOTLP pmarshal send now gateway message service s =
     (case pmarshal (otlp_request now message service) of
        Inl e \<Rightarrow> (Some e, s)
      | Inr body \<Rightarrow>
          (case send (gateway @ ''/v1/logs'') (post ''/v1/logs'' ''application/x-protobuf'' body) s of
             (Inl e, s') \<Rightarrow> (Some e, s')
           | (Inr (code, b), s') \<Rightarrow>
               if code \<noteq> 200
               then (Some (ErrNew (''otlp status '' @ show_nat code @ '': '' @ b)), s')
               else (None, s')))"

section \<open>The program\<close>

record client_flags =
  fl_gateway :: string
  fl_mode :: string
  fl_message :: string
  fl_service :: string

definition client_envOr :: "(string \<Rightarrow> string) \<Rightarrow> string \<Rightarrow> string \<Rightarrow> string" where
  "client_envOr env key fallback = (if env key \<noteq> [] then env key else fallback)"

text \<open>The values of the flags that are not given.\<close>

definition client_defaults :: "(string \<Rightarrow> string) \<Rightarrow> client_flags" where
  "client_defaults env =
     \<lparr>fl_gateway = client_envOr env ''APEXIO_GATEWAY'' ''http://127.0.0.1:18080'', fl_mode = ''both'',
      fl_message = [], fl_service = ''sample-client''\<rparr>"

text \<open>The message that is sent; the default ends in the Unix time.\<close>

definition client_message :: "gotime \<Rightarrow> client_flags \<Rightarrow> string" where
  "client_message now fl =
     (if fl_message fl = [] then ''sample-client-'' @ show_int (t_sec now - unixToInternal) else fl_message fl)"

text \<open>\<open>client_main\<close> is the exit status and the state of the network; \<open>now k\<close> is the \<open>k\<close>-th \<^verbatim>\<open>time.Now()\<close>.\<close>

definition client_main ::
  "(ExportLogsServiceRequest \<Rightarrow> bytes res) \<Rightarrow> 's transport \<Rightarrow> (nat \<Rightarrow> gotime) \<Rightarrow> client_flags \<Rightarrow> 's \<Rightarrow> nat \<times> 's" where
  "client_main pmarshal send now fl s =
     (let msg = client_message (now 0) fl;
          gateway = fl_gateway fl; service = fl_service fl;
          exit = (\<lambda>(er, s'). (case er of None \<Rightarrow> 0 | Some e \<Rightarrow> 1, s'))
      in if fl_mode fl = ''rest'' then exit (sendREST send (now 1) (now 2) gateway msg service s)
         else if fl_mode fl = ''otlp'' then exit (sendOTLP pmarshal send (now 3) gateway msg service s)
         else if fl_mode fl = ''both'' then
           (case sendREST send (now 1) (now 2) gateway (msg @ ''-rest'') service s of
              (Some e, s') \<Rightarrow> (1, s')
            | (None, s') \<Rightarrow> exit (sendOTLP pmarshal send (now 3) gateway (msg @ ''-otlp'') service s'))
         else (2, s))"

section \<open>What the gateway reads\<close>

definition rest_values :: "int \<Rightarrow> int \<Rightarrow> string \<Rightarrow> string \<Rightarrow> string \<Rightarrow> (string \<times> string \<times> json) list" where
  "rest_values nano milli message service dur =
     [(''id'', show_int nano, JNum (show_int nano)),
      (''logLevel'', quote ''INFO'', JStr (escape_body ''INFO'')),
      (''message'', quote message, JStr (escape_body message)),
      (''metadata'', object_text
         [(''requestId'', quote ''sample-req''),
          (''requestMethod'', quote ''POST''),
          (''requestPath'', quote ''/sample''),
          (''responseDuration'', dur),
          (''responseStatus'', show_int 200)],
       JObj
         [(escape_body ''requestId'', JStr (escape_body ''sample-req'')),
          (escape_body ''requestMethod'', JStr (escape_body ''POST'')),
          (escape_body ''requestPath'', JStr (escape_body ''/sample'')),
          (escape_body ''responseDuration'', JNum dur),
          (escape_body ''responseStatus'', JNum (show_int 200))]),
      (''source'', object_text
         [(''environment'', quote ''dev''), (''host'', quote ''localhost''), (''service'', quote service)],
       JObj
         [(escape_body ''environment'', JStr (escape_body ''dev'')),
          (escape_body ''host'', JStr (escape_body ''localhost'')),
          (escape_body ''service'', JStr (escape_body service))]),
      (''timestamp'', show_int milli, JNum (show_int milli))]"

lemma number_text_show_int: "0 \<le> i \<Longrightarrow> number_text (show_int i)"
  by (simp add: show_int_def number_text_show_nat)

lemma value_text_flat:
  assumes "list_all (\<lambda>(k, t, v). value_text 0 t v) ms"
  shows "value_text 1 (object_text (map (\<lambda>(k, t, v). (k, t)) ms)) (JObj (map (\<lambda>(k, t, v). (escape_body k, v)) ms))"
proof -
  have "value_text (0 + 1) (object_text (map (\<lambda>(k, t, v). (k, t)) ms)) (JObj (map (\<lambda>(k, t, v). (escape_body k, v)) ms))"
    by (rule value_text_object) (use assms in \<open>auto simp: list_all_iff\<close>)
  then show ?thesis by simp
qed

lemma rest_values_texts:
  assumes "0 \<le> nano" and "0 \<le> milli" and "number_text dur"
  shows "list_all (\<lambda>(k, t, v). value_text 1 t v) (rest_values nano milli message service dur)"
proof -
  have q: "value_text 1 (quote t) (JStr (escape_body t))" for t
    using value_text_mono [OF value_text_quote] by simp
  have n: "value_text 1 (show_int i) (JNum (show_int i))" if "0 \<le> i" for i
    using value_text_mono [OF value_text_number [OF number_text_show_int [OF that]]] by simp
  have m: "value_text 1 (object_text
         [(''requestId'', quote ''sample-req''), (''requestMethod'', quote ''POST''),
          (''requestPath'', quote ''/sample''), (''responseDuration'', dur), (''responseStatus'', show_int 200)])
       (JObj
         [(escape_body ''requestId'', JStr (escape_body ''sample-req'')),
          (escape_body ''requestMethod'', JStr (escape_body ''POST'')),
          (escape_body ''requestPath'', JStr (escape_body ''/sample'')),
          (escape_body ''responseDuration'', JNum dur),
          (escape_body ''responseStatus'', JNum (show_int 200))])"
    using value_text_flat [of
      "[(''requestId'', quote ''sample-req'', JStr (escape_body ''sample-req'')),
        (''requestMethod'', quote ''POST'', JStr (escape_body ''POST'')),
        (''requestPath'', quote ''/sample'', JStr (escape_body ''/sample'')),
        (''responseDuration'', dur, JNum dur),
        (''responseStatus'', show_int 200, JNum (show_int 200))]"]
    by (simp add: value_text_quote value_text_number assms number_text_show_int)
  have s: "value_text 1 (object_text
         [(''environment'', quote ''dev''), (''host'', quote ''localhost''), (''service'', quote service)])
       (JObj
         [(escape_body ''environment'', JStr (escape_body ''dev'')),
          (escape_body ''host'', JStr (escape_body ''localhost'')),
          (escape_body ''service'', JStr (escape_body service))])"
    using value_text_flat [of
      "[(''environment'', quote ''dev'', JStr (escape_body ''dev'')),
        (''host'', quote ''localhost'', JStr (escape_body ''localhost'')),
        (''service'', quote service, JStr (escape_body service))]"]
    by (simp add: value_text_quote)
  show ?thesis
    unfolding rest_values_def list.pred_inject prod.case
    by (intro conjI TrueI m s q n assms) simp
qed

text \<open>The payload that the gateway decodes from the client's request.\<close>

definition client_payload :: "int \<Rightarrow> int \<Rightarrow> string \<Rightarrow> string \<Rightarrow> RESTPayload" where
  "client_payload nano milli message service =
     \<lparr>p_ID = word_of_int nano, p_Timestamp = word_of_int milli, p_LogLevel = ''INFO'', p_Message = coerce_utf8 message,
      p_Metadata = zero_metadata\<lparr>m_RequestID := ''sample-req'', m_RequestMethod := ''POST'', m_RequestPath := ''/sample'',
                    m_ResponseStatus := 200, m_ResponseDuration := client_duration\<rparr>,
      p_Source = \<lparr>s_Host = ''localhost'', s_Service = coerce_utf8 service, s_Environment = ''dev'', s_Extra = None\<rparr>\<rparr>"

lemma coerce_ascii: "is_ascii s \<Longrightarrow> coerce_utf8 s = s"
  using valid_utf8_ascii by (simp add: valid_utf8_def)

lemma dec_uint64_show_int:
  assumes "0 \<le> i" and "i < 2 ^ 64"
  shows "dec_uint64 old (JNum (show_int i)) = (word_of_int i, None)"
proof -
  have "show_int i = show_nat (unat (word_of_int i :: uint64))"
    using assms by (simp add: show_int_def unat_eq_nat_uint uint_word_of_int_eq take_bit_int_eq_self)
  then show ?thesis by (simp only: dec_uint64_show_nat)
qed

lemma dec_int_200: "dec_int old (JNum (show_int 200)) = (200, None)"
  by (simp add: go_eval show_int_def show_nat.simps ParseInt_def in_int64_def)

lemma dec_client_metadata:
  assumes "ParseFloat dur = Some client_duration"
  shows "dec_struct metadata_fields dec_metadata_field zero_metadata
     (JObj
         [(escape_body ''requestId'', JStr (escape_body ''sample-req'')),
          (escape_body ''requestMethod'', JStr (escape_body ''POST'')),
          (escape_body ''requestPath'', JStr (escape_body ''/sample'')),
          (escape_body ''responseDuration'', JNum dur),
          (escape_body ''responseStatus'', JNum (show_int 200))]) =
     (p_Metadata (client_payload nano milli message service), None)"
  using assms
  by (simp add: dec_struct_def dec_members_field fields_ascii metadata_fields_def dec_metadata_field_def
      dec_string_escape coerce_ascii dec_float_text dec_int_200 client_payload_def zero_metadata_def
      del: dec_members.simps(2))

lemma dec_client_source:
  "dec_struct source_fields dec_source_field zero_source
     (JObj
         [(escape_body ''environment'', JStr (escape_body ''dev'')),
          (escape_body ''host'', JStr (escape_body ''localhost'')),
          (escape_body ''service'', JStr (escape_body service))]) =
     (p_Source (client_payload nano milli message service), None)"
  by (simp add: dec_struct_def dec_members_field fields_ascii source_fields_def dec_source_field_def
      dec_string_escape coerce_ascii client_payload_def zero_source_def del: dec_members.simps(2))

lemma client_body_decodes:
  assumes "0 \<le> nano" "nano < 2 ^ 64" and "0 \<le> milli" "milli < 2 ^ 64"
  shows "\<exists>b. rest_body nano milli message service = Inr b
     \<and> json_Decode_payload b = Inr (client_payload nano milli message service)"
proof -
  have "f_finite client_duration" by (simp add: f_finite_def f_exp_def client_duration_def)
  then obtain dur where dur: "float_text client_duration = Inr dur" "number_text dur"
    "ParseFloat dur = Some client_duration"
    using float_text_reads_back by blast
  let ?vs = "rest_values nano milli message service dur"
  let ?b = "object_text (map (\<lambda>(k, t, v). (k, t)) ?vs)"
  have b: "rest_body nano milli message service = Inr ?b"
    by (simp add: rest_body_def dur rest_values_def)
  have "value_text (1 + 1) ?b (JObj (map (\<lambda>(k, t, v). (escape_body k, v)) ?vs))"
    by (rule value_text_object) (use rest_values_texts [OF assms(1,3) dur(2), of message service] in \<open>auto simp: list_all_iff\<close>)
  then have p: "parse_prefix ?b = Inr (JObj (map (\<lambda>(k, t, v). (escape_body k, v)) ?vs))"
    by (rule parse_prefix_value_text) (simp add: maxNestingDepth_def)
  have "dec_struct payload_fields dec_payload_field zero_payload (JObj (map (\<lambda>(k, t, v). (escape_body k, v)) ?vs)) =
      (client_payload nano milli message service, None)"
    unfolding dec_struct_def rest_values_def
    by (simp add: dec_members_field fields_ascii payload_fields_def dec_payload_field_def
        dec_string_escape coerce_ascii dec_uint64_show_int [OF assms(1,2)] dec_uint64_show_int [OF assms(3,4)]
        zero_payload_def
        dec_client_metadata [OF dur(3), of nano milli message service] dec_client_source [of _ nano milli message]
        del: dec_members.simps(2)) (simp add: client_payload_def)
  with p b show ?thesis by (simp add: json_Decode_payload_def)
qed

end
