(* ===== verification/Gateway_Props.thy ===== *)
theory Gateway_Props
  imports Sample_Client
begin

text \<open>
  Runs of the gateway over its routes: what a sequence of requests does to the broker's log and to
  the counters, which requests are let in, and the sample client against the gateway.
\<close>

section \<open>Routes\<close>

definition api_ok :: "gateway_config \<Rightarrow> request \<Rightarrow> bool" where
  "api_ok cfg r \<longleftrightarrow>
     gc_apiKey cfg = []
     \<or> TrimSpace (Header_Get (r_Header r) (if gc_apiHeader cfg = [] then ''X-API-Key'' else gc_apiHeader cfg)) = gc_apiKey cfg"

definition is_rest :: "request \<Rightarrow> bool" where
  "is_rest r \<longleftrightarrow> r_Method r = ''POST'' \<and> r_Path r = ''/api/v1/log''"

definition is_otlp :: "request \<Rightarrow> bool" where
  "is_otlp r \<longleftrightarrow> r_Method r = ''POST'' \<and> r_Path r = ''/v1/logs''"

lemma mux_rest:
  "is_rest r \<Longrightarrow> gateway_mux d pub cfg now r st =
     (if api_ok cfg r then ingest_ServeHTTP pub (gc_topic cfg) (now 0) r st else (unauthorized, st))"
  by (simp add: gateway_mux_def Let_def mux_dispatch_def is_rest_def Chain_foldr APIKey_apply api_ok_def)

lemma mux_otlp:
  "is_otlp r \<Longrightarrow> gateway_mux d pub cfg now r st =
     (if api_ok cfg r then otlp_ServeHTTP d pub (gc_topic cfg) now r st else (unauthorized, st))"
  by (simp add: gateway_mux_def Let_def mux_dispatch_def is_otlp_def Chain_foldr APIKey_apply api_ok_def)

lemma mux_other: "\<not> is_rest r \<Longrightarrow> \<not> is_otlp r \<Longrightarrow> snd (gateway_mux d pub cfg now r st) = st"
  by (auto simp: gateway_mux_def Let_def mux_dispatch_def is_otlp_def is_rest_def healthz_def metrics_handler_def)

lemma otlp_ServeHTTP_state:
  "snd (otlp_ServeHTTP d pub topic now r (s, m)) =
     (case otlp_decoded d r of Inl _ \<Rightarrow> (s, incOTLPErr m)
      | Inr req \<Rightarrow> snd (Export d pub topic now (r_ctx r) (Some req) (s, m)))"
  by (auto simp: otlp_ServeHTTP_Export split: sum.split prod.split)

section \<open>Runs\<close>

text \<open>A call is an HTTP request or a gRPC export, with the clock it reads.\<close>

datatype gw_call =
    Http "nat \<Rightarrow> gotime" request
  | Grpc "nat \<Rightarrow> gotime" "nat \<Rightarrow> ctx" "ExportLogsServiceRequest option"

definition gateway_call :: "decoders \<Rightarrow> 's publish \<Rightarrow> gateway_config \<Rightarrow> gw_call \<Rightarrow> 's gw \<Rightarrow> 's gw" where
  "gateway_call d pub cfg c st =
     (case c of Http now r \<Rightarrow> snd (gateway_mux d pub cfg now r st)
      | Grpc now ctx req \<Rightarrow> snd (Export d pub (gc_topic cfg) now ctx req st))"

definition gateway_run :: "decoders \<Rightarrow> 's publish \<Rightarrow> gateway_config \<Rightarrow> gw_call list \<Rightarrow> 's gw \<Rightarrow> 's gw" where
  "gateway_run d pub cfg calls st = fold (gateway_call d pub cfg) calls st"

definition clock_wf :: "gw_call \<Rightarrow> bool" where
  "clock_wf c \<longleftrightarrow> (\<forall>i. time_wf ((case c of Http now _ \<Rightarrow> now | Grpc now _ _ \<Rightarrow> now) i))"

text \<open>Payloads that the writer can decode.\<close>

definition decodable :: "bytes \<Rightarrow> bool" where
  "decodable p \<longleftrightarrow> (\<exists>ev. UnmarshalEvent p = Inr ev)"

lemma payload_decodable:
  "MarshalEvent ev = Inr p \<Longrightarrow> event_wf ev \<Longrightarrow> utc_time (Timestamp ev) \<Longrightarrow> decodable p"
  using MarshalEvent_decodes by (auto simp: decodable_def)

text \<open>The log of one topic grew by decodable payloads.\<close>

definition grows :: "string \<Rightarrow> (string \<Rightarrow> bytes list) \<Rightarrow> (string \<Rightarrow> bytes list) \<Rightarrow> bool" where
  "grows t l l' \<longleftrightarrow> (\<exists>ps. list_all decodable ps \<and> l' = l(t := l t @ ps))"

lemma grows_refl [simp]: "grows t l l"
  by (auto simp: grows_def fun_eq_iff intro!: exI [of _ "[]"])

lemma grows_trans: "grows t l l' \<Longrightarrow> grows t l' l'' \<Longrightarrow> grows t l l''"
proof -
  assume "grows t l l'" and "grows t l' l''"
  then obtain ps qs where "list_all decodable ps" "l' = l(t := l t @ ps)" "list_all decodable qs"
    "l'' = l'(t := l' t @ qs)" by (auto simp: grows_def)
  then show ?thesis unfolding grows_def by (intro exI [of _ "ps @ qs"]) simp
qed

context event_publisher
begin

lemma publishEvents_grows:
  assumes "publishEvents publish t ctx evs s = (r, s')"
    and "list_all (\<lambda>ev. event_wf ev \<and> utc_time (Timestamp ev)) evs"
  shows "grows t (log_of s) (log_of s')"
proof -
  obtain ps where ps: "log_of s' = (log_of s)(t := log_of s t @ ps)"
    "\<forall>p \<in> set ps. \<exists>ev \<in> set evs. MarshalEvent ev = Inr p" using publishEvents_log [OF assms(1)] by blast
  have "list_all decodable ps" using ps(2) assms(2) payload_decodable by (fastforce simp: list_all_iff)
  with ps(1) show ?thesis by (auto simp: grows_def)
qed

lemma ingest_grows:
  assumes "time_wf now"
  shows "grows t (log_of s) (log_of (fst (snd (ingest_ServeHTTP publish t now r (s, m)))))"
proof -
  obtain resp s' m' where i: "ingest_ServeHTTP publish t now r (s, m) = (resp, (s', m'))"
    by (metis prod_cases3)
  have "grows t (log_of s) (log_of s')"
    using i
  proof (cases rule: ingest_cases)
    case (failed payload ev e)
    with FromREST_wf FromREST_utc assms publishEvents_grows show ?thesis by simp
  next
    case (created payload ev)
    with FromREST_wf FromREST_utc assms publishEvents_grows show ?thesis by simp
  qed simp
  with i show ?thesis by simp
qed

lemma Export_grows:
  assumes "\<And>i. time_wf (now i)"
  shows "grows t (log_of s) (log_of (fst (snd (Export d publish t now ctx req (s, m)))))"
proof -
  obtain er s' m' where x: "Export d publish t now ctx req (s, m) = (er, (s', m'))"
    by (metis prod_cases3)
  have wf: "list_all (\<lambda>ev. event_wf ev \<and> utc_time (Timestamp ev)) evs"
    if "LogEventsFromOTLP (proto_sprint d) now req = Inr evs" for evs
    using that LogEventsFromOTLP_wf assms by (cases req) (auto simp: LogEventsFromOTLP_def)
  have "grows t (log_of s) (log_of s')"
    using x
  proof (cases rule: Export_cases)
    case (failed evs e)
    with wf publishEvents_grows show ?thesis by simp
  next
    case (published evs)
    with wf publishEvents_grows show ?thesis by simp
  qed simp_all
  with x show ?thesis by simp
qed

lemma gateway_call_grows:
  assumes "clock_wf c"
  shows "grows (gc_topic cfg) (log_of (fst st)) (log_of (fst (gateway_call d publish cfg c st)))"
proof (cases c)
  case (Http now r)
  obtain s m where st: "st = (s, m)" by (cases st)
  have t: "\<And>i. time_wf (now i)" using assms Http by (simp add: clock_wf_def)
  consider "is_rest r" | "is_otlp r" | "\<not> is_rest r" "\<not> is_otlp r" by blast
  then show ?thesis
  proof cases
    case 1
    then show ?thesis using ingest_grows [OF t] by (simp add: Http gateway_call_def mux_rest st)
  next
    case 2
    then show ?thesis
      using Export_grows [OF t]
      by (simp add: Http gateway_call_def mux_otlp st otlp_ServeHTTP_state split: sum.split)
  next
    case 3
    then show ?thesis by (simp add: Http gateway_call_def mux_other)
  qed
next
  case (Grpc now ctx req)
  obtain s m where st: "st = (s, m)" by (cases st)
  have t: "\<And>i. time_wf (now i)" using assms Grpc by (simp add: clock_wf_def)
  then show ?thesis using Export_grows by (simp add: Grpc gateway_call_def st)
qed

lemma gateway_run_grows:
  "list_all clock_wf calls \<Longrightarrow>
     grows (gc_topic cfg) (log_of (fst st)) (log_of (fst (gateway_run d publish cfg calls st)))"
proof (induction calls arbitrary: st)
  case (Cons c calls)
  then show ?case
    using gateway_call_grows [of c cfg st d] grows_trans by (fastforce simp: gateway_run_def)
qed (simp add: gateway_run_def)

end

section \<open>Counters\<close>

text \<open>Calls that reach a handler, and the sum of the counters of calls.\<close>

definition handled :: "gateway_config \<Rightarrow> gw_call \<Rightarrow> bool" where
  "handled cfg c =
     (case c of Http now r \<Rightarrow> (is_rest r \<or> is_otlp r) \<and> api_ok cfg r | Grpc now ctx req \<Rightarrow> True)"

definition total :: "ingestMetrics \<Rightarrow> uint64" where
  "total m = restOK m + restErr m + otlpOK m + otlpErr m"

lemma total_inc:
  "total (incRestOK m) = total m + 1" "total (incRestErr m) = total m + 1"
  "total (incOTLPOK n m) = total m + 1" "total (incOTLPErr m) = total m + 1"
  by (simp_all add: total_def incRestOK_def incRestErr_def incOTLPOK_def incOTLPErr_def)

lemma ingest_total: "total (snd (snd (ingest_ServeHTTP pub t now r (s, m)))) = total m + 1"
proof -
  obtain resp s' m' where i: "ingest_ServeHTTP pub t now r (s, m) = (resp, (s', m'))" by (metis prod_cases3)
  then have "total m' = total m + 1" by (cases rule: ingest_cases) (simp_all add: total_inc)
  with i show ?thesis by simp
qed

lemma Export_total: "total (snd (snd (Export d pub t now ctx req (s, m)))) = total m + 1"
proof -
  obtain er s' m' where x: "Export d pub t now ctx req (s, m) = (er, (s', m'))" by (metis prod_cases3)
  then have "total m' = total m + 1" by (cases rule: Export_cases) (simp_all add: total_inc)
  with x show ?thesis by simp
qed

lemma gateway_call_total:
  "total (snd (gateway_call d pub cfg c (s, m))) = total m + (if handled cfg c then 1 else 0)"
proof (cases c)
  case (Http now r)
  consider "is_rest r" | "is_otlp r" | "\<not> is_rest r" "\<not> is_otlp r" by blast
  then show ?thesis
  proof cases
    case 1
    then show ?thesis by (simp add: Http gateway_call_def handled_def mux_rest ingest_total)
  next
    case 2
    then show ?thesis
      by (simp add: Http gateway_call_def handled_def mux_otlp otlp_ServeHTTP_state Export_total total_inc split: sum.split)
  next
    case 3
    then show ?thesis by (simp add: Http gateway_call_def handled_def mux_other)
  qed
qed (simp add: gateway_call_def handled_def Export_total)

section \<open>The sample client's requests\<close>

text \<open>The network between a client and one gateway, which renders its response bodies.\<close>

definition gateway_net :: "(body \<Rightarrow> string) \<Rightarrow> string \<Rightarrow> 's handler \<Rightarrow> 's transport" where
  "gateway_net render base mux url r s =
     (if url = base @ r_Path r
      then (let (resp, s') = mux r s in (Inr (w_Status resp, render (w_Body resp)), s'))
      else (Inl (ErrExternal ''no such host''), s))"

text \<open>A broker that accepts what is published to it.\<close>

definition cluster_up :: "'k kafka_write \<Rightarrow> ('k \<Rightarrow> string \<Rightarrow> bytes list) \<Rightarrow> bool" where
  "cluster_up wmsg klog \<longleftrightarrow> kafka_write_ok 1 wmsg klog \<and> (\<forall>k t p. fst (wmsg k None t p) = None)"

definition open_broker :: "Redpanda \<Rightarrow> bool" where
  "open_broker rp \<longleftrightarrow> rp_writer rp \<and> \<not> rp_closed rp"

lemma publish_up:
  assumes "cluster_up wmsg klog" and "open_broker rp" and "t \<noteq> []" and "MarshalEvent ev = Inr b"
  obtains k' where "publishEvents (rp_Publish wmsg) t (\<lambda>_. None) [ev] (rp, k) = (None, (rp, k'))"
    and "klog k' = (klog k)(t := klog k t @ [b])"
proof -
  obtain er k' where w: "wmsg k None t b = (er, k')" by (cases "wmsg k None t b")
  then have er: "er = None" using assms(1) by (metis cluster_up_def fst_conv)
  show ?thesis
  proof (rule that [of k'])
    show "publishEvents (rp_Publish wmsg) t (\<lambda>_. None) [ev] (rp, k) = (None, (rp, k'))"
      using w er assms(2-4) by (simp add: publishEvents_def rp_Publish_def open_broker_def)
    obtain n where "1 \<le> n" "n \<le> 1" "klog k' = (klog k)(t := klog k t @ replicate n b)"
      using w er assms(1) unfolding cluster_up_def kafka_write_ok_def by blast
    then show "klog k' = (klog k)(t := klog k t @ [b])" by (simp add: le_antisym)
  qed
qed

lemma nonblank_suffix:
  assumes "scalar r" and "\<not> IsSpace r"
  shows "TrimSpace (p @ EncodeRune r) \<noteq> []"
proof
  let ?s = "p @ EncodeRune r"
  assume "TrimSpace ?s = []"
  then have "list_all IsSpace (runes ?s)" by (simp add: TrimSpace_Nil_iff)
  moreover have "runes ?s \<noteq> []" by simp
  ultimately have "IsSpace (last (runes ?s))" by (simp add: list_all_iff)
  then have "IsSpace (fst (DecodeLastRune ?s))" by (intro last_runes_space) simp_all
  with assms show False by (simp add: DecodeLastRune_append)
qed

lemma nonblank_message: "TrimSpace (m @ ''-rest'') \<noteq> []" "TrimSpace (m @ ''-otlp'') \<noteq> []"
proof -
  have "char_of (116::nat) = CHR ''t''" "char_of (112::nat) = CHR ''p''" by (rule char_of_eqI, simp)+
  then show "TrimSpace (m @ ''-rest'') \<noteq> []" "TrimSpace (m @ ''-otlp'') \<noteq> []"
    using nonblank_suffix [of 116 "m @ ''-res''"] nonblank_suffix [of 112 "m @ ''-otl''"]
    by (simp_all add: scalar_def IsSpace_def EncodeRune_def)
qed

lemma level_INFO: "NormalizeLogLevel ''INFO'' = ''INFO''" "ValidLogLevel ''INFO''"
  using level_fixed(4,5) [of LevelInfo] by (simp_all add: levels_def LevelInfo_def)

lemma post_simps [simp]:
  "r_Method (post path ctype b) = ''POST''" "r_Path (post path ctype b) = path"
  "r_Body (post path ctype b) = b" "r_BodyErr (post path ctype b) = None" "r_ctx (post path ctype b) = (\<lambda>_. None)"
  by (simp_all add: post_def)

text \<open>The event that the client's REST request becomes.\<close>

lemma client_payload_event:
  assumes "0 < milli" and "milli < 2 ^ 63" and "TrimSpace message \<noteq> []" and "TrimSpace service \<noteq> []"
    and "wire_time (UnixMilli_UTC milli)"
  obtains ev b where "FromREST now (client_payload nano milli message service) = Inr ev"
    "MarshalEvent ev = Inr b" "UnmarshalEvent b = Inr (wire_event ev)"
    "Message ev = coerce_utf8 message" "Service ev = coerce_utf8 service"
proof -
  let ?p = "client_payload nano milli message service"
  let ?ev = "rest_event now ?p"
  have s: "sint (word_of_int milli :: uint64) = milli"
    using assms(1,2) wrap64_id [of milli] by (simp add: wrap64_def in_int64_def)
  then have nz: "(word_of_int milli :: uint64) \<noteq> 0" using assms(1) by auto
  have t: "Timestamp ?ev = UnixMilli_UTC milli" using s nz by (simp add: client_payload_def)
  have z: "\<not> IsZero (UnixMilli_UTC milli)"
    using assms(1) by (simp add: IsZero_def UnixMilli_UTC_def unixToInternal_def)
  have fr: "FromREST now ?p = Inr ?ev"
    unfolding FromREST_Inr
    using assms(3,4) z t level_INFO by (simp add: Validate_None client_payload_def)
  have wf: "event_wf ?ev" using fr by (rule FromREST_wf)
  have u: "utc_time (Timestamp ?ev)" unfolding t by simp
  have "f_finite (ResponseDurationMs ?ev)"
    by (simp add: client_payload_def client_duration_def f_finite_def f_exp_def)
  then obtain b where b: "MarshalEvent ?ev = Inr b"
    using MarshalEvent_ok [OF wf u] assms(5) unfolding t by (auto simp: wire_time_def)
  show ?thesis
    by (rule that [OF fr b MarshalEvent_decodes [OF wf u b]]) (simp_all add: client_payload_def)
qed

lemma decode_body_post: "json_Decode_payload b = Inr p \<Longrightarrow> decode_body (post path ctype b) = Inr p"
  by (auto simp: decode_body_def json_Decode_payload_def bind_res_eq_Inr)

lemma coerce_coerce [simp]: "coerce_utf8 (coerce_utf8 s) = coerce_utf8 s"
  using valid_utf8_coerce [of s] by (simp add: valid_utf8_def)

lemma UnixNano_range: "in_int64 (UnixNano t)"
  by (simp add: UnixNano_def)

lemma sendREST_delivers:
  assumes up: "cluster_up wmsg klog" and rp: "open_broker rp" and cfg: "gc_topic cfg \<noteq> []" "gc_apiKey cfg = []"
    and t: "0 \<le> UnixNano now1" "0 < UnixMilli now2" "UnixMilli now2 < 2 ^ 63" "wire_time (UnixMilli_UTC (UnixMilli now2))"
    and ne: "TrimSpace message \<noteq> []" "TrimSpace service \<noteq> []"
  obtains k' ev b where
    "sendREST (gateway_net render base (gateway_mux d (rp_Publish wmsg) cfg clock)) now1 now2 base message service
       ((rp, k), m) = (None, ((rp, k'), incRestOK m))"
    "klog k' = (klog k)(gc_topic cfg := klog k (gc_topic cfg) @ [b])" "UnmarshalEvent b = Inr ev"
    "Message ev = coerce_utf8 message" "Service ev = coerce_utf8 service"
proof -
  have "UnixNano now1 < 2 ^ 64" using UnixNano_range [of now1] by (simp add: in_int64_def)
  then obtain body where body: "rest_body (UnixNano now1) (UnixMilli now2) message service = Inr body"
    "json_Decode_payload body = Inr (client_payload (UnixNano now1) (UnixMilli now2) message service)"
    using client_body_decodes [of "UnixNano now1" "UnixMilli now2"] t by fastforce
  obtain ev b where ev: "FromREST (clock 0) (client_payload (UnixNano now1) (UnixMilli now2) message service) = Inr ev"
    "MarshalEvent ev = Inr b" "UnmarshalEvent b = Inr (wire_event ev)"
    "Message ev = coerce_utf8 message" "Service ev = coerce_utf8 service"
    using client_payload_event [OF t(2,3) ne t(4)] by blast
  obtain k' where k': "publishEvents (rp_Publish wmsg) (gc_topic cfg) (\<lambda>_. None) [ev] (rp, k) = (None, (rp, k'))"
    "klog k' = (klog k)(gc_topic cfg := klog k (gc_topic cfg) @ [b])"
    using publish_up [OF up rp cfg(1) ev(2)] by blast
  let ?r = "post ''/api/v1/log'' ''application/json'' body"
  have "gateway_mux d (rp_Publish wmsg) cfg clock ?r ((rp, k), m) =
      (\<lparr>w_Status = 201, w_ContentType = Some ''application/json'', w_Body = SuccessBody (ID ev) (Service ev)\<rparr>,
       ((rp, k'), incRestOK m))"
    using k' ev decode_body_post [OF body(2), of "''/api/v1/log''" "''application/json''"] cfg(2)
    by (simp add: mux_rest is_rest_def api_ok_def ingest_ServeHTTP_def)
  then have "sendREST (gateway_net render base (gateway_mux d (rp_Publish wmsg) cfg clock)) now1 now2 base message service
       ((rp, k), m) = (None, ((rp, k'), incRestOK m))"
    using body(1) by (simp add: sendREST_def gateway_net_def)
  from that [OF this k'(2) ev(3)] ev(4,5) show ?thesis by (simp add: wire_event_def)
qed

text \<open>The event that the client's OTLP request becomes.\<close>

lemma client_otlp_event:
  assumes n: "0 < UnixNano now" "wire_time (UnixNano_UTC (UnixNano now))"
    and ne: "TrimSpace message \<noteq> []" "TrimSpace service \<noteq> []"
  obtains ev b where "LogEventsFromOTLP sprint clock (Some (otlp_request now message service)) = Inr [ev]"
    "MarshalEvent ev = Inr b" "UnmarshalEvent b = Inr (wire_event ev)" "Message ev = message" "Service ev = service"
proof -
  let ?ra = "keyValuesToMap sprint
    [Some \<lparr>kv_Key = ''service.name'', kv_Value = Some (StringValue service)\<rparr>,
     Some \<lparr>kv_Key = ''deployment.environment'', kv_Value = Some (StringValue ''dev'')\<rparr>]"
  let ?la = "keyValuesToMap sprint [Some \<lparr>kv_Key = ''http.request.method'', kv_Value = Some (StringValue ''POST'')\<rparr>]"
  let ?ns = "UnixNano now"
  let ?ev = "otlp_event (UnixNano_UTC ?ns) ''INFO'' message ?ra ?la"
  have get: "gm_get (entries (mergeAttrs [?ra, ?la])) k =
      (if k = ''http.request.method'' then Some ''POST''
       else if k = ''deployment.environment'' then Some ''dev''
       else if k = ''service.name'' then Some service else None)" if "k \<noteq> []" for k
    using attr_get_merge2 [OF opt_wf_keyValues opt_wf_keyValues that, of sprint _ sprint] that
    by (simp add: attr_get_def [symmetric] attr_get_keyValues anyValueToString_def)
  have sv: "service \<noteq> []" using ne(2) by auto
  have s: "sint (word_of_int ?ns :: uint64) = ?ns"
    using wrap64_id [OF UnixNano_range] by (simp add: wrap64_def)
  then have nz: "(word_of_int ?ns :: uint64) \<noteq> 0" using n(1) by auto
  have utc: "UTC (UnixNano_UTC ?ns) = UnixNano_UTC ?ns" by (simp add: UTC_def UnixNano_UTC_def)
  have z: "\<not> IsZero (UnixNano_UTC ?ns)"
    using n(1) by (simp add: IsZero_def UnixNano_UTC_def unixToInternal_def)
  have svc: "Service ?ev = service" using sv by (simp add: get)
  have val: "Validate (Some ?ev) = None"
    using ne z level_INFO by (simp add: Validate_None svc utc del: otlp_event_fields(4))
  have evs: "LogEventsFromOTLP sprint clock (Some (otlp_request now message service)) = Inr [?ev]"
    unfolding LogEventsFromOTLP_flat
    using val z nz s log_record_Inr [of sprint "clock 0" ?ra]
    by (simp add: otlp_records_def scope_records_def otlp_request_def log_record_Inr FromOTLPLike_Inr utc
        anyValueToString_def bind_res_eq_Inr)
  have wf: "event_wf ?ev" using val valid_normalized [of ?ev "''INFO''"] by simp
  have u: "utc_time (Timestamp ?ev)" by (simp add: utc)
  have "ResponseDurationMs ?ev = 0" by (simp add: otlp_event_def get Let_def)
  then have "f_finite (ResponseDurationMs ?ev)" by (simp add: f_finite_def f_exp_def)
  then obtain b where b: "MarshalEvent ?ev = Inr b"
    using MarshalEvent_ok [OF wf u] n(2) by (auto simp: wire_time_def utc)
  show ?thesis
    by (rule that [OF evs b MarshalEvent_decodes [OF wf u b]]) (simp_all add: svc del: otlp_event_fields(4))
qed

lemma sendOTLP_delivers:
  assumes up: "cluster_up wmsg klog" and rp: "open_broker rp" and cfg: "gc_topic cfg \<noteq> []" "gc_apiKey cfg = []"
    and proto: "pmarshal (otlp_request now message service) = Inr body" "length body < body_limit"
      "proto_Unmarshal d body = Inr (otlp_request now message service)"
    and t: "0 < UnixNano now" "wire_time (UnixNano_UTC (UnixNano now))"
    and ne: "TrimSpace message \<noteq> []" "TrimSpace service \<noteq> []"
  obtains k' ev b where
    "sendOTLP pmarshal (gateway_net render base (gateway_mux d (rp_Publish wmsg) cfg clock)) now base message service
       ((rp, k), m) = (None, ((rp, k'), incOTLPOK 1 m))"
    "klog k' = (klog k)(gc_topic cfg := klog k (gc_topic cfg) @ [b])" "UnmarshalEvent b = Inr ev"
    "Message ev = coerce_utf8 message" "Service ev = coerce_utf8 service"
proof -
  obtain ev b where ev: "LogEventsFromOTLP (proto_sprint d) clock (Some (otlp_request now message service)) = Inr [ev]"
    "MarshalEvent ev = Inr b" "UnmarshalEvent b = Inr (wire_event ev)" "Message ev = message" "Service ev = service"
    using client_otlp_event [OF t ne] by blast
  obtain k' where k': "publishEvents (rp_Publish wmsg) (gc_topic cfg) (\<lambda>_. None) [ev] (rp, k) = (None, (rp, k'))"
    "klog k' = (klog k)(gc_topic cfg := klog k (gc_topic cfg) @ [b])"
    using publish_up [OF up rp cfg(1) ev(2)] by blast
  let ?r = "post ''/v1/logs'' ''application/x-protobuf'' body"
  have "\<not> Contains (ToLower (Header_Get (r_Header ?r) ''Content-Type'')) ''json''"
    by (simp add: post_def Header_Get_def go_eval CanonicalMIMEHeaderKey_def token_byte_def ToLower_def)
  then have "otlp_decoded d ?r = Inr (otlp_request now message service)"
    using proto(2,3) by (simp add: otlp_decoded_def read_limited_def decode_otlp_def)
  then have "gateway_mux d (rp_Publish wmsg) cfg clock ?r ((rp, k), m) = (status_only 200, ((rp, k'), incOTLPOK 1 m))"
    using k'(1) ev(1) cfg(2)
    by (simp add: mux_otlp is_otlp_def api_ok_def otlp_ServeHTTP_Export Export_def export_response_def)
  then have "sendOTLP pmarshal (gateway_net render base (gateway_mux d (rp_Publish wmsg) cfg clock)) now base message service
       ((rp, k), m) = (None, ((rp, k'), incOTLPOK 1 m))"
    using proto(1) by (simp add: sendOTLP_def gateway_net_def status_only_def)
  from that [OF this k'(2) ev(3)] ev(4,5) show ?thesis by (simp add: wire_event_def)
qed

section \<open>Samples\<close>

text \<open>A configuration, a broker, a clock and flags on which the properties are applied.\<close>

definition sample_cfg :: gateway_config where
  "sample_cfg = gateway_config_of (\<lambda>_. [])"

definition keyed_cfg :: gateway_config where
  "keyed_cfg = sample_cfg\<lparr>gc_apiKey := ''secret''\<rparr>"

definition sample_rp :: Redpanda where
  "sample_rp = \<lparr>rp_cfg = \<lparr>cfg_Brokers = [''localhost:19092''], cfg_ClientID = ''apexio'', cfg_GroupID = ''apexio''\<rparr>,
                rp_writer = True, rp_closed = False\<rparr>"

definition sample_now :: gotime where
  "sample_now = UnixMilli_UTC 1700000000123"

definition sample_flags :: client_flags where
  "sample_flags = \<lparr>fl_gateway = ''http://gw'', fl_mode = ''both'', fl_message = ''hi'', fl_service = ''api''\<rparr>"

definition sample_export :: ExportLogsServiceRequest where
  "sample_export = otlp_request sample_now ''hi-otlp'' ''api''"

definition sample_decoders :: decoders where
  "sample_decoders = \<lparr>protojson_Unmarshal = (\<lambda>_. Inl EOF), proto_Unmarshal = (\<lambda>_. Inr sample_export), proto_sprint = (\<lambda>_. [])\<rparr>"

lemma sample_cfg_simps [simp]:
  "gc_topic sample_cfg = DefaultTopic" "gc_apiKey sample_cfg = []" "gc_apiKey keyed_cfg = ''secret''"
  "gc_apiHeader keyed_cfg = ''X-API-Key''"
  by (simp_all add: sample_cfg_def keyed_cfg_def gateway_config_of_def envOr_def)

lemma list_cluster_up: "cluster_up list_write (\<lambda>k. k)"
  using list_write_ok [of 1] by (simp add: cluster_up_def list_write_def)

lemma sample_clock:
  "UnixMilli sample_now = 1700000000123" "UnixNano sample_now = 1700000000123000000"
  "wire_time (UnixMilli_UTC 1700000000123)" "wire_time (UnixNano_UTC 1700000000123000000)" "time_wf sample_now"
proof -
  show "UnixMilli sample_now = 1700000000123"
    by (simp add: sample_now_def UnixMilli_def UnixMilli_UTC_def unixToInternal_def)
  show "UnixNano sample_now = 1700000000123000000"
    using wrap64_id [of 1700000000123000000]
    by (simp add: sample_now_def UnixNano_def UnixMilli_UTC_def unixToInternal_def in_int64_def)
  show w: "wire_time (UnixMilli_UTC 1700000000123)"
    using sample_wire by (simp add: wire_ok_def sample_event_def)
  have "UnixNano_UTC 1700000000123000000 = UnixMilli_UTC 1700000000123"
    by (simp add: UnixNano_UTC_def UnixMilli_UTC_def)
  with w show "wire_time (UnixNano_UTC 1700000000123000000)" by simp
  show "time_wf sample_now" by (simp add: sample_now_def time_wf_def UnixMilli_UTC_def)
qed

lemma sample_payload_event:
  "\<exists>ev b. FromREST sample_now (client_payload 1 1700000000123 ''hi'' ''api'') = Inr ev \<and> MarshalEvent ev = Inr b"
proof -
  have ne: "TrimSpace ''hi'' \<noteq> []" "TrimSpace ''api'' \<noteq> []"
    using sample_trim TrimSpace_ascii [of "''hi''"] by (simp_all add: IsSpace_def)
  show ?thesis
    by (rule client_payload_event [where milli = 1700000000123, OF _ _ ne sample_clock(3)]) auto
qed

text \<open>A REST request that is accepted.\<close>

abbreviation "sample_post \<equiv> post ''/api/v1/log'' ''application/json''"

lemma sample_ingest:
  "\<exists>body resp k' m' b. rest_body 1 1700000000123 ''hi'' ''api'' = Inr body \<and> w_Status resp = 201
     \<and> ingest_ServeHTTP (rp_Publish list_write) DefaultTopic sample_now (sample_post body)
         ((sample_rp, \<lambda>_. []), zero_ingestMetrics) = (resp, ((sample_rp, k'), m'))
     \<and> k' DefaultTopic = [b]"
proof -
  obtain body where b: "rest_body 1 1700000000123 ''hi'' ''api'' = Inr body"
    "json_Decode_payload body = Inr (client_payload 1 1700000000123 ''hi'' ''api'')"
    using client_body_decodes [of 1 1700000000123] by fastforce
  obtain ev p where ev: "FromREST sample_now (client_payload 1 1700000000123 ''hi'' ''api'') = Inr ev" "MarshalEvent ev = Inr p"
    using sample_payload_event by blast
  obtain k' where k': "publishEvents (rp_Publish list_write) DefaultTopic (\<lambda>_. None) [ev] (sample_rp, \<lambda>_. []) = (None, (sample_rp, k'))"
    "k' = (\<lambda>_. [])(DefaultTopic := [p])"
    using publish_up [OF list_cluster_up, of sample_rp DefaultTopic ev p "\<lambda>_. []"] ev(2)
    by (auto simp: open_broker_def sample_rp_def DefaultTopic_def)
  have "ingest_ServeHTTP (rp_Publish list_write) DefaultTopic sample_now (sample_post body)
       ((sample_rp, \<lambda>_. []), zero_ingestMetrics) =
      (\<lparr>w_Status = 201, w_ContentType = Some ''application/json'', w_Body = SuccessBody (ID ev) (Service ev)\<rparr>,
       ((sample_rp, k'), incRestOK zero_ingestMetrics))"
    using decode_body_post [OF b(2)] ev k'(1) by (simp add: ingest_ServeHTTP_def)
  moreover have "k' DefaultTopic = [p]" using k'(2) by simp
  ultimately show ?thesis using b(1) by (metis response.select_convs(1))
qed

section \<open>Properties\<close>

text \<open>
  C4. Everything the gateway publishes can be consumed: whatever requests and exports it serves, in
  whatever order, the broker's log changes in its own topic only, where payloads are appended that
  UnmarshalEvent decodes.
\<close>

theorem gateway_appends_decodable:
  assumes "kafka_write_ok attempts wmsg klog" and "list_all clock_wf calls"
    and "gateway_run d (rp_Publish wmsg) cfg calls (s, m) = (s', m')"
  shows "\<exists>ps. list_all decodable ps \<and> klog (snd s') = (klog (snd s))(gc_topic cfg := klog (snd s) (gc_topic cfg) @ ps)"
  using event_publisher.gateway_run_grows [OF rp_event_publisher [OF assms(1)] assms(2), of cfg "(s, m)" d] assms(3)
  by (simp add: grows_def)

theorem gateway_appends_decodable_witness:
  "\<exists>ps. list_all decodable ps
     \<and> snd (fst (gateway_run sample_decoders (rp_Publish list_write) sample_cfg
           [Grpc (\<lambda>_. sample_now) (\<lambda>_. None) (Some sample_export), Http (\<lambda>_. sample_now) keyed_request]
           ((sample_rp, \<lambda>_. []), zero_ingestMetrics))) = (\<lambda>_. [])(DefaultTopic := ps)"
proof -
  have "list_all clock_wf [Grpc (\<lambda>_. sample_now) (\<lambda>_. None) (Some sample_export), Http (\<lambda>_. sample_now) keyed_request]"
    by (simp add: clock_wf_def sample_clock)
  from gateway_appends_decodable [where d = sample_decoders and cfg = sample_cfg and s = "(sample_rp, \<lambda>_. [])"
      and m = zero_ingestMetrics, OF list_write_ok [OF order_refl] this prod.collapse [symmetric]]
  show ?thesis by simp
qed

text \<open>
  C6. The outcomes of a REST request, over a client that makes up to \<open>attempts\<close> attempts to write: 201
  means that the payload of the request was appended to the topic, once for each attempt that took
  effect and so exactly once if the client makes one, and that it decodes to the event of the request;
  400 means that nothing was published; 502 means that the payload may or may not have been appended.
  One counter goes up, the one that fits.
\<close>

theorem rest_ingest_outcomes:
  assumes "kafka_write_ok attempts wmsg klog" and "time_wf now"
    and "ingest_ServeHTTP (rp_Publish wmsg) topic now r (s, m) = (resp, (s', m'))"
  shows "(w_Status resp = 201 \<and> m' = incRestOK m
          \<and> (\<exists>payload ev b n. decode_body r = Inr payload \<and> FromREST now payload = Inr ev
               \<and> UnmarshalEvent b = Inr (wire_event ev) \<and> w_Body resp = SuccessBody (ID ev) (Service ev)
               \<and> 1 \<le> n \<and> n \<le> attempts
               \<and> klog (snd s') = (klog (snd s))(topic := klog (snd s) topic @ replicate n b)))
       \<or> (w_Status resp = 400 \<and> m' = incRestErr m \<and> s' = s)
       \<or> (w_Status resp = 502 \<and> m' = incRestErr m
          \<and> (klog (snd s') = klog (snd s)
             \<or> (\<exists>b n. decodable b \<and> n \<le> attempts
                  \<and> klog (snd s') = (klog (snd s))(topic := klog (snd s) topic @ replicate n b))))"
proof -
  note pub = rp_event_publisher [OF assms(1)]
  have wire: "UnmarshalEvent b = Inr (wire_event ev)"
    if "FromREST now payload = Inr ev" "MarshalEvent ev = Inr b" for payload ev b
    using MarshalEvent_decodes [OF FromREST_wf FromREST_utc that(2)] that(1) assms(2) by blast
  show ?thesis
    using assms(3)
  proof (cases rule: ingest_cases)
    case (refused msg e)
    then show ?thesis by (simp add: writeErr_def)
  next
    case (failed payload ev e)
    from event_publisher.publishEvents_err [OF pub failed(3)] obtain qs where
      "qs = [] \<or> (\<exists>p n. MarshalEvent ev = Inr p \<and> n \<le> attempts \<and> qs = replicate n p)"
      "klog (snd s') = (klog (snd s))(topic := klog (snd s) topic @ qs)" by auto
    with wire [OF failed(2)] have "klog (snd s') = klog (snd s)
        \<or> (\<exists>b n. decodable b \<and> n \<le> attempts \<and> klog (snd s') = (klog (snd s))(topic := klog (snd s) topic @ replicate n b))"
      by (auto simp: decodable_def)
    with failed show ?thesis by (simp add: writeErr_def)
  next
    case (created payload ev)
    from event_publisher.publishEvents_ok [OF pub created(3)] obtain b n where
      "MarshalEvent ev = Inr b" "1 \<le> n" "n \<le> attempts"
      "klog (snd s') = (klog (snd s))(topic := klog (snd s) topic @ replicate n b)" by auto
    with wire created show ?thesis by auto
  qed
qed

theorem rest_ingest_outcomes_witness:
  "\<exists>body resp s' m'. rest_body 1 1700000000123 ''hi'' ''api'' = Inr body
     \<and> ingest_ServeHTTP (rp_Publish list_write) DefaultTopic sample_now (sample_post body)
         ((sample_rp, \<lambda>_. []), zero_ingestMetrics) = (resp, (s', m'))
     \<and> w_Status resp = 201 \<and> (\<exists>b ev. snd s' DefaultTopic = [b] \<and> UnmarshalEvent b = Inr ev)"
proof -
  obtain body resp k' m' b where i: "rest_body 1 1700000000123 ''hi'' ''api'' = Inr body" "w_Status resp = 201"
    "ingest_ServeHTTP (rp_Publish list_write) DefaultTopic sample_now (sample_post body)
       ((sample_rp, \<lambda>_. []), zero_ingestMetrics) = (resp, ((sample_rp, k'), m'))"
    using sample_ingest by blast
  have "n = 1" if "1 \<le> n" "n \<le> 1" for n :: nat using that by simp
  with rest_ingest_outcomes [OF list_write_ok [of 1] sample_clock(5) i(3)] i have "\<exists>b ev. k' DefaultTopic = [b] \<and> UnmarshalEvent b = Inr ev"
    by force
  with i show ?thesis by auto
qed

text \<open>
  C15. The OTLP handlers over HTTP and gRPC are one operation: once the body is read and decoded, the
  HTTP handler leaves the broker and the counters in the state in which the gRPC method leaves them,
  and answers 200 exactly when the method returns no error, else 400 or 502.
\<close>

theorem otlp_http_is_grpc:
  assumes "read_limited r = Inr body" and "decode_otlp d r body = Inr req"
    and "otlp_ServeHTTP d pub topic now r st = (resp, st1)"
    and "Export d pub topic now (r_ctx r) (Some req) st = (er, st2)"
  shows "st1 = st2 \<and> (w_Status resp = 200 \<longleftrightarrow> er = None)
    \<and> (er \<noteq> None \<longrightarrow> w_Status resp =
         (if \<exists>e. LogEventsFromOTLP (proto_sprint d) now (Some req) = Inl e then 400 else 502))"
proof -
  have "otlp_decoded d r = Inr req" using assms(1,2) by (simp add: otlp_decoded_def)
  then have "resp = export_response (proto_sprint d) now req er" "st1 = st2"
    using assms(3,4) by (simp_all add: otlp_ServeHTTP_Export)
  then show ?thesis by (auto simp: export_response_def status_only_def writeErr_def split: option.split sum.split)
qed

theorem otlp_http_is_grpc_witness:
  "\<exists>resp st. otlp_ServeHTTP sample_decoders (rp_Publish list_write) DefaultTopic (\<lambda>_. sample_now) keyed_request
        ((sample_rp, \<lambda>_. []), zero_ingestMetrics) = (resp, st)
     \<and> snd (Export sample_decoders (rp_Publish list_write) DefaultTopic (\<lambda>_. sample_now) (\<lambda>_. None) (Some sample_export)
        ((sample_rp, \<lambda>_. []), zero_ingestMetrics)) = st"
proof -
  let ?st = "((sample_rp, \<lambda>_. []), zero_ingestMetrics)"
  have r: "read_limited keyed_request = Inr []" "r_ctx keyed_request = (\<lambda>_. None)"
    by (simp_all add: read_limited_def keyed_request_def body_limit_def)
  have d: "decode_otlp sample_decoders keyed_request [] = Inr sample_export"
    by (simp add: decode_otlp_def keyed_request_def sample_decoders_def Header_Get_def go_eval
        CanonicalMIMEHeaderKey_def token_byte_def)
  from otlp_http_is_grpc [OF r(1) d prod.collapse [symmetric] prod.collapse [symmetric],
      of "rp_Publish list_write" DefaultTopic "\<lambda>_. sample_now" ?st]
  show ?thesis unfolding r(2) by (metis prod.collapse)
qed

text \<open>
  C16. With a key configured, a request that does not present it changes nothing, on any route: no
  event is published and no counter moves; the two ingest routes answer 401.
\<close>

theorem unauthenticated_changes_nothing:
  assumes "gc_apiKey cfg \<noteq> []"
    and "TrimSpace (Header_Get (r_Header r) (if gc_apiHeader cfg = [] then ''X-API-Key'' else gc_apiHeader cfg)) \<noteq> gc_apiKey cfg"
  shows "snd (gateway_mux d pub cfg now r st) = st
    \<and> (r_Method r = ''POST'' \<and> r_Path r \<in> {''/api/v1/log'', ''/v1/logs''} \<longrightarrow>
        gateway_mux d pub cfg now r st = (unauthorized, st))"
proof -
  have "\<not> api_ok cfg r" using assms by (simp add: api_ok_def)
  then have "is_rest r \<or> is_otlp r \<longrightarrow> gateway_mux d pub cfg now r st = (unauthorized, st)"
    using mux_rest mux_otlp by metis
  then show ?thesis
    using mux_other [of r d pub cfg now st]
    by (cases "is_rest r \<or> is_otlp r") (auto simp: is_rest_def is_otlp_def)
qed

theorem unauthenticated_changes_nothing_witness:
  "gateway_mux sample_decoders (rp_Publish list_write) keyed_cfg (\<lambda>_. sample_now) keyed_request
     ((sample_rp, \<lambda>_. []), zero_ingestMetrics) = (unauthorized, ((sample_rp, \<lambda>_. []), zero_ingestMetrics))"
proof -
  have "TrimSpace (Header_Get (r_Header keyed_request) ''X-API-Key'') \<noteq> ''secret''"
    by (simp add: keyed_request_def Header_Get_def go_eval CanonicalMIMEHeaderKey_def token_byte_def)
  then show ?thesis
    using unauthenticated_changes_nothing [of keyed_cfg keyed_request sample_decoders "rp_Publish list_write" "\<lambda>_. sample_now"
        "((sample_rp, \<lambda>_. []), zero_ingestMetrics)"]
    by (simp add: keyed_request_def)
qed

text \<open>
  C17. Every request that reaches an ingest handler is counted exactly once, as a success or as an
  error, over any sequence of calls and any broker; no other request is.
\<close>

theorem requests_counted_once:
  "total (snd (gateway_run d pub cfg calls st)) = total (snd st) + of_nat (length (filter (handled cfg) calls))"
proof (induction calls arbitrary: st)
  case (Cons c calls)
  then show ?case by (cases st) (simp add: gateway_run_def gateway_call_total)
qed (simp add: gateway_run_def)

text \<open>
  C31. The sample client in its default mode succeeds against the gateway: with a broker that is up,
  no API key, a service that is not blank and a clock after 1970, it exits with status 0 and has
  published two events, the REST one and then the OTLP one, with its messages and its service.
\<close>

theorem sample_client_delivers:
  assumes "cluster_up wmsg klog" and "open_broker rp" and "gc_topic cfg \<noteq> []" and "gc_apiKey cfg = []"
    and "fl_mode fl = ''both''" and "TrimSpace (fl_service fl) \<noteq> []"
    and "0 \<le> UnixNano (now 1)" and "0 < UnixMilli (now 2)" and "UnixMilli (now 2) < 2 ^ 63"
    and "wire_time (UnixMilli_UTC (UnixMilli (now 2)))"
    and "0 < UnixNano (now 3)" and "wire_time (UnixNano_UTC (UnixNano (now 3)))"
    and "pmarshal (otlp_request (now 3) (client_message (now 0) fl @ ''-otlp'') (fl_service fl)) = Inr body"
    and "length body < body_limit"
    and "proto_Unmarshal d body = Inr (otlp_request (now 3) (client_message (now 0) fl @ ''-otlp'') (fl_service fl))"
  shows "\<exists>k' b1 b2 ev1 ev2.
     client_main pmarshal (gateway_net render (fl_gateway fl) (gateway_mux d (rp_Publish wmsg) cfg clock)) now fl
       ((rp, k), m) = (0, ((rp, k'), incOTLPOK 1 (incRestOK m)))
     \<and> klog k' = (klog k)(gc_topic cfg := klog k (gc_topic cfg) @ [b1, b2])
     \<and> UnmarshalEvent b1 = Inr ev1 \<and> Message ev1 = coerce_utf8 (client_message (now 0) fl @ ''-rest'')
     \<and> UnmarshalEvent b2 = Inr ev2 \<and> Message ev2 = coerce_utf8 (client_message (now 0) fl @ ''-otlp'')
     \<and> Service ev1 = coerce_utf8 (fl_service fl) \<and> Service ev2 = coerce_utf8 (fl_service fl)"
proof -
  let ?net = "gateway_net render (fl_gateway fl) (gateway_mux d (rp_Publish wmsg) cfg clock)"
  let ?msg = "client_message (now 0) fl"
  obtain k1 ev1 b1 where r: "sendREST ?net (now 1) (now 2) (fl_gateway fl) (?msg @ ''-rest'') (fl_service fl) ((rp, k), m) =
      (None, ((rp, k1), incRestOK m))"
    and r': "klog k1 = (klog k)(gc_topic cfg := klog k (gc_topic cfg) @ [b1])" "UnmarshalEvent b1 = Inr ev1"
      "Message ev1 = coerce_utf8 (?msg @ ''-rest'')" "Service ev1 = coerce_utf8 (fl_service fl)"
    using sendREST_delivers [OF assms(1-4,7-10) nonblank_message(1) assms(6)] by metis
  obtain k2 ev2 b2 where o: "sendOTLP pmarshal ?net (now 3) (fl_gateway fl) (?msg @ ''-otlp'') (fl_service fl)
      ((rp, k1), incRestOK m) = (None, ((rp, k2), incOTLPOK 1 (incRestOK m)))"
    and o': "klog k2 = (klog k1)(gc_topic cfg := klog k1 (gc_topic cfg) @ [b2])" "UnmarshalEvent b2 = Inr ev2"
      "Message ev2 = coerce_utf8 (?msg @ ''-otlp'')" "Service ev2 = coerce_utf8 (fl_service fl)"
    using sendOTLP_delivers [where pmarshal = pmarshal, OF assms(1-4,13-15,11,12) nonblank_message(2) assms(6)] by metis
  have "client_main pmarshal ?net now fl ((rp, k), m) = (0, ((rp, k2), incOTLPOK 1 (incRestOK m)))"
    using r o assms(5) by (simp add: client_main_def Let_def)
  moreover have "klog k2 = (klog k)(gc_topic cfg := klog k (gc_topic cfg) @ [b1, b2])"
    using r'(1) o'(1) by simp
  ultimately show ?thesis using r'(2-4) o'(2-4) by blast
qed

theorem sample_client_delivers_witness:
  "\<exists>k' b1 b2.
     client_main (\<lambda>_. Inr []) (gateway_net (\<lambda>_. []) ''http://gw''
         (gateway_mux sample_decoders (rp_Publish list_write) sample_cfg (\<lambda>_. sample_now))) (\<lambda>_. sample_now) sample_flags
       ((sample_rp, \<lambda>_. []), zero_ingestMetrics) =
       (0, ((sample_rp, k'), incOTLPOK 1 (incRestOK zero_ingestMetrics)))
     \<and> k' DefaultTopic = [b1, b2]"
proof -
  have m: "client_message sample_now sample_flags @ ''-otlp'' = ''hi-otlp''" by (simp add: client_message_def sample_flags_def)
  have "TrimSpace (fl_service sample_flags) \<noteq> []" using sample_trim by (simp add: sample_flags_def)
  then show ?thesis
    using sample_client_delivers [OF list_cluster_up, of sample_rp sample_cfg sample_flags "\<lambda>_. sample_now" "\<lambda>_. Inr []" "[]"
        sample_decoders "\<lambda>_. []" "\<lambda>_. sample_now" "\<lambda>_. []" zero_ingestMetrics] sample_clock m
    by (fastforce simp: open_broker_def sample_rp_def DefaultTopic_def body_limit_def sample_decoders_def sample_export_def
        sample_flags_def)
qed

end
