(* ===== verification/Store.thy ===== *)
theory Store
  imports Schema
begin

text \<open>
  Package \<^verbatim>\<open>pkg/store\<close>: the persistence interface (\<^verbatim>\<open>store.go\<close>) as the locales \<open>event_store\<close> and
  \<open>atomic_store\<close>, and the in-memory store (\<^verbatim>\<open>memory.go\<close>).
\<close>

section \<open>The Store interface\<close>

text \<open>
  What the writer relies on. \<open>rows s\<close> is what the store holds, as events; \<open>as_row\<close> is what it keeps of
  an event. A batch that is written was valid and is appended as a whole and in order; a failure
  never removes a row; a context that is done makes the write fail with nothing done; an empty
  batch changes nothing.
\<close>

locale event_store =
  fixes write_batch :: "'s \<Rightarrow> ctx \<Rightarrow> LogEvent list \<Rightarrow> err option \<times> 's"
    and rows :: "'s \<Rightarrow> LogEvent list"
    and as_row :: "LogEvent \<Rightarrow> LogEvent"
  assumes write_ok:
    "write_batch s c evs = (None, s') \<Longrightarrow> rows s' = rows s @ map as_row evs"
    and write_valid:
    "write_batch s c evs = (None, s') \<Longrightarrow> list_all (\<lambda>e. Validate (Some e) = None) evs"
    and write_err: "write_batch s c evs = (Some e, s') \<Longrightarrow> \<exists>xs. rows s' = rows s @ xs"
    and write_ctx: "write_batch s (Some e) evs = (Some e, s)"
    and write_empty: "rows (snd (write_batch s c [])) = rows s"

text \<open>A store in which a failed batch leaves nothing behind.\<close>

locale atomic_store = event_store +
  assumes write_atomic: "write_batch s c evs = (Some e, s') \<Longrightarrow> rows s' = rows s"

section \<open>The in-memory store\<close>

record MemStore =
  ms_closed :: bool
  ms_events :: "LogEvent list"

definition NewMemStore :: MemStore where
  "NewMemStore = \<lparr>ms_closed = False, ms_events = []\<rparr>"

text \<open>The validation loop: the first event that is not valid gives the error.\<close>

fun validate_all :: "LogEvent list \<Rightarrow> err option" where
  "validate_all [] = None"
| "validate_all (e # es) =
     (case Validate (Some e) of Some er \<Rightarrow> Some er | None \<Rightarrow> validate_all es)"

definition ms_WriteBatch :: "MemStore \<Rightarrow> ctx \<Rightarrow> LogEvent list \<Rightarrow> err option \<times> MemStore" where
  "ms_WriteBatch m c evs =
     (case c of Some e \<Rightarrow> (Some e, m)
      | None \<Rightarrow>
          if length evs = 0 then (None, m)
          else (case validate_all evs of Some er \<Rightarrow> (Some er, m)
            | None \<Rightarrow>
                if ms_closed m then (Some ErrStoreClosed, m)
                else (None, m\<lparr>ms_events := ms_events m @ evs\<rparr>)))"

definition ms_All :: "MemStore \<Rightarrow> LogEvent list" where
  "ms_All m = ms_events m"

definition ms_Len :: "MemStore \<Rightarrow> nat" where
  "ms_Len m = length (ms_events m)"

definition ms_Close :: "MemStore \<Rightarrow> err option \<times> MemStore" where
  "ms_Close m = (None, m\<lparr>ms_closed := True\<rparr>)"

declare ms_WriteBatch_def [op_defs] ms_Close_def [op_defs] ms_All_def [op_defs] ms_Len_def [op_defs]

lemma validate_all_None: "validate_all evs = None \<longleftrightarrow> list_all (\<lambda>e. Validate (Some e) = None) evs"
  by (induction evs) (auto split: option.splits)

interpretation ms: atomic_store ms_WriteBatch ms_All "\<lambda>e. e"
  by unfold_locales
    (auto simp: ms_WriteBatch_def ms_All_def validate_all_None split: option.splits if_splits)

text \<open>
  C29. WriteBatch of the in-memory store succeeds exactly when the context is live and the batch is
  empty, or every event is valid and the store is open; then the batch is appended, and in every
  other case nothing is.
\<close>

theorem ms_WriteBatch_spec:
  "(fst (ms_WriteBatch m c evs) = None \<longleftrightarrow>
     c = None \<and> (evs = [] \<or> (list_all (\<lambda>e. Validate (Some e) = None) evs \<and> \<not> ms_closed m)))
   \<and> ms_All (snd (ms_WriteBatch m c evs)) =
     ms_All m @ (if fst (ms_WriteBatch m c evs) = None then evs else [])"
  using validate_all_None [of evs] by (auto simp: ms_WriteBatch_def ms_All_def split: option.splits)

end
