(* ===== verification/ClickHouse.thy ===== *)
theory ClickHouse
  imports Store Schema_Facts
begin

text \<open>
  Package \<^verbatim>\<open>pkg/store\<close>, file \<^verbatim>\<open>clickhouse.go\<close>: the store over the clickhouse-go driver. The driver is
  not in the repository; its operations are the fields of \<open>driver\<close>, on a state \<open>'k\<close> of the database.
\<close>

section \<open>Configuration and connection\<close>

record ClickHouseConfig =
  ch_DSN :: string
  ch_Addr :: string
  ch_Database :: string
  ch_Table :: string
  ch_Username :: string
  ch_Password :: string
  ch_PingAttempts :: int

text \<open>\<open>ch_conn\<close> is whether the connection is non-nil.\<close>

record ClickHouse =
  ch_cfg :: ClickHouseConfig
  ch_conn :: bool
  ch_closed :: bool

record ch_auth =
  au_Database :: string
  au_Username :: string
  au_Password :: string

record ch_options =
  op_Addr :: "string list"
  op_Auth :: ch_auth

text \<open>
  The driver: \<^verbatim>\<open>ParseDSN\<close>, \<^verbatim>\<open>Open\<close>, \<^verbatim>\<open>Ping\<close>, \<^verbatim>\<open>PrepareBatch\<close>, \<^verbatim>\<open>Append\<close> and \<^verbatim>\<open>Send\<close> on a batch, and
  \<^verbatim>\<open>Close\<close>. A row is the event with the values that \<open>Append\<close> is called with.
\<close>

record 'k driver =
  d_ParseDSN :: "string \<Rightarrow> ch_options res"
  d_Open :: "ch_options \<Rightarrow> err option"
  d_Ping :: "'k \<Rightarrow> err option \<times> 'k"
  d_PrepareBatch :: "'k \<Rightarrow> ctx \<Rightarrow> string \<Rightarrow> err option \<times> 'k"
  d_Append :: "'k \<Rightarrow> LogEvent \<Rightarrow> err option \<times> 'k"
  d_Send :: "'k \<Rightarrow> err option \<times> 'k"
  d_Close :: "'k \<Rightarrow> err option \<times> 'k"

definition ch_defaults :: "ClickHouseConfig \<Rightarrow> ClickHouseConfig" where
  "ch_defaults cfg =
     (let cfg1 = (if ch_Database cfg = [] then cfg\<lparr>ch_Database := ''apexio''\<rparr> else cfg);
          cfg2 = (if ch_Table cfg1 = [] then cfg1\<lparr>ch_Table := ''logs''\<rparr> else cfg1)
      in if ch_Username cfg2 = [] then cfg2\<lparr>ch_Username := ''default''\<rparr> else cfg2)"

text \<open>The switch that opens the connection: by DSN, else by address, else an error.\<close>

definition ch_open :: "'k driver \<Rightarrow> ClickHouseConfig \<Rightarrow> err option" where
  "ch_open d cfg =
     (if ch_DSN cfg \<noteq> [] then
        (case d_ParseDSN d (ch_DSN cfg) of
           Inl e \<Rightarrow> Some (Wrap ''clickhouse: parse DSN: %w'' [] e)
         | Inr opts \<Rightarrow>
             (let opts' = (if au_Database (op_Auth opts) = []
                           then opts\<lparr>op_Auth := (op_Auth opts)\<lparr>au_Database := ch_Database cfg\<rparr>\<rparr>
                           else opts)
              in map_option (Wrap ''clickhouse: open: %w'' []) (d_Open d opts')))
      else if ch_Addr cfg \<noteq> [] then
        map_option (Wrap ''clickhouse: open: %w'' [])
          (d_Open d \<lparr>op_Addr = [ch_Addr cfg],
                    op_Auth = \<lparr>au_Database = ch_Database cfg, au_Username = ch_Username cfg,
                               au_Password = ch_Password cfg\<rparr>\<rparr>)
      else Some (ErrNew ''clickhouse: DSN or Addr is required''))"

text \<open>The ping loop, with the attempts that are left; \<open>er\<close> is the last error.\<close>

fun ping_loop :: "'k driver \<Rightarrow> nat \<Rightarrow> err option \<Rightarrow> 'k \<Rightarrow> err option \<times> 'k" where
  "ping_loop d 0 er k = (er, k)"
| "ping_loop d (Suc n) er k =
     (case d_Ping d k of (None, k') \<Rightarrow> (None, k') | (Some e, k') \<Rightarrow> ping_loop d n (Some e) k')"

definition ping_attempts :: "ClickHouseConfig \<Rightarrow> nat" where
  "ping_attempts cfg = (if ch_PingAttempts cfg < 1 then 30 else nat (ch_PingAttempts cfg))"

definition NewClickHouse :: "'k driver \<Rightarrow> ClickHouseConfig \<Rightarrow> 'k \<Rightarrow> ClickHouse res \<times> 'k" where
  "NewClickHouse d cfg0 k =
     (let cfg = ch_defaults cfg0 in
      case ch_open d cfg of Some e \<Rightarrow> (Inl e, k)
      | None \<Rightarrow>
          (case ping_loop d (ping_attempts cfg) None k of
             (None, k') \<Rightarrow> (Inr \<lparr>ch_cfg = cfg, ch_conn = True, ch_closed = False\<rparr>, k')
           | (Some e, k') \<Rightarrow> (Inl (Wrap ''clickhouse: ping: %w'' [] e), snd (d_Close d k'))))"

section \<open>WriteBatch and Close\<close>

fun ch_validate :: "nat \<Rightarrow> LogEvent list \<Rightarrow> err option" where
  "ch_validate i [] = None"
| "ch_validate i (e # es) =
     (case Validate (Some e) of
        Some er \<Rightarrow> Some (Wrap ''clickhouse: event[%d]: %w'' [ArgD (int i)] er)
      | None \<Rightarrow> ch_validate (i + 1) es)"

definition ch_query :: "ClickHouseConfig \<Rightarrow> string" where
  "ch_query cfg =
     (let nl = char_of (10::nat) # replicate 2 (char_of (9::nat)); nlt = nl @ [char_of (9::nat)] in
      ''INSERT INTO '' @ ch_Database cfg @ ''.'' @ ch_Table cfg @ '' (''
      @ nlt @ ''timestamp, id, log_level, message, service, host, environment,''
      @ nlt @ ''request_id, client_ip, user_agent, request_method, request_path,''
      @ nlt @ ''response_status, response_duration_ms, attrs''
      @ nl @ '')'')"

text \<open>The values of a row: the time in UTC, and an empty map for nil attributes.\<close>

definition ch_row :: "LogEvent \<Rightarrow> LogEvent" where
  "ch_row e = e\<lparr>Timestamp := UTC (Timestamp e), Attrs := Some (entries (Attrs e))\<rparr>"

fun append_rows :: "'k driver \<Rightarrow> LogEvent list \<Rightarrow> 'k \<Rightarrow> err option \<times> 'k" where
  "append_rows d [] k = (None, k)"
| "append_rows d (e # es) k =
     (case d_Append d k (ch_row e) of
        (Some er, k') \<Rightarrow> (Some (Wrap ''clickhouse: append: %w'' [] er), k')
      | (None, k') \<Rightarrow> append_rows d es k')"

definition ch_WriteBatch ::
  "'k driver \<Rightarrow> ClickHouse \<times> 'k \<Rightarrow> ctx \<Rightarrow> LogEvent list \<Rightarrow> err option \<times> (ClickHouse \<times> 'k)" where
  "ch_WriteBatch d s c evs =
     (let (h, k) = s in
      case c of Some e \<Rightarrow> (Some e, s)
      | None \<Rightarrow>
          if ch_closed h \<or> \<not> ch_conn h then (Some ErrStoreClosed, s)
          else if length evs = 0 then (None, s)
          else (case ch_validate 0 evs of Some er \<Rightarrow> (Some er, s)
            | None \<Rightarrow>
                (case d_PrepareBatch d k c (ch_query (ch_cfg h)) of
                   (Some e, k1) \<Rightarrow> (Some (Wrap ''clickhouse: prepare batch: %w'' [] e), (h, k1))
                 | (None, k1) \<Rightarrow>
                     (case append_rows d evs k1 of
                        (Some e, k2) \<Rightarrow> (Some e, (h, k2))
                      | (None, k2) \<Rightarrow>
                          (case d_Send d k2 of
                             (Some e, k3) \<Rightarrow> (Some (Wrap ''clickhouse: send: %w'' [] e), (h, k3))
                           | (None, k3) \<Rightarrow> (None, (h, k3)))))))"

definition ch_Close :: "'k driver \<Rightarrow> ClickHouse \<times> 'k \<Rightarrow> err option \<times> (ClickHouse \<times> 'k)" where
  "ch_Close d s =
     (let (h, k) = s; h1 = h\<lparr>ch_closed := True\<rparr> in
      if \<not> ch_conn h1 then (None, (h1, k))
      else (let (er, k') = d_Close d k in (er, (h1\<lparr>ch_conn := False\<rparr>, k'))))"

definition ch_Config :: "ClickHouse \<Rightarrow> ClickHouseConfig" where
  "ch_Config h = ch_cfg h"

text \<open>
  The documented behaviour of a driver batch, over the table's rows and the rows of the batch that
  is being built: \<^verbatim>\<open>PrepareBatch\<close> starts an empty batch, \<^verbatim>\<open>Append\<close> adds a row to it and nothing to the
  table, a \<^verbatim>\<open>Send\<close> that returns nil has inserted the batch in order, and one that fails may have
  inserted rows but removed none.
\<close>

definition driver_ok :: "'k driver \<Rightarrow> ('k \<Rightarrow> LogEvent list) \<Rightarrow> ('k \<Rightarrow> LogEvent list) \<Rightarrow> bool" where
  "driver_ok d table batch \<longleftrightarrow>
     (\<forall>k c q er k'. d_PrepareBatch d k c q = (er, k') \<longrightarrow>
        table k' = table k \<and> (er = None \<longrightarrow> batch k' = []))
     \<and> (\<forall>k r er k'. d_Append d k r = (er, k') \<longrightarrow>
        table k' = table k \<and> (er = None \<longrightarrow> batch k' = batch k @ [r]))
     \<and> (\<forall>k k'. d_Send d k = (None, k') \<longrightarrow> table k' = table k @ batch k)
     \<and> (\<forall>k e k'. d_Send d k = (Some e, k') \<longrightarrow> (\<exists>xs. table k' = table k @ xs))"

section \<open>ClickHouse is an event store\<close>

lemma ch_validate_None: "ch_validate i evs = None \<longleftrightarrow> list_all (\<lambda>e. Validate (Some e) = None) evs"
  by (induction evs arbitrary: i) (auto split: option.splits)

lemma append_rows_ok:
  assumes "driver_ok d table batch" and "append_rows d evs k = (er, k')"
  shows "table k' = table k \<and> (er = None \<longrightarrow> batch k' = batch k @ map ch_row evs)"
  using assms(2)
proof (induction evs arbitrary: k)
  case Nil
  then show ?case by simp
next
  case (Cons e es)
  obtain er1 k1 where app: "d_Append d k (ch_row e) = (er1, k1)"
    by (cases "d_Append d k (ch_row e)")
  with assms(1) have k1: "table k1 = table k" "er1 = None \<longrightarrow> batch k1 = batch k @ [ch_row e]"
    by (auto simp: driver_ok_def)
  show ?case
    using Cons app k1 by (cases er1) auto
qed

lemma ch_event_store:
  fixes d :: "'k driver"
  assumes d: "driver_ok d table batch"
  shows "event_store (ch_WriteBatch d) (\<lambda>s. table (snd s)) ch_row"
proof
  fix s s' :: "ClickHouse \<times> 'k" and c evs e
  obtain h k where s: "s = (h, k)" by (cases s)
  show "table (snd s') = table (snd s) @ map ch_row evs"
    if "ch_WriteBatch d s c evs = (None, s')"
    using that d append_rows_ok [OF d]
    by (auto simp: s ch_WriteBatch_def driver_ok_def Let_def
        split: option.splits prod.splits if_splits)
  show "list_all (\<lambda>e. Validate (Some e) = None) evs"
    if "ch_WriteBatch d s c evs = (None, s')"
    using that by (auto simp: s ch_WriteBatch_def Let_def ch_validate_None
        split: option.splits prod.splits if_splits)
  show "\<exists>xs. table (snd s') = table (snd s) @ xs"
    if "ch_WriteBatch d s c evs = (Some e, s')"
    using that d append_rows_ok [OF d]
    by (fastforce simp: s ch_WriteBatch_def driver_ok_def Let_def
        split: option.splits prod.splits if_splits)
  show "ch_WriteBatch d s (Some e) evs = (Some e, s)"
    by (simp add: s ch_WriteBatch_def)
  show "table (snd (snd (ch_WriteBatch d s c []))) = table (snd s)"
    by (simp add: s ch_WriteBatch_def split: option.splits)
qed

lemma ping_loop_spec:
  "fst (ping_loop d n er0 k) = None \<longleftrightarrow>
     (if n = 0 then er0 = None
      else (\<exists>i < n. fst (d_Ping d (((\<lambda>k. snd (d_Ping d k)) ^^ i) k)) = None))"
proof (induction n arbitrary: er0 k)
  case 0
  show ?case by simp
next
  case (Suc n)
  obtain er k' where p: "d_Ping d k = (er, k')" by (cases "d_Ping d k")
  show ?case
  proof (cases er)
    case None
    with p show ?thesis by (auto intro: exI [of _ 0])
  next
    case (Some e)
    have shift: "(\<exists>i < Suc n. fst (d_Ping d (((\<lambda>k. snd (d_Ping d k)) ^^ i) k)) = None) \<longleftrightarrow>
        (\<exists>i < n. fst (d_Ping d (((\<lambda>k. snd (d_Ping d k)) ^^ i) k')) = None)"
      using p Some by (auto simp: less_Suc_eq_0_disj funpow_swap1 simp del: funpow.simps
          simp: funpow_simps_right)
    show ?thesis
      using p Some shift Suc [of "Some e" k'] by (cases n) auto
  qed
qed

section \<open>A driver over lists\<close>

text \<open>The table and the batch that is being built, as lists; every operation succeeds.\<close>

definition list_driver :: "(LogEvent list \<times> LogEvent list) driver" where
  "list_driver =
     \<lparr>d_ParseDSN = (\<lambda>_. Inl (ErrExternal ''no DSN'')), d_Open = (\<lambda>_. None), d_Ping = (\<lambda>k. (None, k)),
      d_PrepareBatch = (\<lambda>k c q. (None, (fst k, []))), d_Append = (\<lambda>k r. (None, (fst k, snd k @ [r]))),
      d_Send = (\<lambda>k. (None, (fst k @ snd k, []))), d_Close = (\<lambda>k. (None, k))\<rparr>"

lemma list_driver_ok: "driver_ok list_driver fst snd"
  by (auto simp: driver_ok_def list_driver_def)

interpretation ld: event_store "ch_WriteBatch list_driver" "\<lambda>s. fst (snd s)" ch_row
  by (rule ch_event_store [OF list_driver_ok])

definition open_ch :: ClickHouse where
  "open_ch = \<lparr>ch_cfg = \<lparr>ch_DSN = [], ch_Addr = ''localhost:9000'', ch_Database = ''apexio'', ch_Table = ''logs'',
                        ch_Username = ''default'', ch_Password = [], ch_PingAttempts = 0\<rparr>,
              ch_conn = True, ch_closed = False\<rparr>"

section \<open>Properties\<close>

text \<open>
  A ClickHouse store that corresponds to an in-memory store: the rows are those of the stored events, in
  order, and both are open or both are closed. And a driver that accepts a batch: it prepares the
  batch, takes every row and sends the batch without an error.
\<close>

definition store_sim :: "('k \<Rightarrow> LogEvent list) \<Rightarrow> ClickHouse \<times> 'k \<Rightarrow> MemStore \<Rightarrow> bool" where
  "store_sim table s m \<longleftrightarrow>
     table (snd s) = map ch_row (ms_All m) \<and> (ms_closed m \<longleftrightarrow> ch_closed (fst s) \<or> \<not> ch_conn (fst s))"

definition driver_accepts :: "'k driver \<Rightarrow> ClickHouse \<times> 'k \<Rightarrow> LogEvent list \<Rightarrow> bool" where
  "driver_accepts d s evs \<longleftrightarrow>
     (let (e1, k1) = d_PrepareBatch d (snd s) None (ch_query (ch_cfg (fst s)));
          (e2, k2) = append_rows d evs k1
      in e1 = None \<and> e2 = None \<and> fst (d_Send d k2) = None)"

lemma ch_WriteBatch_handle: "ch_WriteBatch d s c evs = (r, s') \<Longrightarrow> fst s' = fst s"
  by (cases s) (auto simp: ch_WriteBatch_def Let_def split: option.splits prod.splits if_splits)

lemma ch_WriteBatch_None_iff:
  "fst (ch_WriteBatch d s c evs) = None \<longleftrightarrow>
     c = None \<and> \<not> ch_closed (fst s) \<and> ch_conn (fst s) \<and> list_all (\<lambda>e. Validate (Some e) = None) evs
     \<and> (evs = [] \<or> driver_accepts d s evs)"
  using ch_validate_None [of 0 evs]
  by (cases s) (auto simp: ch_WriteBatch_def driver_accepts_def Let_def split: option.splits prod.splits)

lemma ch_WriteBatch_refused:
  "c \<noteq> None \<or> ch_closed (fst s) \<or> \<not> ch_conn (fst s) \<or> \<not> list_all (\<lambda>e. Validate (Some e) = None) evs \<Longrightarrow>
     snd (ch_WriteBatch d s c evs) = s"
  using ch_validate_None [of 0 evs] by (cases s) (auto simp: ch_WriteBatch_def Let_def split: option.splits)

text \<open>
  C11. The ClickHouse store refines the in-memory store, over any driver that keeps its contract: from
  corresponding states, a batch that ClickHouse writes is one that the in-memory store writes, and the
  states correspond again; a batch that the in-memory store refuses leaves ClickHouse as it was; and
  ClickHouse succeeds exactly when the in-memory store does and, for an empty batch, the store is open
  (a closed in-memory store accepts an empty batch and a closed ClickHouse store does not) or, for
  another, the driver accepts the batch. A failure of the driver removes no row.
\<close>

theorem ClickHouse_refines_Memory:
  assumes "driver_ok d table batch" and "store_sim table s m"
    and "ch_WriteBatch d s c evs = (r, s')" and "ms_WriteBatch m c evs = (q, m')"
  shows "(r = None \<longrightarrow> q = None \<and> store_sim table s' m')
    \<and> (q \<noteq> None \<longrightarrow> r \<noteq> None \<and> s' = s)
    \<and> (r = None \<longleftrightarrow> q = None \<and> (if evs = [] then \<not> ms_closed m else driver_accepts d s evs))
    \<and> (\<exists>xs. table (snd s') = table (snd s) @ xs)"
proof -
  note st = ch_event_store [OF assms(1)]
  have closed: "ms_closed m \<longleftrightarrow> ch_closed (fst s) \<or> \<not> ch_conn (fst s)" using assms(2) by (simp add: store_sim_def)
  have "fst (ms_WriteBatch m c evs) = None \<longleftrightarrow>
      c = None \<and> (evs = [] \<or> (list_all (\<lambda>e. Validate (Some e) = None) evs \<and> \<not> ms_closed m))"
    using validate_all_None [of evs] by (auto simp: ms_WriteBatch_def split: option.splits)
  with assms(4) have q: "q = None \<longleftrightarrow>
      c = None \<and> (evs = [] \<or> (list_all (\<lambda>e. Validate (Some e) = None) evs \<and> \<not> ms_closed m))" by simp
  have r: "r = None \<longleftrightarrow> q = None \<and> (if evs = [] then \<not> ms_closed m else driver_accepts d s evs)"
    using ch_WriteBatch_None_iff [of d s c evs] assms(3) q closed by auto
  have "store_sim table s' m'" if "r = None"
  proof -
    have "q = None" using r that by blast
    with assms(4) have "ms_All m' = ms_All m @ evs" "ms_closed m' = ms_closed m"
      by (auto simp: ms_WriteBatch_def ms_All_def split: option.splits if_splits)
    with assms(2) event_store.write_ok [OF st, of s c evs s'] ch_WriteBatch_handle [OF assms(3)] assms(3) that
    show ?thesis by (simp add: store_sim_def)
  qed
  moreover have "s' = s" if "q \<noteq> None"
    using ch_WriteBatch_refused [of c s evs d] that q closed assms(3) by auto
  moreover have "\<exists>xs. table (snd s') = table (snd s) @ xs"
    using event_store.write_ok [OF st] event_store.write_err [OF st] assms(3) by (cases r) auto
  ultimately show ?thesis using r by blast
qed

theorem ClickHouse_refines_Memory_witness:
  "fst (snd (snd (ch_WriteBatch list_driver (open_ch, ([], [])) None [sample_event, sample_event]))) =
   [ch_row sample_event, ch_row sample_event]"
proof -
  let ?s = "(open_ch, ([], []))" and ?evs = "[sample_event, sample_event]"
  have sim: "store_sim fst ?s NewMemStore" by (simp add: store_sim_def open_ch_def NewMemStore_def ms_All_def)
  have ms: "ms_WriteBatch NewMemStore None ?evs = (None, NewMemStore\<lparr>ms_events := ?evs\<rparr>)"
    by (simp add: ms_WriteBatch_def NewMemStore_def event_wf_valid [OF sample_wf])
  obtain r s' where ch: "ch_WriteBatch list_driver ?s None ?evs = (r, s')" by (cases "ch_WriteBatch list_driver ?s None ?evs")
  have "driver_accepts list_driver ?s ?evs" by (simp add: driver_accepts_def list_driver_def)
  with ClickHouse_refines_Memory [OF list_driver_ok sim ch ms] ch show ?thesis
    by (auto simp: store_sim_def ms_All_def)
qed

text \<open>
  C30. Connecting ends: NewClickHouse succeeds exactly when the connection opens and one of the
  configured number of pings, 30 if none is configured, is answered.
\<close>

theorem NewClickHouse_connects:
  "(\<exists>h. fst (NewClickHouse d cfg k) = Inr h) \<longleftrightarrow>
     ch_open d (ch_defaults cfg) = None
     \<and> (\<exists>i < (if ch_PingAttempts cfg < 1 then 30 else nat (ch_PingAttempts cfg)).
          fst (d_Ping d (((\<lambda>k. snd (d_Ping d k)) ^^ i) k)) = None)"
proof -
  have "ch_PingAttempts (ch_defaults cfg) = ch_PingAttempts cfg" by (simp add: ch_defaults_def Let_def)
  then have n: "ping_attempts (ch_defaults cfg) = (if ch_PingAttempts cfg < 1 then 30 else nat (ch_PingAttempts cfg))"
    by (simp add: ping_attempts_def)
  then have "ping_attempts (ch_defaults cfg) \<noteq> 0" by simp
  then show ?thesis
    using ping_loop_spec [of d "ping_attempts (ch_defaults cfg)" None k]
    unfolding n [symmetric] by (auto simp: NewClickHouse_def Let_def split: option.splits prod.splits)
qed

text \<open>
  A closed ClickHouse store never touches its connection again: WriteBatch fails, and closing it a
  second time returns no error, and neither changes the database or the store.
\<close>

lemma ClickHouse_closed_inert:
  assumes "ch_Close d s = (er, s')"
  shows "fst (ch_WriteBatch d s' c evs) \<noteq> None \<and> snd (ch_WriteBatch d s' c evs) = s' \<and> ch_Close d s' = (None, s')"
  using assms by (cases s) (auto simp: ch_Close_def ch_WriteBatch_def Let_def split: option.split if_splits prod.splits)

end
