(* ===== verification/Go_Duration.thy ===== *)
theory Go_Duration
  imports Go_Float
begin

text \<open>
  \<^verbatim>\<open>time.ParseDuration\<close> and \<^verbatim>\<open>strconv.Atoi\<close>, with which the writer reads its settings. A duration is a
  number of nanoseconds.
\<close>

text \<open>A magnitude rounded to the nearest \<^verbatim>\<open>float64\<close>, as float arithmetic does after each operation.\<close>

definition fl :: "rat \<Rightarrow> rat" where
  "fl q = f_abs (f_bits False (round_bits q))"

definition unit_ns :: "string \<Rightarrow> nat option" where
  "unit_ns u =
     (if u = ''ns'' then Some 1
      else if u = ''us'' \<or> u = EncodeRune 181 @ ''s'' \<or> u = EncodeRune 956 @ ''s'' then Some 1000
      else if u = ''ms'' then Some 1000000
      else if u = ''s'' then Some 1000000000
      else if u = ''m'' then Some 60000000000
      else if u = ''h'' then Some 3600000000000
      else None)"

text \<open>\<^verbatim>\<open>leadingInt\<close>: the digits and their value, unless it passes 2 to the 63.\<close>

fun leading_int :: "nat \<Rightarrow> string \<Rightarrow> (nat \<times> string) option" where
  "leading_int x [] = Some (x, [])"
| "leading_int x (c # s) =
     (if \<not> is_digit c then Some (x, c # s)
      else if 2 ^ 63 div 10 < x then None
      else if 2 ^ 63 < 10 * x + digit_val c then None
      else leading_int (10 * x + digit_val c) s)"

text \<open>\<^verbatim>\<open>leadingFraction\<close>: digits that no longer fit are skipped.\<close>

fun leading_fraction :: "nat \<Rightarrow> rat \<Rightarrow> bool \<Rightarrow> string \<Rightarrow> nat \<times> rat \<times> string" where
  "leading_fraction x scale ov [] = (x, scale, [])"
| "leading_fraction x scale ov (c # s) =
     (if \<not> is_digit c then (x, scale, c # s)
      else if ov \<or> (2 ^ 63 - 1) div 10 < x \<or> 2 ^ 63 < 10 * x + digit_val c
      then leading_fraction x scale True s
      else leading_fraction (10 * x + digit_val c) (fl (scale * 10)) False s)"

definition unit_byte :: "char \<Rightarrow> bool" where
  "unit_byte c \<longleftrightarrow> c \<noteq> CHR ''.'' \<and> \<not> is_digit c"

text \<open>The fraction after the integer part, and whether it has any digit.\<close>

definition duration_frac :: "string \<Rightarrow> nat \<times> rat \<times> string \<times> bool" where
  "duration_frac s =
     (case s of
        [] \<Rightarrow> (0, 1, s, False)
      | c # r \<Rightarrow>
          if c = CHR ''.'' then
            (let (x, sc, r') = leading_fraction 0 1 False r in (x, sc, r', r' \<noteq> r))
          else (0, 1, s, False))"

text \<open>One number with its unit: the nanoseconds and the rest of the text.\<close>

definition duration_part :: "string \<Rightarrow> (nat \<times> string) option" where
  "duration_part s =
     (case leading_int 0 s of None \<Rightarrow> None
      | Some (v, s1) \<Rightarrow>
          (let pre = s1 \<noteq> s;
               (f, scale, s2, post) = duration_frac s1;
               u = takeWhile unit_byte s2; s3 = dropWhile unit_byte s2
           in if \<not> pre \<and> \<not> post then None
              else if u = [] then None
              else (case unit_ns u of None \<Rightarrow> None
                | Some unit \<Rightarrow>
                    if 2 ^ 63 div unit < v then None
                    else (let v1 = v * unit;
                              v2 = (if 0 < f then v1 + nat \<lfloor>fl (fl (of_nat f) * fl (of_nat unit / scale))\<rfloor>
                                    else v1)
                          in if 2 ^ 63 < v2 then None else Some (v2, s3)))))"

lemma leading_int_length: "leading_int x s = Some (v, r) \<Longrightarrow> length r \<le> length s"
  by (induction x s rule: leading_int.induct) (auto split: if_splits)

lemma leading_fraction_length: "leading_fraction x sc ov s = (v, sc', r) \<Longrightarrow> length r \<le> length s"
  by (induction x sc ov s rule: leading_fraction.induct)
    (auto split: if_splits simp: Let_def intro: le_SucI)

lemma dropWhile_less:
  "takeWhile P s \<noteq> [] \<Longrightarrow> length (dropWhile P s) < length s"
proof (induction s)
  case (Cons c s)
  then show ?case
    by (metis dropWhile.simps(2) le_imp_less_Suc length_Cons length_dropWhile_le takeWhile.simps(2))
qed simp

lemma duration_part_length:
  assumes "duration_part s = Some (v, r)"
  shows "length r < length s"
proof -
  obtain v0 s1 where li: "leading_int 0 s = Some (v0, s1)"
    using assms by (auto simp: duration_part_def split: option.splits)
  obtain f sc s2 post where mid: "duration_frac s1 = (f, sc, s2, post)"
    by (cases "duration_frac s1") auto
  have "length s2 \<le> length s1"
    using mid by (auto simp: duration_frac_def split: list.splits if_splits prod.splits
        dest!: leading_fraction_length)
  moreover have "takeWhile unit_byte s2 \<noteq> []" and "r = dropWhile unit_byte s2"
    using assms li mid by (auto simp: duration_part_def Let_def split: option.splits if_splits)
  ultimately show ?thesis
    using leading_int_length [OF li] dropWhile_less [of unit_byte s2] by simp
qed

function duration_sum :: "nat \<Rightarrow> string \<Rightarrow> nat option" where
  "duration_sum d s =
     (if s = [] then Some d
      else (case duration_part s of None \<Rightarrow> None
        | Some (v, r) \<Rightarrow> if 2 ^ 63 < d + v then None else duration_sum (d + v) r))"
  by pat_completeness auto
termination
  by (relation "measure (length \<circ> snd)") (auto dest: duration_part_length)

declare duration_sum.simps [simp del]

definition ParseDuration :: "string \<Rightarrow> int option" where
  "ParseDuration s0 =
     (let (neg, s) = strip_sign s0 in
      if s = ''0'' then Some 0
      else if s = [] then None
      else (case duration_sum 0 s of None \<Rightarrow> None
        | Some d \<Rightarrow> if neg then Some (- int d) else if 2 ^ 63 - 1 < d then None else Some (int d)))"

lemmas go_duration_eval [go_eval] =
  fl_def unit_ns_def unit_byte_def duration_frac_def duration_part_def duration_sum.simps ParseDuration_def

end
