(* ===== verification/Writer.thy ===== *)
theory Writer
  imports ClickHouse Redpanda Go_Duration Go_Http "HOL-Library.Sublist"
begin

text \<open>
  Command \<^verbatim>\<open>cmd/writer\<close>: the batch processor, the consuming loop, the counters and the settings. The
  store is any implementation of \<open>WriteBatch\<close>, an argument \<open>wb\<close> on a state \<open>'s\<close>; what the Kafka reader,
  the ticker and the context answer in each iteration of the loop is its input.
\<close>

section \<open>Counters\<close>

record writerMetrics =
  eventsWritten :: uint64
  batchesFlush :: uint64
  decodeErrors :: uint64
  writeErrors :: uint64

definition zero_writerMetrics :: writerMetrics where
  "zero_writerMetrics = \<lparr>eventsWritten = 0, batchesFlush = 0, decodeErrors = 0, writeErrors = 0\<rparr>"

definition incEventsWritten :: "uint64 \<Rightarrow> writerMetrics \<Rightarrow> writerMetrics" where
  "incEventsWritten n m = m\<lparr>eventsWritten := eventsWritten m + n\<rparr>"

definition incBatchesFlushed :: "writerMetrics \<Rightarrow> writerMetrics" where
  "incBatchesFlushed m = m\<lparr>batchesFlush := batchesFlush m + 1\<rparr>"

definition incDecodeErrors :: "writerMetrics \<Rightarrow> writerMetrics" where
  "incDecodeErrors m = m\<lparr>decodeErrors := decodeErrors m + 1\<rparr>"

definition incWriteErrors :: "writerMetrics \<Rightarrow> writerMetrics" where
  "incWriteErrors m = m\<lparr>writeErrors := writeErrors m + 1\<rparr>"

text \<open>One counter of the metrics page: its help and type lines and its value.\<close>

definition counter_text :: "string \<Rightarrow> string \<Rightarrow> uint64 \<Rightarrow> string" where
  "counter_text name help n =
     (let nl = [char_of (10::nat)] in
      ''# HELP '' @ name @ '' '' @ help @ nl @ ''# TYPE '' @ name @ '' counter'' @ nl
      @ name @ '' '' @ show_nat (unat n) @ nl)"

definition writer_metrics_text :: "writerMetrics \<Rightarrow> string" where
  "writer_metrics_text m =
     counter_text ''apexio_writer_events_written_total'' ''Events persisted to ClickHouse'' (eventsWritten m)
     @ counter_text ''apexio_writer_batches_flushed_total'' ''ClickHouse batch flushes'' (batchesFlush m)
     @ counter_text ''apexio_writer_decode_errors_total'' ''Failed event decodes'' (decodeErrors m)
     @ counter_text ''apexio_writer_write_errors_total'' ''Failed batch writes (after retries)'' (writeErrors m)"

section \<open>Batch processor\<close>

text \<open>Durations are in nanoseconds.\<close>

record batchConfig =
  BatchSize :: int
  FlushInterval :: int
  MaxRetries :: int
  RetryBackoff :: int

definition newBatchProcessor :: "batchConfig \<Rightarrow> batchConfig" where
  "newBatchProcessor cfg0 =
     (let cfg1 = (if BatchSize cfg0 < 1 then cfg0\<lparr>BatchSize := 1\<rparr> else cfg0);
          cfg2 = (if FlushInterval cfg1 \<le> 0 then cfg1\<lparr>FlushInterval := 1000000000\<rparr> else cfg1);
          cfg3 = (if MaxRetries cfg2 < 1 then cfg2\<lparr>MaxRetries := 3\<rparr> else cfg2)
      in if RetryBackoff cfg3 \<le> 0 then cfg3\<lparr>RetryBackoff := 200000000\<rparr> else cfg3)"

type_synonym 's write_batch = "'s \<Rightarrow> ctx \<Rightarrow> LogEvent list \<Rightarrow> err option \<times> 's"

text \<open>
  The retry loop with \<open>n\<close> attempts left, of which the next has number \<open>a\<close>; \<open>ctx a\<close> is the context's
  error at attempt \<open>a\<close> and \<open>er\<close> the last error. The sleep between attempts changes no state.
\<close>

fun retry_loop ::
  "'s write_batch \<Rightarrow> (nat \<Rightarrow> ctx) \<Rightarrow> LogEvent list \<Rightarrow> nat \<Rightarrow> nat \<Rightarrow> err \<Rightarrow> 's \<Rightarrow> err option \<times> 's" where
  "retry_loop wb ctx evs 0 a er s = (Some er, s)"
| "retry_loop wb ctx evs (Suc n) a er s =
     (case wb s (ctx a) evs of
        (None, s') \<Rightarrow> (None, s')
      | (Some e, s') \<Rightarrow> retry_loop wb ctx evs n (a + 1) e s')"

definition nil_error :: err where
  "nil_error = ErrNew ''%!w(<nil>)''"

definition writeWithRetry ::
  "'s write_batch \<Rightarrow> batchConfig \<Rightarrow> (nat \<Rightarrow> ctx) \<Rightarrow> LogEvent list \<Rightarrow> 's \<Rightarrow> err option \<times> 's" where
  "writeWithRetry wb cfg ctx evs s =
     (case retry_loop wb ctx evs (nat (MaxRetries cfg)) 1 nil_error s of
        (None, s') \<Rightarrow> (None, s')
      | (Some e, s') \<Rightarrow>
          (Some (Wrap ''write batch after %d retries: %w'' [ArgD (MaxRetries cfg)] e), s'))"

definition flush ::
  "'s write_batch \<Rightarrow> batchConfig \<Rightarrow> (nat \<Rightarrow> ctx) \<Rightarrow> LogEvent list \<Rightarrow> 's \<times> writerMetrics
   \<Rightarrow> err option \<times> ('s \<times> writerMetrics)" where
  "flush wb cfg ctx evs st =
     (let (s, m) = st in
      if length evs = 0 then (None, st)
      else (case writeWithRetry wb cfg ctx evs s of
          (Some e, s') \<Rightarrow> (Some e, (s', incWriteErrors m))
        | (None, s') \<Rightarrow> (None, (s', incBatchesFlushed (incEventsWritten (of_nat (length evs)) m)))))"

section \<open>Consumer\<close>

record kafka_Message =
  km_Topic :: string
  km_Partition :: int
  km_Offset :: int
  km_Key :: bytes
  km_Value :: bytes

text \<open>
  The inputs of one iteration: what \<open>FetchMessage\<close> returns, whether the ticker has fired, the
  context's error where the loop asks for it and at each attempt of a write, and what
  \<open>CommitMessages\<close> returns, if it is called.
\<close>

record loop_in =
  li_fetch :: "kafka_Message res"
  li_tick :: bool
  li_ctx :: ctx
  li_wctx :: "nat \<Rightarrow> ctx"
  li_commit :: "err option"

text \<open>
  The variables of \<open>runConsumer\<close> with the store and the counters; \<open>c_committed\<close> lists the messages
  whose commit succeeded.
\<close>

record 's consumer =
  c_events :: "LogEvent list"
  c_msgs :: "kafka_Message list"
  c_committed :: "kafka_Message list"
  c_store :: 's
  c_metrics :: writerMetrics

definition init_consumer :: "'s \<Rightarrow> writerMetrics \<Rightarrow> 's consumer" where
  "init_consumer s m =
     \<lparr>c_events = [], c_msgs = [], c_committed = [], c_store = s, c_metrics = m\<rparr>"

text \<open>The closure \<open>flush\<close>: write, then commit, then empty the buffers.\<close>

definition flush_commit ::
  "'s write_batch \<Rightarrow> batchConfig \<Rightarrow> loop_in \<Rightarrow> 's consumer \<Rightarrow> err option \<times> 's consumer" where
  "flush_commit wb cfg i st =
     (if length (c_events st) = 0 then (None, st)
      else (case flush wb cfg (li_wctx i) (c_events st) (c_store st, c_metrics st) of
          (Some e, (s', m')) \<Rightarrow> (Some e, st\<lparr>c_store := s', c_metrics := m'\<rparr>)
        | (None, (s', m')) \<Rightarrow>
            (let st1 = st\<lparr>c_store := s', c_metrics := m'\<rparr> in
             case li_commit i of
               Some e \<Rightarrow> (Some (Wrap ''writer: commit: %w'' [] e), st1)
             | None \<Rightarrow>
                 (None, st1\<lparr>c_committed := c_committed st @ c_msgs st, c_events := [], c_msgs := []\<rparr>))))"

text \<open>One iteration: \<open>Some r\<close> when the loop returns \<open>r\<close>, \<open>None\<close> when it goes on.\<close>

definition consumer_iter ::
  "'s write_batch \<Rightarrow> batchConfig \<Rightarrow> loop_in \<Rightarrow> 's consumer \<Rightarrow> err option option \<times> 's consumer" where
  "consumer_iter wb cfg i st =
     (case li_fetch i of
        Inr msg \<Rightarrow>
          (case UnmarshalEvent (km_Value msg) of
             Inl e \<Rightarrow>
               (Some (Some (Wrap ''writer: decode: %w'' [] e)),
                st\<lparr>c_metrics := incDecodeErrors (c_metrics st)\<rparr>)
           | Inr ev \<Rightarrow>
               (let st1 = st\<lparr>c_events := c_events st @ [ev], c_msgs := c_msgs st @ [msg]\<rparr> in
                if BatchSize cfg \<le> int (length (c_events st1)) then
                  (case flush_commit wb cfg i st1 of
                     (Some e, st2) \<Rightarrow> (Some (Some e), st2)
                   | (None, st2) \<Rightarrow> (None, st2))
                else (None, st1)))
      | Inl e \<Rightarrow>
          if errors_Is e DeadlineExceeded then
            (case (if li_tick i then flush_commit wb cfg i st else (None, st)) of
               (Some e', st1) \<Rightarrow> (Some (Some e'), st1)
             | (None, st1) \<Rightarrow>
                 if li_ctx i \<noteq> None then
                   (case flush_commit wb cfg i st1 of (r, st2) \<Rightarrow> (Some r, st2))
                 else (None, st1))
          else if errors_Is e Canceled then
            (case flush_commit wb cfg i st of (r, st1) \<Rightarrow> (Some r, st1))
          else (Some (Some (Wrap ''writer: fetch: %w'' [] e)), st))"

text \<open>The loop on a finite run of inputs; the result \<open>None\<close> is that it has not returned.\<close>

fun consumer_loop ::
  "'s write_batch \<Rightarrow> batchConfig \<Rightarrow> loop_in list \<Rightarrow> 's consumer \<Rightarrow> err option option \<times> 's consumer" where
  "consumer_loop wb cfg [] st = (None, st)"
| "consumer_loop wb cfg (i # is) st =
     (case consumer_iter wb cfg i st of
        (Some r, st') \<Rightarrow> (Some r, st')
      | (None, st') \<Rightarrow> consumer_loop wb cfg is st')"

definition runConsumer ::
  "'s write_batch \<Rightarrow> batchConfig \<Rightarrow> string \<Rightarrow> loop_in list \<Rightarrow> 's consumer
   \<Rightarrow> err option option \<times> 's consumer" where
  "runConsumer wb cfg topic is st =
     (if topic = [] then (Some (Some (ErrNew ''writer: topic is required'')), st)
      else consumer_loop wb cfg is st)"

section \<open>Settings\<close>

definition w_envOr :: "(string \<Rightarrow> string) \<Rightarrow> string \<Rightarrow> string \<Rightarrow> string" where
  "w_envOr env key fallback = (if env key \<noteq> [] then env key else fallback)"

definition envInt :: "(string \<Rightarrow> string) \<Rightarrow> string \<Rightarrow> int \<Rightarrow> int" where
  "envInt env key fallback =
     (let v = env key in
      if v = [] then fallback else (case ParseInt v of None \<Rightarrow> fallback | Some n \<Rightarrow> n))"

definition envDuration :: "(string \<Rightarrow> string) \<Rightarrow> string \<Rightarrow> int \<Rightarrow> int" where
  "envDuration env key fallback =
     (let v = env key in
      if v = [] then fallback else (case ParseDuration v of None \<Rightarrow> fallback | Some d \<Rightarrow> d))"

record writer_config =
  wc_bus :: RedpandaConfig
  wc_clickhouse :: ClickHouseConfig
  wc_topic :: string
  wc_healthAddr :: string
  wc_batch :: batchConfig

definition writer_config_of :: "(string \<Rightarrow> string) \<Rightarrow> writer_config" where
  "writer_config_of env =
     \<lparr>wc_bus = \<lparr>cfg_Brokers = Split (w_envOr env ''REDPANDA_BROKERS'' ''localhost:19092'') (CHR '',''),
                cfg_ClientID = w_envOr env ''REDPANDA_CLIENT_ID'' ''apexio-writer'',
                cfg_GroupID = w_envOr env ''REDPANDA_GROUP_ID'' ''apexio-writer''\<rparr>,
      wc_clickhouse =
        \<lparr>ch_DSN = [],
         ch_Addr = w_envOr env ''CLICKHOUSE_ADDR'' ''localhost:9000'',
         ch_Database = w_envOr env ''CLICKHOUSE_DATABASE'' ''apexio'',
         ch_Table = w_envOr env ''CLICKHOUSE_TABLE'' ''logs'',
         ch_Username = w_envOr env ''CLICKHOUSE_USER'' ''default'',
         ch_Password = env ''CLICKHOUSE_PASSWORD'',
         ch_PingAttempts = 0\<rparr>,
      wc_topic = w_envOr env ''LOG_TOPIC'' DefaultTopic,
      wc_healthAddr = w_envOr env ''WRITER_HEALTH_ADDR'' '':8081'',
      wc_batch = newBatchProcessor
        \<lparr>BatchSize = envInt env ''WRITER_BATCH_SIZE'' 50,
         FlushInterval = envDuration env ''WRITER_FLUSH_INTERVAL'' 1000000000,
         MaxRetries = envInt env ''WRITER_MAX_RETRIES'' 3,
         RetryBackoff = envDuration env ''WRITER_RETRY_BACKOFF'' 200000000\<rparr>\<rparr>"

text \<open>The writer's own HTTP routes.\<close>

definition w_healthz :: "'s handler" where
  "w_healthz r s = (\<lparr>w_Status = 200, w_ContentType = None, w_Body = Text ''ok''\<rparr>, s)"

definition w_metrics_handler :: "writerMetrics handler" where
  "w_metrics_handler r m =
     (\<lparr>w_Status = 200, w_ContentType = Some ''text/plain; version=0.0.4'',
       w_Body = Text (writer_metrics_text m)\<rparr>, m)"

definition writer_mux :: "writerMetrics handler" where
  "writer_mux =
     mux_dispatch [(''GET'', ''/healthz'', w_healthz), (''GET'', ''/metrics'', w_metrics_handler)]"

text \<open>
  \<open>main\<close> on the inputs of the consuming loop: the exit status, \<open>None\<close> while the loop runs, and the
  database. A cancellation is a clean exit, which closes the store; \<^verbatim>\<open>log.Fatalf\<close> exits with status 1
  and runs no deferred call. The health server runs beside the loop: \<open>health\<close> is \<open>Some n\<close> if its
  \<^verbatim>\<open>ListenAndServe\<close> fails once the loop has gone through \<open>n\<close> iterations, which ends the process there
  unless the loop has returned by then. (A process that dies inside an iteration has written and
  committed what an iteration whose write or commit fails at that point has, with the same status.)
\<close>

definition writer_exit :: "err option \<Rightarrow> nat" where
  "writer_exit r =
     (case r of Some e \<Rightarrow> if errors_Is e Canceled then 0 else 1 | None \<Rightarrow> 0)"

definition iterations :: "nat option \<Rightarrow> loop_in list \<Rightarrow> loop_in list" where
  "iterations health is = (case health of None \<Rightarrow> is | Some n \<Rightarrow> take n is)"

definition health_exit :: "nat option \<Rightarrow> loop_in list \<Rightarrow> nat option" where
  "health_exit health is =
     (case health of None \<Rightarrow> None | Some n \<Rightarrow> if n \<le> length is then Some 1 else None)"

definition writer_main ::
  "'k driver \<Rightarrow> (string \<Rightarrow> string) \<Rightarrow> nat option \<Rightarrow> loop_in list \<Rightarrow> 'k
   \<Rightarrow> nat option \<times> (ClickHouse \<times> 'k) consumer option \<times> 'k" where
  "writer_main d env health is k =
     (let cfg = writer_config_of env in
      case NewClickHouse d (wc_clickhouse cfg) k of
        (Inl e, k') \<Rightarrow> (Some 1, None, k')
      | (Inr db, k') \<Rightarrow>
          (case runConsumer (ch_WriteBatch d) (wc_batch cfg) (wc_topic cfg) (iterations health is)
                  (init_consumer (db, k') zero_writerMetrics) of
             (None, st) \<Rightarrow> (health_exit health is, Some st, snd (c_store st))
           | (Some r, st) \<Rightarrow>
               (if writer_exit r = 0
                then (Some 0, Some st, snd (snd (ch_Close d (c_store st))))
                else (Some (writer_exit r), Some st, snd (c_store st)))))"

section \<open>Retries\<close>

text \<open>The store after the first \<open>i\<close> attempts of a write, if they all fail.\<close>

fun attempt_state :: "'s write_batch \<Rightarrow> (nat \<Rightarrow> ctx) \<Rightarrow> LogEvent list \<Rightarrow> nat \<Rightarrow> nat \<Rightarrow> 's \<Rightarrow> 's" where
  "attempt_state wb ctx evs a 0 s = s"
| "attempt_state wb ctx evs a (Suc i) s = attempt_state wb ctx evs (a + 1) i (snd (wb s (ctx a) evs))"

lemma retry_loop_None:
  "fst (retry_loop wb ctx evs n a er s) = None \<longleftrightarrow>
     (\<exists>i < n. fst (wb (attempt_state wb ctx evs a i s) (ctx (a + i)) evs) = None)"
proof (induction n arbitrary: a er s)
  case 0
  show ?case by simp
next
  case (Suc n)
  obtain r s1 where w: "wb s (ctx a) evs = (r, s1)" by (cases "wb s (ctx a) evs")
  show ?case
  proof (cases r)
    case None
    with w show ?thesis by (auto intro!: exI [of _ 0])
  next
    case (Some e)
    have "(\<exists>i < Suc n. fst (wb (attempt_state wb ctx evs a i s) (ctx (a + i)) evs) = None) \<longleftrightarrow>
        (\<exists>i < n. fst (wb (attempt_state wb ctx evs (a + 1) i s1) (ctx (a + 1 + i)) evs) = None)"
      using w Some by (auto simp: less_Suc_eq_0_disj)
    with w Some Suc show ?thesis by simp
  qed
qed

text \<open>What a retried write leaves in a store that keeps its contract.\<close>

context event_store
begin

lemma retry_ok:
  "retry_loop write_batch ctx evs n a er s = (None, s') \<Longrightarrow>
     (\<exists>xs. rows s' = rows s @ xs @ map as_row evs) \<and> list_all (\<lambda>e. Validate (Some e) = None) evs"
proof (induction n arbitrary: a er s)
  case (Suc n)
  obtain r s1 where w: "write_batch s (ctx a) evs = (r, s1)" by (cases "write_batch s (ctx a) evs")
  show ?case
  proof (cases r)
    case None
    with Suc.prems w write_ok write_valid show ?thesis by fastforce
  next
    case (Some e)
    with w write_err obtain ys where "rows s1 = rows s @ ys" by blast
    with Suc w Some show ?thesis by fastforce
  qed
qed simp

lemma retry_err:
  "retry_loop write_batch ctx evs n a er s = (Some e, s') \<Longrightarrow> \<exists>xs. rows s' = rows s @ xs"
proof (induction n arbitrary: a er s)
  case (Suc n)
  obtain r s1 where w: "write_batch s (ctx a) evs = (r, s1)" by (cases "write_batch s (ctx a) evs")
  show ?case
  proof (cases r)
    case None
    with Suc.prems w show ?thesis by simp
  next
    case (Some e')
    with w write_err obtain ys where "rows s1 = rows s @ ys" by blast
    with Suc w Some show ?thesis by fastforce
  qed
qed simp

lemma retry_done:
  "(\<And>i. ctx i \<noteq> None) \<Longrightarrow>
     snd (retry_loop write_batch ctx evs n a er s) = s \<and> fst (retry_loop write_batch ctx evs n a er s) \<noteq> None"
proof (induction n arbitrary: a er)
  case (Suc n)
  then obtain e where "ctx a = Some e" by blast
  with write_ctx Suc show ?case by simp
qed simp

lemma writeWithRetry_ok:
  "writeWithRetry write_batch cfg ctx evs s = (None, s') \<Longrightarrow>
     (\<exists>xs. rows s' = rows s @ xs @ map as_row evs) \<and> list_all (\<lambda>e. Validate (Some e) = None) evs"
  by (auto simp: writeWithRetry_def split: prod.splits option.splits dest: retry_ok)

lemma writeWithRetry_err:
  "writeWithRetry write_batch cfg ctx evs s = (Some e, s') \<Longrightarrow> \<exists>xs. rows s' = rows s @ xs"
  by (auto simp: writeWithRetry_def split: prod.splits option.splits dest: retry_err)

lemma writeWithRetry_done:
  "(\<And>i. ctx i \<noteq> None) \<Longrightarrow>
     snd (writeWithRetry write_batch cfg ctx evs s) = s \<and> fst (writeWithRetry write_batch cfg ctx evs s) \<noteq> None"
  using retry_done [of ctx evs "nat (MaxRetries cfg)" 1 nil_error s]
  by (auto simp: writeWithRetry_def split: prod.splits option.splits)

end

context atomic_store
begin

lemma retry_atomic:
  "retry_loop write_batch ctx evs n a er s = (r, s') \<Longrightarrow>
     rows s' = rows s @ (if r = None then map as_row evs else [])"
proof (induction n arbitrary: a er s)
  case (Suc n)
  obtain q s1 where w: "write_batch s (ctx a) evs = (q, s1)" by (cases "write_batch s (ctx a) evs")
  show ?case
  proof (cases q)
    case None
    with Suc.prems w write_ok show ?thesis by fastforce
  next
    case (Some e)
    with w write_atomic have "rows s1 = rows s" by blast
    with Suc w Some show ?thesis by fastforce
  qed
qed auto

lemma writeWithRetry_atomic:
  "writeWithRetry write_batch cfg ctx evs s = (r, s') \<Longrightarrow>
     rows s' = rows s @ (if r = None then map as_row evs else [])"
  by (auto simp: writeWithRetry_def split: prod.splits option.splits dest: retry_atomic)

end

section \<open>What the loop keeps\<close>

text \<open>The events of messages that decode.\<close>

definition decodes :: "kafka_Message \<Rightarrow> bool" where
  "decodes m \<longleftrightarrow> (\<exists>e. UnmarshalEvent (km_Value m) = Inr e)"

definition decoded :: "kafka_Message list \<Rightarrow> LogEvent list" where
  "decoded ms = map (\<lambda>m. case UnmarshalEvent (km_Value m) of Inr e \<Rightarrow> e | Inl _ \<Rightarrow> zero_event) ms"

lemma decoded_simps [simp]:
  "decoded [] = []"
  "decoded (xs @ ys) = decoded xs @ decoded ys"
  "length (decoded xs) = length xs"
  by (simp_all add: decoded_def)

lemma decoded_one [simp]: "UnmarshalEvent (km_Value m) = Inr e \<Longrightarrow> decoded [m] = [e]"
  by (simp add: decoded_def)

text \<open>The messages that the fetches of a run return.\<close>

fun fetched :: "loop_in list \<Rightarrow> kafka_Message list" where
  "fetched [] = []"
| "fetched (i # is) = (case li_fetch i of Inr m \<Rightarrow> m # fetched is | Inl _ \<Rightarrow> fetched is)"

text \<open>The buffer holds the decoded events of the messages that wait for their commit.\<close>

definition buffer_ok :: "'s consumer \<Rightarrow> bool" where
  "buffer_ok st \<longleftrightarrow> list_all decodes (c_committed st @ c_msgs st) \<and> c_events st = decoded (c_msgs st)"

text \<open>
  The cases of the closure \<open>flush\<close>: nothing to do; a write and a commit; a write whose commit fails;
  a write that fails.
\<close>

lemma flush_commit_cases:
  assumes "flush_commit wb cfg i st = (r, st')"
  obtains (empty) "c_events st = []" "r = None" "st' = st"
  | (written) s' m' where "c_events st \<noteq> []" "r = None" "li_commit i = None"
      "writeWithRetry wb cfg (li_wctx i) (c_events st) (c_store st) = (None, s')"
      "m' = incBatchesFlushed (incEventsWritten (of_nat (length (c_events st))) (c_metrics st))"
      "st' = st\<lparr>c_store := s', c_metrics := m', c_committed := c_committed st @ c_msgs st,
               c_events := [], c_msgs := []\<rparr>"
  | (uncommitted) s' m' e where "c_events st \<noteq> []" "li_commit i = Some e"
      "r = Some (Wrap ''writer: commit: %w'' [] e)"
      "writeWithRetry wb cfg (li_wctx i) (c_events st) (c_store st) = (None, s')"
      "m' = incBatchesFlushed (incEventsWritten (of_nat (length (c_events st))) (c_metrics st))"
      "st' = st\<lparr>c_store := s', c_metrics := m'\<rparr>"
  | (failed) s' e where "c_events st \<noteq> []" "r = Some e"
      "writeWithRetry wb cfg (li_wctx i) (c_events st) (c_store st) = (Some e, s')"
      "st' = st\<lparr>c_store := s', c_metrics := incWriteErrors (c_metrics st)\<rparr>"
proof (cases "c_events st = []")
  case True
  show ?thesis by (rule empty) (use True assms in \<open>simp_all add: flush_commit_def\<close>)
next
  case False
  obtain q s' where w: "writeWithRetry wb cfg (li_wctx i) (c_events st) (c_store st) = (q, s')"
    by (cases "writeWithRetry wb cfg (li_wctx i) (c_events st) (c_store st)")
  note fc = False w assms
  show ?thesis
  proof (cases q)
    case None
    show ?thesis
    proof (cases "li_commit i")
      case None
      show ?thesis
        by (rule written [of s']) (use fc \<open>q = None\<close> None in \<open>auto simp: flush_commit_def flush_def Let_def\<close>)
    next
      case (Some e)
      show ?thesis
        by (rule uncommitted [of e s']) (use fc \<open>q = None\<close> Some in \<open>auto simp: flush_commit_def flush_def Let_def\<close>)
    qed
  next
    case (Some e)
    show ?thesis
      by (rule failed [of e s']) (use fc Some in \<open>auto simp: flush_commit_def flush_def Let_def\<close>)
  qed
qed

lemma flush_commit_buffer:
  assumes "flush_commit wb cfg i st = (r, st')" and "buffer_ok st"
  shows "buffer_ok st' \<and> c_committed st' @ c_msgs st' = c_committed st @ c_msgs st
         \<and> (r = None \<longrightarrow> c_events st' = [])"
  using assms(1)
  by (cases rule: flush_commit_cases) (use assms(2) in \<open>auto simp: buffer_ok_def\<close>)

text \<open>The cases of one iteration, over the fetch and the flushes it makes.\<close>

lemma consumer_iter_cases:
  assumes "consumer_iter wb cfg i st = (q, st')"
  obtains (undecodable) m e where "li_fetch i = Inr m" "UnmarshalEvent (km_Value m) = Inl e"
      "q = Some (Some (Wrap ''writer: decode: %w'' [] e))"
      "st' = st\<lparr>c_metrics := incDecodeErrors (c_metrics st)\<rparr>"
  | (buffered) m ev where "li_fetch i = Inr m" "UnmarshalEvent (km_Value m) = Inr ev" "q = None"
      "int (length (c_events st)) + 1 < BatchSize cfg"
      "st' = st\<lparr>c_events := c_events st @ [ev], c_msgs := c_msgs st @ [m]\<rparr>"
  | (full) m ev r where "li_fetch i = Inr m" "UnmarshalEvent (km_Value m) = Inr ev"
      "BatchSize cfg \<le> int (length (c_events st)) + 1"
      "flush_commit wb cfg i (st\<lparr>c_events := c_events st @ [ev], c_msgs := c_msgs st @ [m]\<rparr>) = (r, st')"
      "q = map_option Some r"
  | (tick) e r where "li_fetch i = Inl e" "errors_Is e DeadlineExceeded" "li_tick i"
      "flush_commit wb cfg i st = (r, st')" "q = map_option Some r" "r \<noteq> None \<or> li_ctx i = None"
  | (tick_done) e st1 r where "li_fetch i = Inl e" "errors_Is e DeadlineExceeded" "li_tick i"
      "flush_commit wb cfg i st = (None, st1)" "li_ctx i \<noteq> None" "flush_commit wb cfg i st1 = (r, st')"
      "q = Some r"
  | (idle) e where "li_fetch i = Inl e" "errors_Is e DeadlineExceeded" "\<not> li_tick i" "li_ctx i = None"
      "q = None" "st' = st"
  | (stopping) e r where "li_fetch i = Inl e" "flush_commit wb cfg i st = (r, st')" "q = Some r"
      "(errors_Is e DeadlineExceeded \<and> \<not> li_tick i \<and> li_ctx i \<noteq> None)
       \<or> (\<not> errors_Is e DeadlineExceeded \<and> errors_Is e Canceled)"
  | (fetch_error) e where "li_fetch i = Inl e" "\<not> errors_Is e DeadlineExceeded" "\<not> errors_Is e Canceled"
      "q = Some (Some (Wrap ''writer: fetch: %w'' [] e))" "st' = st"
proof (cases "li_fetch i")
  case (Inr m)
  then show ?thesis
    using assms undecodable buffered full
    by (cases "UnmarshalEvent (km_Value m)")
      (auto simp: consumer_iter_def Let_def split: if_splits prod.splits option.splits)
next
  case (Inl e)
  then show ?thesis
    using assms tick tick_done idle stopping fetch_error
    by (auto simp: consumer_iter_def split: if_splits prod.splits option.splits)
qed

lemma fetched_append [simp]: "fetched (xs @ ys) = fetched xs @ fetched ys"
  by (induction xs) (auto split: sum.splits)

text \<open>An iteration keeps the buffer in step and below the batch size, and loses no fetched message.\<close>

lemma consumer_iter_buffer:
  assumes it: "consumer_iter wb cfg i st = (q, st')" and b: "buffer_ok st"
    and n: "1 \<le> BatchSize cfg" "int (length (c_events st)) < BatchSize cfg"
  shows "buffer_ok st'"
    and "\<exists>rest. c_committed st @ c_msgs st @ fetched [i] = c_committed st' @ c_msgs st' @ rest
           \<and> (q = None \<longrightarrow> rest = [])"
    and "q = None \<longrightarrow> int (length (c_events st')) < BatchSize cfg"
proof -
  have "buffer_ok st' \<and>
     (\<exists>rest. c_committed st @ c_msgs st @ fetched [i] = c_committed st' @ c_msgs st' @ rest
           \<and> (q = None \<longrightarrow> rest = []))
     \<and> (q = None \<longrightarrow> int (length (c_events st')) < BatchSize cfg)"
    using it
  proof (cases rule: consumer_iter_cases)
    case (full m ev r)
    then have "buffer_ok (st\<lparr>c_events := c_events st @ [ev], c_msgs := c_msgs st @ [m]\<rparr>)"
      using b by (auto simp: buffer_ok_def decodes_def)
    from flush_commit_buffer [OF full(4) this] full n show ?thesis
      by (intro conjI exI [of _ "[]"]) simp_all
  next
    case (tick e r)
    from flush_commit_buffer [OF tick(4) b] tick n show ?thesis
      by (intro conjI exI [of _ "[]"]) simp_all
  next
    case (tick_done e st1 r)
    from flush_commit_buffer [OF tick_done(4) b] flush_commit_buffer [OF tick_done(6)] tick_done n
    show ?thesis by (intro conjI exI [of _ "[]"]) simp_all
  next
    case (stopping e r)
    from flush_commit_buffer [OF stopping(2) b] stopping n show ?thesis
      by (intro conjI exI [of _ "[]"]) simp_all
  qed (use b n in \<open>auto simp: buffer_ok_def decodes_def\<close>)
  then show "buffer_ok st'"
    and "\<exists>rest. c_committed st @ c_msgs st @ fetched [i] = c_committed st' @ c_msgs st' @ rest
           \<and> (q = None \<longrightarrow> rest = [])"
    and "q = None \<longrightarrow> int (length (c_events st')) < BatchSize cfg"
    by blast+
qed

lemma consumer_loop_buffer:
  assumes "consumer_loop wb cfg is st = (q, st')" and "buffer_ok st"
    and "1 \<le> BatchSize cfg" "int (length (c_events st)) < BatchSize cfg"
  shows "buffer_ok st' \<and>
     (\<exists>rest. c_committed st @ c_msgs st @ fetched is = c_committed st' @ c_msgs st' @ rest
           \<and> (q = None \<longrightarrow> rest = []))
     \<and> (q = None \<longrightarrow> int (length (c_events st')) < BatchSize cfg)"
  using assms
proof (induction "is" arbitrary: st)
  case Nil
  then show ?case by simp
next
  case (Cons i "is")
  obtain q1 st1 where it: "consumer_iter wb cfg i st = (q1, st1)"
    by (cases "consumer_iter wb cfg i st")
  note s = consumer_iter_buffer [OF it Cons.prems(2-4)]
  have split: "fetched (i # is) = fetched [i] @ fetched is"
    by (simp split: sum.splits)
  show ?case
  proof (cases q1)
    case None
    then have "consumer_loop wb cfg is st1 = (q, st')"
      using Cons.prems(1) it by simp
    from Cons.IH [OF this s(1) Cons.prems(3)] s None split show ?thesis
      by (auto simp flip: append_assoc)
  next
    case (Some r)
    then have "q = Some r" "st' = st1"
      using Cons.prems(1) it by auto
    with s split Some show ?thesis
      by (metis append.assoc option.distinct(1))
  qed
qed

lemma buffer_ok_init [simp]: "buffer_ok (init_consumer s m)"
  by (simp add: buffer_ok_def init_consumer_def)

context event_store
begin

text \<open>The rows hold, in order, those of the messages that are committed.\<close>

lemma flush_commit_persisted:
  assumes "flush_commit write_batch cfg i st = (r, st')" and b: "buffer_ok st"
    and p: "subseq (r0 @ map as_row (decoded (c_committed st))) (rows (c_store st))"
  shows "subseq (r0 @ map as_row (decoded (c_committed st'))) (rows (c_store st'))"
  using assms(1)
proof (cases rule: flush_commit_cases)
  case (written s' m')
  then obtain xs where "rows s' = rows (c_store st) @ xs @ map as_row (c_events st)"
    using writeWithRetry_ok by blast
  with written b p show ?thesis
    by (auto simp: buffer_ok_def intro: list_emb_append_mono list_emb_append2
        simp flip: append_assoc)
next
  case (uncommitted s' m' e)
  then obtain xs where "rows s' = rows (c_store st) @ xs"
    using writeWithRetry_ok by blast
  with uncommitted p show ?thesis by auto
next
  case (failed s' e)
  then obtain xs where "rows s' = rows (c_store st) @ xs"
    using writeWithRetry_err by blast
  with failed p show ?thesis by auto
qed (use p in simp)

lemma consumer_iter_persisted:
  assumes it: "consumer_iter write_batch cfg i st = (q, st')" and b: "buffer_ok st"
    and p: "subseq (r0 @ map as_row (decoded (c_committed st))) (rows (c_store st))"
  shows "subseq (r0 @ map as_row (decoded (c_committed st'))) (rows (c_store st'))"
  using it
proof (cases rule: consumer_iter_cases)
  case (full m ev r)
  then have "buffer_ok (st\<lparr>c_events := c_events st @ [ev], c_msgs := c_msgs st @ [m]\<rparr>)"
    using b by (auto simp: buffer_ok_def decodes_def)
  from flush_commit_persisted [OF full(4) this] p show ?thesis by simp
next
  case (tick e r)
  from flush_commit_persisted [OF tick(4) b p] show ?thesis .
next
  case (tick_done e st1 r)
  from flush_commit_buffer [OF tick_done(4) b] flush_commit_persisted [OF tick_done(4) b p]
    flush_commit_persisted [OF tick_done(6)] show ?thesis by blast
next
  case (stopping e r)
  from flush_commit_persisted [OF stopping(2) b p] show ?thesis .
qed (use p in auto)

lemma consumer_loop_persisted:
  assumes "consumer_loop write_batch cfg is st = (q, st')" and "buffer_ok st"
    and "1 \<le> BatchSize cfg" "int (length (c_events st)) < BatchSize cfg"
    and "subseq (r0 @ map as_row (decoded (c_committed st))) (rows (c_store st))"
  shows "subseq (r0 @ map as_row (decoded (c_committed st'))) (rows (c_store st'))"
  using assms
proof (induction "is" arbitrary: st)
  case (Cons i "is")
  obtain q1 st1 where it: "consumer_iter write_batch cfg i st = (q1, st1)"
    by (cases "consumer_iter write_batch cfg i st")
  note s = consumer_iter_buffer [OF it Cons.prems(2-4)]
  note t = consumer_iter_persisted [OF it Cons.prems(2,5)]
  show ?case
  proof (cases q1)
    case None
    then have "consumer_loop write_batch cfg is st1 = (q, st')"
      using Cons.prems(1) it by simp
    from Cons.IH [OF this s(1) Cons.prems(3) _ t] s(3) None show ?thesis by simp
  next
    case (Some r)
    with Cons.prems(1) it t show ?thesis by simp
  qed
qed simp

end

end
