(* ===== verification/Writer_Props.thy ===== *)
theory Writer_Props
  imports Writer Schema_Facts
begin

text \<open>
  Properties of \<^verbatim>\<open>cmd/writer\<close>: retries, what a run of the consuming loop leaves in the store and
  commits, restarts from the committed offset, shutdown, and the settings.
\<close>

section \<open>Exactness over an atomic store\<close>

text \<open>
  A flush over an atomic store adds nothing to the rows, or the buffered events: then they are
  committed, or the commit has failed.
\<close>

definition commit_failed :: "err option option \<Rightarrow> bool" where
  "commit_failed q \<longleftrightarrow> (\<exists>e. q = Some (Some (Wrap ''writer: commit: %w'' [] e)))"

context atomic_store
begin

definition exact :: "LogEvent list \<Rightarrow> 'a consumer \<Rightarrow> bool" where
  "exact r0 st \<longleftrightarrow> rows (c_store st) = r0 @ map as_row (decoded (c_committed st))"

definition exact_unless :: "LogEvent list \<Rightarrow> err option option \<Rightarrow> 'a consumer \<Rightarrow> bool" where
  "exact_unless r0 q st \<longleftrightarrow>
     exact r0 st
     \<or> (commit_failed q \<and> rows (c_store st) = r0 @ map as_row (decoded (c_committed st @ c_msgs st)))"

lemma flush_commit_exact:
  assumes "flush_commit write_batch cfg i st = (r, st')" and b: "buffer_ok st" and x: "exact r0 st"
  shows "exact_unless r0 (Some r) st' \<and> (r = None \<longrightarrow> exact r0 st')"
  using assms(1)
proof (cases rule: flush_commit_cases)
  case (written s' m')
  then have "rows s' = rows (c_store st) @ map as_row (c_events st)" using writeWithRetry_atomic by fastforce
  with written b x show ?thesis by (simp add: exact_unless_def exact_def buffer_ok_def)
next
  case (uncommitted s' m' e)
  then have "rows s' = rows (c_store st) @ map as_row (c_events st)" using writeWithRetry_atomic by fastforce
  with uncommitted b x show ?thesis by (auto simp: exact_unless_def exact_def buffer_ok_def commit_failed_def)
next
  case (failed s' e)
  then have "rows s' = rows (c_store st)" using writeWithRetry_atomic by fastforce
  with failed x show ?thesis by (simp add: exact_unless_def exact_def)
qed (use x in \<open>simp add: exact_unless_def\<close>)

lemma exact_unless_Some: "exact_unless r0 (Some r) st \<Longrightarrow> q = map_option Some r \<Longrightarrow> r \<noteq> None \<Longrightarrow> exact_unless r0 q st"
  by (auto simp: exact_unless_def commit_failed_def)

lemma consumer_iter_exact:
  assumes it: "consumer_iter write_batch cfg i st = (q, st')" and b: "buffer_ok st" and x: "exact r0 st"
  shows "exact_unless r0 q st' \<and> (q = None \<longrightarrow> exact r0 st')"
  using it
proof (cases rule: consumer_iter_cases)
  case (full m ev r)
  have "buffer_ok (st\<lparr>c_events := c_events st @ [ev], c_msgs := c_msgs st @ [m]\<rparr>)"
    using b full by (auto simp: buffer_ok_def decodes_def)
  from flush_commit_exact [OF full(4) this] x full(5) show ?thesis
    by (cases r) (auto simp: exact_def exact_unless_def)
next
  case (tick e r)
  from flush_commit_exact [OF tick(4) b x] tick(5) show ?thesis by (cases r) (auto simp: exact_unless_def)
next
  case (tick_done e st1 r)
  from flush_commit_exact [OF tick_done(4) b x] flush_commit_buffer [OF tick_done(4) b]
    flush_commit_exact [OF tick_done(6)] tick_done(7) show ?thesis by simp
next
  case (stopping e r)
  from flush_commit_exact [OF stopping(2) b x] stopping(3) show ?thesis by simp
qed (use x in \<open>simp_all add: exact_def exact_unless_def\<close>)

lemma consumer_loop_exact:
  assumes "consumer_loop write_batch cfg is st = (q, st')" and "buffer_ok st"
    and "1 \<le> BatchSize cfg" "int (length (c_events st)) < BatchSize cfg" and "exact r0 st"
  shows "exact_unless r0 q st'"
  using assms
proof (induction "is" arbitrary: st)
  case (Cons i "is")
  obtain q1 st1 where it: "consumer_iter write_batch cfg i st = (q1, st1)"
    by (cases "consumer_iter write_batch cfg i st")
  note s = consumer_iter_buffer [OF it Cons.prems(2-4)]
  note t = consumer_iter_exact [OF it Cons.prems(2,5)]
  show ?case
  proof (cases q1)
    case None
    then have "consumer_loop write_batch cfg is st1 = (q, st')" using Cons.prems(1) it by simp
    from Cons.IH [OF this s(1) Cons.prems(3)] s(3) t None show ?thesis by simp
  next
    case (Some r)
    with Cons.prems(1) it t show ?thesis by simp
  qed
qed (simp add: exact_unless_def)

end

section \<open>Settings\<close>

definition batch_ok :: "batchConfig \<Rightarrow> bool" where
  "batch_ok cfg \<longleftrightarrow> 1 \<le> BatchSize cfg \<and> 0 < FlushInterval cfg \<and> 1 \<le> MaxRetries cfg \<and> 0 < RetryBackoff cfg"

lemma newBatchProcessor_ok: "batch_ok (newBatchProcessor cfg)"
  by (auto simp: batch_ok_def newBatchProcessor_def Let_def)

lemma newBatchProcessor_id: "batch_ok cfg \<Longrightarrow> newBatchProcessor cfg = cfg"
  by (simp add: batch_ok_def newBatchProcessor_def Let_def)

section \<open>A healthy run\<close>

text \<open>An iteration in which everything works: a decodable message, a live context, a commit that succeeds.\<close>

definition healthy :: "loop_in \<Rightarrow> bool" where
  "healthy i \<longleftrightarrow> (\<exists>m. li_fetch i = Inr m \<and> decodes m) \<and> (\<forall>a. li_wctx i a = None) \<and> li_commit i = None"

lemma decodes_valid: "decodes m \<Longrightarrow> UnmarshalEvent (km_Value m) = Inr ev \<Longrightarrow> Validate (Some ev) = None"
  using UnmarshalEvent_wf event_wf_valid by blast

lemma ms_write_live:
  assumes "list_all (\<lambda>e. Validate (Some e) = None) evs" and "\<not> ms_closed s" and "evs \<noteq> []" and "1 \<le> MaxRetries cfg"
    and "\<And>a. ctx a = None"
  shows "writeWithRetry ms_WriteBatch cfg ctx evs s = (None, s\<lparr>ms_events := ms_events s @ evs\<rparr>)"
proof -
  obtain n where "nat (MaxRetries cfg) = Suc n" using assms(4) by (cases "nat (MaxRetries cfg)") auto
  moreover have "ms_WriteBatch s None evs = (None, s\<lparr>ms_events := ms_events s @ evs\<rparr>)"
    using assms(1-3) validate_all_None [of evs] by (simp add: ms_WriteBatch_def)
  ultimately show ?thesis by (simp add: writeWithRetry_def assms(5))
qed

text \<open>What a healthy run keeps: committed messages in whole batches, the rest in the buffer.\<close>

definition batched :: "batchConfig \<Rightarrow> LogEvent list \<Rightarrow> MemStore consumer \<Rightarrow> bool" where
  "batched cfg r0 st \<longleftrightarrow>
     buffer_ok st \<and> ms_All (c_store st) = r0 @ decoded (c_committed st) \<and> \<not> ms_closed (c_store st)
     \<and> length (c_committed st) mod nat (BatchSize cfg) = 0 \<and> int (length (c_events st)) < BatchSize cfg
     \<and> list_all (\<lambda>e. Validate (Some e) = None) (c_events st)"

lemma batched_init: "1 \<le> BatchSize cfg \<Longrightarrow> \<not> ms_closed s \<Longrightarrow> batched cfg (ms_All s) (init_consumer s m)"
  by (simp add: batched_def init_consumer_def buffer_ok_def)

lemma healthy_iter:
  assumes h: "healthy i" and b: "batched cfg r0 st" and cfg: "1 \<le> BatchSize cfg" "1 \<le> MaxRetries cfg"
  obtains st' where "consumer_iter ms_WriteBatch cfg i st = (None, st')" "batched cfg r0 st'"
    "c_committed st' @ c_msgs st' = c_committed st @ c_msgs st @ fetched [i]"
proof -
  obtain m ev where m: "li_fetch i = Inr m" "UnmarshalEvent (km_Value m) = Inr ev" "decodes m"
    using h by (auto simp: healthy_def decodes_def)
  have v: "Validate (Some ev) = None" using decodes_valid m by blast
  let ?st1 = "st\<lparr>c_events := c_events st @ [ev], c_msgs := c_msgs st @ [m]\<rparr>"
  have b1: "buffer_ok ?st1" using b m by (auto simp: batched_def buffer_ok_def)
  show ?thesis
  proof (cases "BatchSize cfg \<le> int (length (c_events st)) + 1")
    case False
    have "consumer_iter ms_WriteBatch cfg i st = (None, ?st1)"
      using False m by (simp add: consumer_iter_def)
    moreover have "batched cfg r0 ?st1" using b b1 v False by (auto simp: batched_def)
    moreover have "c_committed ?st1 @ c_msgs ?st1 = c_committed st @ c_msgs st @ fetched [i]" using m(1) by simp
    ultimately show ?thesis by (rule that)
  next
    case True
    let ?s' = "(c_store st)\<lparr>ms_events := ms_events (c_store st) @ c_events st @ [ev]\<rparr>"
    let ?st2 = "?st1\<lparr>c_store := ?s',
       c_metrics := incBatchesFlushed (incEventsWritten (of_nat (length (c_events st) + 1)) (c_metrics st)),
       c_committed := c_committed st @ c_msgs st @ [m], c_events := [], c_msgs := []\<rparr>"
    have "writeWithRetry ms_WriteBatch cfg (li_wctx i) (c_events st @ [ev]) (c_store st) = (None, ?s')"
      using b v h cfg by (intro ms_write_live) (auto simp: batched_def healthy_def)
    then have "flush_commit ms_WriteBatch cfg i ?st1 = (None, ?st2)"
      using h by (simp add: flush_commit_def flush_def healthy_def)
    then have "consumer_iter ms_WriteBatch cfg i st = (None, ?st2)"
      using True m by (simp add: consumer_iter_def)
    moreover have "batched cfg r0 ?st2"
    proof -
      have "int (length (c_msgs st)) + 1 = BatchSize cfg"
        using b True by (auto simp: batched_def buffer_ok_def)
      then have "length (c_committed st @ c_msgs st @ [m]) = length (c_committed st) + nat (BatchSize cfg)" by simp
      then have "length (c_committed st @ c_msgs st @ [m]) mod nat (BatchSize cfg) = 0"
        using b by (simp add: batched_def)
      then show ?thesis using b b1 cfg m by (auto simp: batched_def buffer_ok_def ms_All_def)
    qed
    moreover have "c_committed ?st2 @ c_msgs ?st2 = c_committed st @ c_msgs st @ fetched [i]" using m(1) by simp
    ultimately show ?thesis by (rule that)
  qed
qed

lemma healthy_loop:
  assumes "list_all healthy is" and "batched cfg r0 st" and "1 \<le> BatchSize cfg" and "1 \<le> MaxRetries cfg"
  shows "\<exists>st'. consumer_loop ms_WriteBatch cfg is st = (None, st') \<and> batched cfg r0 st'
    \<and> c_committed st' @ c_msgs st' = c_committed st @ c_msgs st @ fetched is"
  using assms(1,2)
proof (induction "is" arbitrary: st)
  case (Cons i "is")
  then obtain st1 where st1: "consumer_iter ms_WriteBatch cfg i st = (None, st1)" "batched cfg r0 st1"
    "c_committed st1 @ c_msgs st1 = c_committed st @ c_msgs st @ fetched [i]"
    using healthy_iter [OF _ _ assms(3,4)] by (metis list.pred_inject(2))
  with Cons.IH [of st1] Cons.prems show ?case
    by (auto simp flip: append_assoc split: sum.splits)
qed auto

section \<open>Restarts\<close>

text \<open>
  The life of the writer on one partition, whose messages are \<open>L\<close>: the number of messages that are
  committed and the store. The consumer group resumes at the committed offset, so the fetches of a
  run give a part of \<open>L\<close> from there on, and a run ends when the loop returns or the process dies.
\<close>

inductive writer_runs ::
  "'s write_batch \<Rightarrow> batchConfig \<Rightarrow> kafka_Message list \<Rightarrow> 's \<Rightarrow> nat \<Rightarrow> 's \<Rightarrow> bool"
  for wb cfg L s0 where
  runs_start: "writer_runs wb cfg L s0 0 s0"
| runs_again:
    "writer_runs wb cfg L s0 n s \<Longrightarrow> take (length (fetched is)) (drop n L) = fetched is \<Longrightarrow>
     consumer_loop wb cfg is (init_consumer s m) = (q, st) \<Longrightarrow>
     writer_runs wb cfg L s0 (n + length (c_committed st)) (c_store st)"

lemma take_prefix_eq: "take (length (xs @ ys)) zs = xs @ ys \<Longrightarrow> take (length xs) zs = xs"
proof -
  assume a: "take (length (xs @ ys)) zs = xs @ ys"
  have "take (length xs) zs = take (length xs) (take (length (xs @ ys)) zs)" by (simp add: min_def)
  then show ?thesis unfolding a by simp
qed

lemma run_committed:
  assumes "take (length (fetched is)) (drop n L) = fetched is" and "1 \<le> BatchSize cfg"
    and "consumer_loop wb cfg is (init_consumer s m) = (q, st)"
  shows "take (n + length (c_committed st)) L = take n L @ c_committed st" and "list_all decodes (c_committed st)"
proof -
  from consumer_loop_buffer [OF assms(3) buffer_ok_init assms(2)] assms(2)
  obtain rest where b: "buffer_ok st" and f: "fetched is = c_committed st @ c_msgs st @ rest"
    by (auto simp: init_consumer_def)
  have "take (length (c_committed st)) (drop n L) = c_committed st"
    using assms(1) unfolding f by (rule take_prefix_eq)
  then show "take (n + length (c_committed st)) L = take n L @ c_committed st" by (simp add: take_add)
  show "list_all decodes (c_committed st)" using b by (simp add: buffer_ok_def)
qed

lemma writer_runs_decode:
  assumes "writer_runs wb cfg L s0 n s" and "1 \<le> BatchSize cfg"
  shows "list_all decodes (take n L)"
  using assms(1)
proof (induction rule: writer_runs.induct)
  case (runs_again n s "is" m q st)
  from run_committed [OF runs_again.hyps(2) assms(2) runs_again.hyps(3)] runs_again.IH show ?case by simp
qed simp

context event_store
begin

lemma writer_runs_persisted:
  assumes "writer_runs write_batch cfg L s0 n s" and cfg: "1 \<le> BatchSize cfg"
  shows "subseq (rows s0 @ map as_row (decoded (take n L))) (rows s)"
  using assms(1)
proof (induction rule: writer_runs.induct)
  case (runs_again n s "is" m q st)
  have "subseq ((rows s0 @ map as_row (decoded (take n L))) @ map as_row (decoded (c_committed st))) (rows (c_store st))"
    using consumer_loop_persisted [OF runs_again.hyps(3) buffer_ok_init cfg, of "rows s0 @ map as_row (decoded (take n L))"]
      runs_again.IH cfg by (simp add: init_consumer_def)
  with run_committed(1) [OF runs_again.hyps(2) cfg runs_again.hyps(3)] show ?case by simp
qed simp

end

text \<open>A driver whose pings and whose closing leave the table alone.\<close>

definition driver_quiet :: "'k driver \<Rightarrow> ('k \<Rightarrow> LogEvent list) \<Rightarrow> bool" where
  "driver_quiet d table \<longleftrightarrow> (\<forall>k. table (snd (d_Ping d k)) = table k \<and> table (snd (d_Close d k)) = table k)"

lemma ping_loop_quiet: "driver_quiet d table \<Longrightarrow> table (snd (ping_loop d n er k)) = table k"
proof (induction n arbitrary: er k)
  case (Suc n)
  obtain e k1 where p: "d_Ping d k = (e, k1)" by (cases "d_Ping d k")
  then have "table k1 = table k" using Suc.prems by (metis driver_quiet_def snd_conv)
  with Suc p show ?case by (simp split: option.split)
qed simp

lemma NewClickHouse_quiet:
  assumes "driver_quiet d table" and "NewClickHouse d cfg k = (r, k')"
  shows "table k' = table k"
proof (cases "ch_open d (ch_defaults cfg)")
  case None
  obtain e k1 where p: "ping_loop d (ping_attempts (ch_defaults cfg)) None k = (e, k1)"
    by (cases "ping_loop d (ping_attempts (ch_defaults cfg)) None k")
  then have "table k1 = table k" using ping_loop_quiet [OF assms(1)] by (metis snd_conv)
  with assms None p show ?thesis by (auto simp: NewClickHouse_def Let_def driver_quiet_def split: option.splits)
next
  case (Some e)
  with assms(2) show ?thesis by (simp add: NewClickHouse_def Let_def)
qed

lemma ch_Close_quiet: "driver_quiet d table \<Longrightarrow> table (snd (snd (ch_Close d s))) = table (snd s)"
  by (cases s) (auto simp: ch_Close_def Let_def driver_quiet_def split: prod.split; metis snd_conv)

section \<open>Samples\<close>

text \<open>The message of the sample event, and the inputs of an iteration that fetches a message.\<close>

definition sample_message :: kafka_Message where
  "sample_message =
     \<lparr>km_Topic = DefaultTopic, km_Partition = 0, km_Offset = 0, km_Key = [],
      km_Value = (case MarshalEvent sample_event of Inr b \<Rightarrow> b | Inl _ \<Rightarrow> [])\<rparr>"

definition fetch_of :: "kafka_Message \<Rightarrow> loop_in" where
  "fetch_of m = \<lparr>li_fetch = Inr m, li_tick = False, li_ctx = None, li_wctx = (\<lambda>_. None), li_commit = None\<rparr>"

definition one_by_one :: batchConfig where
  "one_by_one = \<lparr>BatchSize = 1, FlushInterval = 1000000000, MaxRetries = 3, RetryBackoff = 200000000\<rparr>"

lemma sample_message_decodes [simp]: "UnmarshalEvent (km_Value sample_message) = Inr sample_event"
proof -
  have u: "utc_time (Timestamp sample_event)" using sample_wire by (simp add: wire_ok_def wire_time_def utc_time_def)
  have "f_finite (ResponseDurationMs sample_event)" using sample_wire by (simp add: wire_ok_def)
  then obtain b where b: "MarshalEvent sample_event = Inr b"
    using MarshalEvent_ok [OF sample_wf u] sample_year by auto
  with MarshalEvent_decodes [OF sample_wf u b] wire_event_id [OF sample_wire] show ?thesis by (simp add: sample_message_def)
qed

lemma sample_healthy [simp]: "healthy (fetch_of sample_message)"
  by (auto simp: healthy_def fetch_of_def decodes_def)

section \<open>Properties\<close>

text \<open>
  C3. Delivery to ClickHouse is at least once, across restarts and failures of any kind: when the
  first n messages of a partition are committed, all of them decode, and the table holds the row of
  each of them, in order, besides whatever it held before and rows of repeated or failed writes.
\<close>

theorem writer_at_least_once:
  assumes "driver_ok d table batch" and "1 \<le> BatchSize cfg"
    and "writer_runs (ch_WriteBatch d) cfg L (h, k) n s"
  shows "list_all decodes (take n L) \<and> subseq (table k @ map ch_row (decoded (take n L))) (table (snd s))"
  using writer_runs_decode [OF assms(3,2)]
    event_store.writer_runs_persisted [OF ch_event_store [OF assms(1)] assms(3,2)] by simp

theorem writer_at_least_once_witness:
  "\<exists>s. writer_runs (ch_WriteBatch list_driver) one_by_one [sample_message] (open_ch, ([], [])) 1 s
     \<and> subseq [ch_row sample_event] (fst (snd s))"
proof -
  obtain q st where l: "consumer_loop (ch_WriteBatch list_driver) one_by_one [fetch_of sample_message]
      (init_consumer (open_ch, ([], [])) zero_writerMetrics) = (q, st)"
    by (metis surj_pair)
  then have "c_committed st = [sample_message]"
    using event_wf_valid [OF sample_wf]
    by (auto simp: consumer_iter_def fetch_of_def one_by_one_def init_consumer_def flush_commit_def flush_def Let_def
        writeWithRetry_def ch_WriteBatch_def list_driver_def open_ch_def numeral_eq_Suc)
  moreover have "take (length (fetched [fetch_of sample_message])) (drop 0 [sample_message]) = fetched [fetch_of sample_message]"
    by (simp add: fetch_of_def)
  ultimately have r: "writer_runs (ch_WriteBatch list_driver) one_by_one [sample_message] (open_ch, ([], [])) 1 (c_store st)"
    using runs_again [OF runs_start _ l, of "[sample_message]"] by simp
  have "1 \<le> BatchSize one_by_one" by (simp add: one_by_one_def)
  from writer_at_least_once [OF list_driver_ok this r] have "subseq [ch_row sample_event] (fst (snd (c_store st)))"
    by (simp add: decoded_def)
  with r show ?thesis by blast
qed

text \<open>
  C32. The whole writer process, from its environment to its exit. If ClickHouse cannot be reached it
  exits with status 1, and the table is untouched. Else it runs the consuming loop with the settings
  of its environment, from the connection it made, until the loop returns or the health server
  fails, and that run decides the rest: the exit status is 0 if the loop returns no error or a
  cancellation and 1 if it returns another error or the health server fails first, and there is
  none while neither has happened; the committed messages are the first of those it fetched, all of
  them decode, and the table holds their rows after those it held before.
\<close>

theorem writer_process_delivers:
  assumes "driver_ok d table batch" and "driver_quiet d table"
    and "NewClickHouse d (wc_clickhouse (writer_config_of env)) k = (conn, k1)"
    and "writer_main d env health is k = (code, st, k')"
  shows "case conn of
      Inl e \<Rightarrow> code = Some 1 \<and> st = None \<and> table k' = table k
    | Inr db \<Rightarrow>
        (\<exists>q c rest.
          consumer_loop (ch_WriteBatch d) (wc_batch (writer_config_of env)) (iterations health is)
            (init_consumer (db, k1) zero_writerMetrics) = (q, c)
          \<and> st = Some c
          \<and> code = (case q of None \<Rightarrow> if \<exists>n. health = Some n \<and> n \<le> length is then Some 1 else None
                    | Some None \<Rightarrow> Some 0
                    | Some (Some e) \<Rightarrow> Some (if errors_Is e Canceled then 0 else 1))
          \<and> fetched (iterations health is) = c_committed c @ rest
          \<and> list_all decodes (c_committed c)
          \<and> subseq (table k @ map ch_row (decoded (c_committed c))) (table k'))"
proof -
  let ?cfg = "writer_config_of env"
  have topic: "wc_topic ?cfg \<noteq> []" by (simp add: writer_config_of_def w_envOr_def DefaultTopic_def)
  have "batch_ok (wc_batch ?cfg)" by (simp add: writer_config_of_def newBatchProcessor_ok)
  then have size: "1 \<le> BatchSize (wc_batch ?cfg)" by (simp add: batch_ok_def)
  have k1: "table k1 = table k" by (rule NewClickHouse_quiet [OF assms(2,3)])
  show ?thesis
  proof (cases conn)
    case (Inl e)
    with assms(3,4) k1 show ?thesis by (auto simp: writer_main_def Let_def)
  next
    case (Inr db)
    let ?s = "init_consumer (db, k1) zero_writerMetrics" and ?is = "iterations health is"
    obtain q c where run: "consumer_loop (ch_WriteBatch d) (wc_batch ?cfg) ?is ?s = (q, c)"
      by (cases "consumer_loop (ch_WriteBatch d) (wc_batch ?cfg) ?is ?s")
    have rc: "runConsumer (ch_WriteBatch d) (wc_batch ?cfg) (wc_topic ?cfg) ?is ?s = (q, c)"
      using run topic by (simp add: runConsumer_def)
    from consumer_loop_buffer [OF run buffer_ok_init size] size
    obtain rest where fetched: "fetched ?is = c_committed c @ rest" and dec: "list_all decodes (c_committed c)"
      by (auto simp: init_consumer_def buffer_ok_def)
    have rows: "subseq (table k @ map ch_row (decoded (c_committed c))) (table (snd (c_store c)))"
      using event_store.consumer_loop_persisted
          [OF ch_event_store [OF assms(1)] run buffer_ok_init size, of "table k"] size k1
      by (simp add: init_consumer_def)
    have "st = Some c \<and> table k' = table (snd (c_store c))
        \<and> code = (case q of None \<Rightarrow> health_exit health is | Some r \<Rightarrow> Some (writer_exit r))"
      using assms(3,4) Inr rc ch_Close_quiet [OF assms(2), of "c_store c"]
      by (auto simp: writer_main_def Let_def split: option.splits if_splits)
    with Inr run fetched dec rows show ?thesis
      by (auto simp: health_exit_def writer_exit_def split: option.split)
  qed
qed

text \<open>
  The process with a batch size of 1, a message and then a cancellation: the row is in the table, the
  message is committed and the status is 0.
\<close>

definition small_batches :: "string \<Rightarrow> string" where
  "small_batches key = (if key = ''WRITER_BATCH_SIZE'' then ''1'' else [])"

definition cancelled_in :: loop_in where
  "cancelled_in = (fetch_of sample_message)\<lparr>li_fetch := Inl Canceled, li_ctx := Some Canceled\<rparr>"

theorem writer_process_delivers_witness:
  "\<exists>c k'. writer_main list_driver small_batches None [fetch_of sample_message, cancelled_in] ([], []) = (Some 0, Some c, k')
     \<and> c_committed c = [sample_message] \<and> subseq [ch_row sample_event] (fst k')"
proof -
  let ?is = "[fetch_of sample_message, cancelled_in]"
  obtain code st k' where m: "writer_main list_driver small_batches None ?is ([], []) = (code, st, k')"
    by (metis surj_pair)
  have q: "driver_quiet list_driver fst" by (simp add: driver_quiet_def list_driver_def)
  have n: "ParseInt ''1'' = Some 1" by (simp add: go_eval ParseInt_def in_int64_def)
  have cfg: "wc_batch (writer_config_of small_batches) = one_by_one"
    by (simp add: writer_config_of_def small_batches_def newBatchProcessor_def envInt_def envDuration_def one_by_one_def n)
  obtain db where new: "NewClickHouse list_driver (wc_clickhouse (writer_config_of small_batches)) ([], []) = (Inr db, ([], []))"
      and db: "\<not> ch_closed db" "ch_conn db"
    by (auto simp: NewClickHouse_def ch_open_def ch_defaults_def ping_attempts_def list_driver_def
        writer_config_of_def w_envOr_def small_batches_def Let_def numeral_eq_Suc)
  have run: "consumer_loop (ch_WriteBatch list_driver) one_by_one ?is (init_consumer (db, ([], [])) zero_writerMetrics) = (r, c) \<Longrightarrow>
      r = Some None \<and> c_committed c = [sample_message]" for r c
    using event_wf_valid [OF sample_wf] db
    by (auto simp: consumer_iter_def fetch_of_def cancelled_in_def one_by_one_def init_consumer_def flush_commit_def
        flush_def Let_def writeWithRetry_def ch_WriteBatch_def list_driver_def numeral_eq_Suc)
  from writer_process_delivers [OF list_driver_ok q new m] obtain r c where
    "consumer_loop (ch_WriteBatch list_driver) one_by_one ?is (init_consumer (db, ([], [])) zero_writerMetrics) = (r, c)"
    "st = Some c" "code = (case r of None \<Rightarrow> None | Some None \<Rightarrow> Some 0 | Some (Some e) \<Rightarrow> Some (if errors_Is e Canceled then 0 else 1))"
    "subseq (map ch_row (decoded (c_committed c))) (fst k')"
    by (auto simp: cfg iterations_def)
  with run m show ?thesis by (fastforce simp: decoded_def)
qed

text \<open>
  C5. A run over a store that writes all or nothing delivers exactly once: the committed messages are
  the first of those that were fetched, and the store has gained exactly their events, in order;
  only a commit that fails after its write leaves the events of the uncommitted batch in the store
  as well, to be written again after a restart.
\<close>

theorem writer_exactly_once:
  assumes "runConsumer ms_WriteBatch cfg topic is (init_consumer s m) = (q, st)" and "1 \<le> BatchSize cfg" and "topic \<noteq> []"
  shows "(\<exists>rest. fetched is = c_committed st @ c_msgs st @ rest)
    \<and> (ms_All (c_store st) = ms_All s @ decoded (c_committed st)
       \<or> ((\<exists>e. q = Some (Some (Wrap ''writer: commit: %w'' [] e)))
          \<and> ms_All (c_store st) = ms_All s @ decoded (c_committed st @ c_msgs st)))"
proof -
  have l: "consumer_loop ms_WriteBatch cfg is (init_consumer s m) = (q, st)" using assms(1,3) by (simp add: runConsumer_def)
  have x: "ms.exact (ms_All s) (init_consumer s m)" by (simp add: ms.exact_def init_consumer_def)
  have "ms.exact_unless (ms_All s) q st"
    by (rule ms.consumer_loop_exact [OF l buffer_ok_init assms(2) _ x]) (use assms(2) in \<open>simp add: init_consumer_def\<close>)
  moreover have "\<exists>rest. fetched is = c_committed st @ c_msgs st @ rest"
    using consumer_loop_buffer [OF l buffer_ok_init assms(2)] assms(2) by (auto simp: init_consumer_def)
  ultimately show ?thesis by (simp add: ms.exact_unless_def ms.exact_def commit_failed_def)
qed

theorem writer_exactly_once_witness:
  "ms_All (c_store (snd (runConsumer ms_WriteBatch one_by_one DefaultTopic [fetch_of sample_message]
     (init_consumer NewMemStore zero_writerMetrics)))) = [sample_event]"
proof -
  let ?r = "runConsumer ms_WriteBatch one_by_one DefaultTopic [fetch_of sample_message] (init_consumer NewMemStore zero_writerMetrics)"
  have "fst ?r = None \<and> c_committed (snd ?r) = [sample_message]"
    using event_wf_valid [OF sample_wf]
    by (simp add: runConsumer_def consumer_iter_def fetch_of_def one_by_one_def init_consumer_def flush_commit_def flush_def
        Let_def writeWithRetry_def ms_WriteBatch_def NewMemStore_def DefaultTopic_def numeral_eq_Suc)
  with writer_exactly_once [OF prod.collapse [symmetric], of one_by_one DefaultTopic "[fetch_of sample_message]" NewMemStore
      zero_writerMetrics]
  show ?thesis by (simp add: one_by_one_def DefaultTopic_def decoded_def ms_All_def NewMemStore_def)
qed

text \<open>
  C26. A healthy run writes full batches: when every message decodes and nothing fails, the loop goes
  on, all messages but the last incomplete batch are committed and stored in order, and the buffer
  holds that incomplete batch.
\<close>

theorem writer_healthy_batches:
  assumes "list_all healthy is" and "1 \<le> BatchSize cfg" and "1 \<le> MaxRetries cfg" and "\<not> ms_closed s"
  shows "\<exists>st. consumer_loop ms_WriteBatch cfg is (init_consumer s m) = (None, st)
     \<and> c_committed st @ c_msgs st = fetched is
     \<and> length (c_committed st) = length (fetched is) div nat (BatchSize cfg) * nat (BatchSize cfg)
     \<and> ms_All (c_store st) = ms_All s @ decoded (c_committed st) \<and> c_events st = decoded (c_msgs st)"
proof -
  let ?B = "nat (BatchSize cfg)"
  from healthy_loop [OF assms(1) batched_init [OF assms(2,4), of m] assms(2,3)] obtain st where
    st: "consumer_loop ms_WriteBatch cfg is (init_consumer s m) = (None, st)" "batched cfg (ms_All s) st"
      "c_committed st @ c_msgs st = fetched is"
    by (auto simp: init_consumer_def)
  let ?n = "length (c_committed st)"
  have "length (c_msgs st) < ?B" "?n mod ?B = 0"
    using st(2) by (auto simp: batched_def buffer_ok_def)
  moreover have "length (fetched is) = ?n + length (c_msgs st)" using st(3) by (metis length_append)
  moreover have "?n = ?n div ?B * ?B" using \<open>?n mod ?B = 0\<close> by (metis add_0_right div_mult_mod_eq)
  ultimately have "length (fetched is) div ?B = ?n div ?B"
    by (metis add.commute div_mult_self_is_m div_mult_self3 div_less gr_zeroI less_nat_zero_code add_0)
  then have "?n = length (fetched is) div ?B * ?B" using \<open>?n = ?n div ?B * ?B\<close> by simp
  with st show ?thesis by (auto simp: batched_def buffer_ok_def)
qed

theorem writer_healthy_batches_witness:
  "\<exists>st. consumer_loop ms_WriteBatch one_by_one [fetch_of sample_message, fetch_of sample_message]
       (init_consumer NewMemStore zero_writerMetrics) = (None, st)
     \<and> ms_All (c_store st) = [sample_event, sample_event]"
proof -
  have f: "fetched [fetch_of sample_message, fetch_of sample_message] = [sample_message, sample_message]"
    by (simp add: fetch_of_def)
  from writer_healthy_batches [of "[fetch_of sample_message, fetch_of sample_message]" one_by_one NewMemStore zero_writerMetrics]
  obtain st where "consumer_loop ms_WriteBatch one_by_one [fetch_of sample_message, fetch_of sample_message]
       (init_consumer NewMemStore zero_writerMetrics) = (None, st)" "c_committed st @ c_msgs st = [sample_message, sample_message]"
    "length (c_committed st) = 2" "ms_All (c_store st) = ms_All NewMemStore @ decoded (c_committed st)"
    unfolding f by (auto simp: one_by_one_def NewMemStore_def)
  then show ?thesis by (auto simp: decoded_def ms_All_def NewMemStore_def numeral_eq_Suc length_Suc_conv)
qed

text \<open>
  C27. Retrying over the in-memory store: writeWithRetry succeeds exactly when the store accepts the
  batch at one of the attempts 1 to MaxRetries, and then the batch is stored once; if every attempt
  fails, nothing is stored and the error says how many retries were made.
\<close>

theorem writeWithRetry_stores_once:
  assumes "writeWithRetry ms_WriteBatch cfg ctx evs s = (r, s')"
  shows "(r = None \<longleftrightarrow> (\<exists>a. 1 \<le> a \<and> int a \<le> MaxRetries cfg \<and> fst (ms_WriteBatch s (ctx a) evs) = None))
    \<and> ms_All s' = ms_All s @ (if r = None then evs else [])
    \<and> (\<forall>e. r = Some e \<longrightarrow> (\<exists>e'. e = Wrap ''write batch after %d retries: %w'' [ArgD (MaxRetries cfg)] e'))"
proof -
  have same: "snd (ms_WriteBatch s c evs) = s" if "fst (ms_WriteBatch s c evs) \<noteq> None" for c
    using that by (auto simp: ms_WriteBatch_def split: option.splits if_splits)
  have loop: "fst (retry_loop ms_WriteBatch ctx evs n a er s) = None \<longleftrightarrow>
      (\<exists>i < n. fst (ms_WriteBatch s (ctx (a + i)) evs) = None)" for n a er
  proof (induction n arbitrary: a er)
    case (Suc n)
    obtain q s1 where w: "ms_WriteBatch s (ctx a) evs = (q, s1)" by (cases "ms_WriteBatch s (ctx a) evs")
    show ?case
    proof (cases q)
      case None
      with w show ?thesis by (auto intro!: exI [of _ 0])
    next
      case (Some e)
      with w same [of "ctx a"] have "s1 = s" by simp
      with w Some Suc [of "a + 1" e] show ?thesis by (auto simp: less_Suc_eq_0_disj)
    qed
  qed simp
  have "r = None \<longleftrightarrow> fst (retry_loop ms_WriteBatch ctx evs (nat (MaxRetries cfg)) 1 nil_error s) = None"
    using assms by (auto simp: writeWithRetry_def split: prod.splits option.splits)
  also have "\<dots> \<longleftrightarrow> (\<exists>a. 1 \<le> a \<and> int a \<le> MaxRetries cfg \<and> fst (ms_WriteBatch s (ctx a) evs) = None)"
    unfolding loop
  proof (intro iffI; elim exE conjE)
    fix i assume "i < nat (MaxRetries cfg)" "fst (ms_WriteBatch s (ctx (1 + i)) evs) = None"
    then show "\<exists>a. 1 \<le> a \<and> int a \<le> MaxRetries cfg \<and> fst (ms_WriteBatch s (ctx a) evs) = None"
      by (intro exI [of _ "1 + i"]) linarith
  next
    fix a assume "1 \<le> a" "int a \<le> MaxRetries cfg" "fst (ms_WriteBatch s (ctx a) evs) = None"
    then show "\<exists>i < nat (MaxRetries cfg). fst (ms_WriteBatch s (ctx (1 + i)) evs) = None"
      by (intro exI [of _ "a - 1"] conjI) (linarith, simp)
  qed
  finally show ?thesis
    using ms.writeWithRetry_atomic [OF assms] assms
    by (auto simp: writeWithRetry_def split: prod.splits option.splits)
qed

theorem writeWithRetry_stores_once_witness:
  "ms_All (snd (writeWithRetry ms_WriteBatch one_by_one (\<lambda>a. if a < 3 then Some DeadlineExceeded else None) [sample_event] NewMemStore))
   = [sample_event]"
proof -
  let ?c = "\<lambda>a::nat. if a < 3 then Some DeadlineExceeded else None"
  have "int (3::nat) \<le> MaxRetries one_by_one" "fst (ms_WriteBatch NewMemStore (?c 3) [sample_event]) = None"
    using event_wf_valid [OF sample_wf] by (simp_all add: one_by_one_def ms_WriteBatch_def NewMemStore_def)
  then have "\<exists>a. 1 \<le> a \<and> int a \<le> MaxRetries one_by_one \<and> fst (ms_WriteBatch NewMemStore (?c a) [sample_event]) = None"
    by (intro exI [of _ 3]) simp
  with writeWithRetry_stores_once [OF prod.collapse [symmetric], of one_by_one ?c "[sample_event]" NewMemStore]
  show ?thesis by (simp add: ms_All_def NewMemStore_def)
qed

text \<open>
  C34. Shutdown does not flush the batch in flight: when the context is cancelled, the fetch returns
  the cancellation and the flush runs with the cancelled context, so WriteBatch refuses every
  attempt; nothing is written or committed, the run fails with an error that wraps the cancellation,
  and the process exits with status 0.
\<close>

theorem shutdown_drops_batch:
  assumes "li_fetch i = Inl Canceled" and "\<forall>a. li_wctx i a = Some Canceled" and "c_events st \<noteq> []" and "1 \<le> MaxRetries cfg"
  shows "\<exists>e. consumer_iter (ch_WriteBatch d) cfg i st = (Some (Some e), st\<lparr>c_metrics := incWriteErrors (c_metrics st)\<rparr>)
    \<and> errors_Is e Canceled \<and> writer_exit (Some e) = 0"
proof -
  have w: "ch_WriteBatch d s (Some Canceled) evs = (Some Canceled, s)" for s evs
    by (cases s) (simp add: ch_WriteBatch_def)
  have loop: "retry_loop (ch_WriteBatch d) (li_wctx i) evs (Suc n) a er s = (Some Canceled, s)" for evs n a er s
    using assms(2) by (induction n arbitrary: a er) (simp_all add: w)
  obtain n where n: "nat (MaxRetries cfg) = Suc n" using assms(4) by (cases "nat (MaxRetries cfg)") auto
  let ?e = "Wrap ''write batch after %d retries: %w'' [ArgD (MaxRetries cfg)] Canceled"
  have "writeWithRetry (ch_WriteBatch d) cfg (li_wctx i) (c_events st) (c_store st) = (Some ?e, c_store st)"
    unfolding writeWithRetry_def n loop by simp
  then have "flush_commit (ch_WriteBatch d) cfg i st = (Some ?e, st\<lparr>c_metrics := incWriteErrors (c_metrics st)\<rparr>)"
    using assms(3) by (simp add: flush_commit_def flush_def)
  then show ?thesis using assms(1) by (auto simp: consumer_iter_def writer_exit_def)
qed

theorem shutdown_drops_batch_witness:
  "\<exists>e. consumer_iter (ch_WriteBatch list_driver) one_by_one
      \<lparr>li_fetch = Inl Canceled, li_tick = True, li_ctx = Some Canceled, li_wctx = (\<lambda>_. Some Canceled), li_commit = None\<rparr>
      ((init_consumer (open_ch, ([], [])) zero_writerMetrics)\<lparr>c_events := [sample_event], c_msgs := [sample_message]\<rparr>) =
     (Some (Some e), (init_consumer (open_ch, ([], [])) zero_writerMetrics)\<lparr>c_events := [sample_event],
        c_msgs := [sample_message], c_metrics := incWriteErrors zero_writerMetrics\<rparr>)"
  using shutdown_drops_batch [of "\<lparr>li_fetch = Inl Canceled, li_tick = True, li_ctx = Some Canceled,
      li_wctx = (\<lambda>_. Some Canceled), li_commit = None\<rparr>"
      "(init_consumer (open_ch, ([], [])) zero_writerMetrics)\<lparr>c_events := [sample_event], c_msgs := [sample_message]\<rparr>"
      one_by_one list_driver]
  by (auto simp: one_by_one_def init_consumer_def)

text \<open>
  C36. The flush interval does not bound the delay of an event: as long as fetches succeed the ticker
  is not looked at, so whatever it says, fewer messages than a batch are neither written nor
  committed.
\<close>

theorem no_timed_flush_while_fetching:
  assumes "list_all (\<lambda>i. \<exists>m. li_fetch i = Inr m \<and> decodes m) is" and "int (length is) < BatchSize cfg"
  shows "\<exists>st. consumer_loop wb cfg is (init_consumer s m) = (None, st) \<and> c_store st = s \<and> c_committed st = []
    \<and> c_msgs st = fetched is"
proof -
  have "\<exists>st'. consumer_loop wb cfg is st = (None, st') \<and> c_store st' = c_store st \<and> c_committed st' = c_committed st
      \<and> c_msgs st' = c_msgs st @ fetched is"
    if "list_all (\<lambda>i. \<exists>m. li_fetch i = Inr m \<and> decodes m) is" and "int (length (c_events st) + length is) < BatchSize cfg" for st
    using that
  proof (induction "is" arbitrary: st)
    case (Cons i "is")
    then obtain x ev where x: "li_fetch i = Inr x" "UnmarshalEvent (km_Value x) = Inr ev" by (auto simp: decodes_def)
    let ?st = "st\<lparr>c_events := c_events st @ [ev], c_msgs := c_msgs st @ [x]\<rparr>"
    have "consumer_iter wb cfg i st = (None, ?st)" using x Cons.prems(2) by (simp add: consumer_iter_def)
    with Cons.IH [of ?st] Cons.prems x(1) show ?case by simp
  qed simp
  from this [of "init_consumer s m"] assms show ?thesis by (simp add: init_consumer_def)
qed

theorem no_timed_flush_while_fetching_witness:
  "\<exists>st. consumer_loop ms_WriteBatch (one_by_one\<lparr>BatchSize := 50\<rparr>) [(fetch_of sample_message)\<lparr>li_tick := True\<rparr>]
       (init_consumer NewMemStore zero_writerMetrics) = (None, st) \<and> c_store st = NewMemStore"
  using no_timed_flush_while_fetching [of "[(fetch_of sample_message)\<lparr>li_tick := True\<rparr>]" "one_by_one\<lparr>BatchSize := 50\<rparr>"
      ms_WriteBatch NewMemStore zero_writerMetrics]
  by (auto simp: fetch_of_def decodes_def one_by_one_def)

text \<open>
  C35. One message that does not decode stops its partition for good: whatever runs the writer makes,
  the committed offset never passes the message, and a run that fetches it ends with a decoding
  error and exit status 1.
\<close>

theorem undecodable_message_blocks:
  assumes "writer_runs wb cfg L s0 n s" and "1 \<le> BatchSize cfg" and "p < length L" and "UnmarshalEvent (km_Value (L ! p)) = Inl er"
  shows "n \<le> p
    \<and> (\<forall>i st. li_fetch i = Inr (L ! p) \<longrightarrow>
         fst (consumer_iter wb cfg i st) = Some (Some (Wrap ''writer: decode: %w'' [] er))
         \<and> (\<not> errors_Is er Canceled \<longrightarrow> writer_exit (Some (Wrap ''writer: decode: %w'' [] er)) = 1))"
proof -
  have "list_all decodes (take n L)" using writer_runs_decode [OF assms(1,2)] .
  then have "n \<le> p"
    using assms(3,4) by (auto simp: list_all_length decodes_def intro!: leI)
  then show ?thesis using assms(4) by (simp add: consumer_iter_def writer_exit_def)
qed

theorem undecodable_message_blocks_witness:
  "\<exists>er. UnmarshalEvent [] = Inl er
     \<and> fst (consumer_iter ms_WriteBatch one_by_one (fetch_of (sample_message\<lparr>km_Value := []\<rparr>))
          (init_consumer NewMemStore zero_writerMetrics)) = Some (Some (Wrap ''writer: decode: %w'' [] er))"
proof -
  obtain er where er: "UnmarshalEvent [] = Inl er"
    by (simp add: UnmarshalEvent_def json_Unmarshal_event_def parse_document_def json_fuel_def skip_ws_def numeral_eq_Suc)
  have "1 \<le> BatchSize one_by_one" by (simp add: one_by_one_def)
  from undecodable_message_blocks [OF runs_start this, of 0 "[sample_message\<lparr>km_Value := []\<rparr>]" er ms_WriteBatch] er
  show ?thesis by (simp add: fetch_of_def)
qed

text \<open>
  C28. Whatever the environment says, the writer runs with usable settings: a batch holds at least one
  event, a write is tried at least once, the intervals are positive, and usable values are kept.
\<close>

theorem writer_settings_usable:
  "batch_ok (wc_batch (writer_config_of env)) \<and> (batch_ok cfg \<longrightarrow> newBatchProcessor cfg = cfg)
   \<and> wc_topic (writer_config_of env) \<noteq> [] \<and> cfg_Brokers (wc_bus (writer_config_of env)) \<noteq> []"
  using newBatchProcessor_ok newBatchProcessor_id
  by (simp add: writer_config_of_def w_envOr_def DefaultTopic_def Split_not_Nil)

theorem writer_settings_usable_witness:
  "batch_ok one_by_one \<and> newBatchProcessor one_by_one = one_by_one"
  using writer_settings_usable [of "\<lambda>_. []" one_by_one] by (simp add: batch_ok_def one_by_one_def)

end
