(* ===== verification/Spec2Isabelle.thy ===== *)
theory Spec2Isabelle
  imports Gateway_Props Writer_Props
begin

text \<open>
  Apexio is a log pipeline. The gateway (\<^verbatim>\<open>cmd/gateway\<close>) takes log events over REST and OTLP, maps them
  to canonical events (\<^verbatim>\<open>pkg/schema\<close>) behind an optional API key (\<^verbatim>\<open>pkg/auth\<close>), and publishes them as
  JSON to a broker (\<^verbatim>\<open>pkg/broker\<close>: Redpanda in production, memory in tests). The writer
  (\<^verbatim>\<open>cmd/writer\<close>) consumes the broker's messages in batches and inserts them into a store
  (\<^verbatim>\<open>pkg/store\<close>: ClickHouse in production, memory in tests). \<^verbatim>\<open>examples/sample-client\<close> is a client of the
  gateway. This development models all of that Go code, and proves what each part promises and what
  they promise together.

  \<^bold>\<open>Library of Go.\<close> \<open>Prelude\<close> has the integer types, the errors with \<^verbatim>\<open>errors.Is\<close>, results and contexts.
  \<open>Go_Unicode\<close>, \<open>Go_Strings\<close>, \<open>Go_Map\<close>, \<open>Go_Time\<close>, \<open>Go_Float\<close>, \<open>Go_Json\<close>, \<open>Go_Scan\<close>, \<open>Go_Duration\<close> and
  \<open>Go_Http\<close> define what the program uses of \<^verbatim>\<open>unicode\<close>, \<^verbatim>\<open>strings\<close>, maps, \<^verbatim>\<open>time\<close>, \<^verbatim>\<open>strconv\<close>, \<^verbatim>\<open>encoding/json\<close>,
  \<^verbatim>\<open>fmt.Sscanf\<close> and \<^verbatim>\<open>net/http\<close>, as executable functions on bytes. \<open>Go_Utf8\<close>, \<open>Go_Case\<close>, \<open>Go_Float_Facts\<close>,
  \<open>Go_Time_Facts\<close> and \<open>Go_Json_Facts\<close> prove what the wire format rests on: decoding inverts encoding for
  UTF-8, numbers, RFC 3339 times and JSON values, and trimming and upper-casing of arbitrary byte
  strings. The JSON parser recurses with fuel \<open>2 * length s + 2\<close>; every call that consumes no byte is
  followed by one that does, and \<open>parse_value_fuel\<close> shows that more fuel changes nothing.

  \<^bold>\<open>Schema.\<close> \<open>Schema\<close> is \<^verbatim>\<open>event.go\<close>: the structs as records, Validate, the level functions, FromREST,
  ToREST, FromOTLPLike, MarshalEvent, UnmarshalEvent and the attribute helpers, with the JSON
  encoding and decoding that the struct tags determine written out. \<open>Otlp\<close> is \<^verbatim>\<open>otlp.go\<close>. \<open>Schema_Wire\<close>,
  \<open>Schema_Facts\<close> and \<open>Otlp_Facts\<close> hold the properties: which payloads are accepted and what they
  become, the round trips of the REST shape and of the wire format, that every encoded event
  decodes, the merging of attributes, all-or-nothing conversion of export requests.

  \<^bold>\<open>Interfaces.\<close> The Go interface Publisher is the locale \<open>event_publisher\<close>, interpreted for the in-memory
  broker (\<open>Broker\<close>) and for Redpanda (\<open>Redpanda\<close>) over any Kafka client that keeps \<open>kafka_write_ok\<close>. The
  interface Store is the locale \<open>event_store\<close>, with \<open>atomic_store\<close> for stores whose failed writes leave
  nothing behind; the in-memory store (\<open>Store\<close>) interprets the second, ClickHouse (\<open>ClickHouse\<close>) the
  first over any driver that keeps \<open>driver_ok\<close>. The handlers of the gateway and the loop of the writer
  are verified once, inside these locales. Redpanda's Subscribe, which runs a goroutine per topic, is
  the step relation \<open>sub_step\<close>, in which each round of the consuming loop, each send to the error channel
  with the capacity the code gives it, each cancel and each branch of the select is a step of its
  own. A step is the program's or the environment's: the parent context may be cancelled, and while the
  context is live a fetch may answer, with a message or with an error, or not answer at all; a handler
  returns within its round. Once the context is done a fetch returns, and from there Subscribe is shown
  to need a bounded number of steps and never to block on the way; it returns only after its
  goroutines, no send ever blocks, and it can lose an error.

  \<^bold>\<open>Programs.\<close> \<open>Auth\<close>, \<open>Gateway\<close> and \<open>Writer\<close> hold the middleware, handlers, counters, routes, settings,
  the batch processor, the consuming loop and the main functions up to their exit status. A loop
  that runs until the environment stops it is a recursion over the list of what the environment
  answers in each iteration, so its result is \<open>None\<close> while it has not returned. \<open>Sample_Client\<close> is the
  example client. \<open>Gateway_Facts\<close>, \<open>Gateway_Props\<close> and \<open>Writer_Props\<close> prove the outcomes of every request,
  that only decodable messages are published, that unauthenticated requests change nothing,
  at-least-once delivery across restarts, exactly-once storage over an atomic store, the batching of
  a healthy run, how shutdown and undecodable messages behave, and what the writer process as a whole
  leaves behind. This theory composes them from the
  request to the store.

  \<^bold>\<open>Parameters.\<close> What is not in the repository is an argument: the Kafka client, the ClickHouse driver, the
  protobuf decoders and the text that protobuf gives to arrays and lists, the network of the client,
  the environment variables, the failure of the listeners, and the clock (one value for each converted
  record or payload, which the two calls of \<^verbatim>\<open>time.Now()\<close> that one OTLP record can make share). What the proofs
  use of them are the named contracts \<open>kafka_write_ok\<close>, \<open>driver_ok\<close>, \<open>driver_quiet\<close>, \<open>cluster_up\<close> and
  \<open>clock_wf\<close>, each shown to be satisfiable by a concrete instance. The Kafka client retries without
  idempotence, so \<open>kafka_write_ok\<close> has a bound \<open>attempts\<close>: a successful write has appended its message
  between once and \<open>attempts\<close> times, a failed one at most \<open>attempts\<close> times; a write that the client
  completes after its caller was cancelled is counted at the call. \<open>driver_ok\<close> lets every
  operation of ClickHouse fail. The rows of the table are the values that are passed to Append: that
  the deployed column keeps milliseconds of a bounded range of years is left to the database.

  \<^bold>\<open>Not modelled.\<close> Sockets, TLS, signals and the timing of sleeps and tickers (their outcomes are inputs);
  log output; the text of error messages, which are kept as structured values; path cleaning and
  redirects of \<^verbatim>\<open>http.ServeMux\<close>; data races inside the atomic counters and mutexes (each operation is
  one step); rebalancing of a consumer group between several writers; deployment files, scripts,
  dashboards and tests.
\<close>

section \<open>From the gateway to the store\<close>

text \<open>Fetched messages that all decode never make the writer fail to decode.\<close>

lemma writeWithRetry_error:
  "writeWithRetry wb cfg ctx evs s = (Some e, s') \<Longrightarrow> \<exists>as e'. e = Wrap ''write batch after %d retries: %w'' as e'"
  by (auto simp: writeWithRetry_def split: prod.splits option.splits)

lemma flush_commit_no_decode:
  assumes "flush_commit wb cfg i st = (r, st')"
  shows "decodeErrors (c_metrics st') = decodeErrors (c_metrics st) \<and> r \<noteq> Some (Wrap ''writer: decode: %w'' [] e)"
  using assms
  by (cases rule: flush_commit_cases)
    (auto simp: incBatchesFlushed_def incEventsWritten_def incWriteErrors_def dest!: writeWithRetry_error)

lemma consumer_iter_no_decode:
  assumes "consumer_iter wb cfg i st = (q, st')" and "list_all decodes (fetched [i])"
  shows "decodeErrors (c_metrics st') = decodeErrors (c_metrics st) \<and> q \<noteq> Some (Some (Wrap ''writer: decode: %w'' [] e))"
  using assms(1)
proof (cases rule: consumer_iter_cases)
  case (undecodable m e')
  with assms(2) show ?thesis by (simp add: decodes_def)
next
  case (full m ev r)
  from flush_commit_no_decode [OF full(4), of e] full(5) show ?thesis by (cases r) auto
next
  case (tick e' r)
  from flush_commit_no_decode [OF tick(4), of e] tick(5) show ?thesis by (cases r) auto
next
  case (tick_done e' st1 r)
  from flush_commit_no_decode [OF tick_done(4), of e] flush_commit_no_decode [OF tick_done(6), of e] tick_done(7)
  show ?thesis by auto
next
  case (stopping e' r)
  from flush_commit_no_decode [OF stopping(2), of e] stopping(3) show ?thesis by auto
qed auto

lemma consumer_loop_no_decode:
  assumes "consumer_loop wb cfg is st = (q, st')" and "list_all decodes (fetched is)"
  shows "decodeErrors (c_metrics st') = decodeErrors (c_metrics st) \<and> q \<noteq> Some (Some (Wrap ''writer: decode: %w'' [] e))"
  using assms
proof (induction "is" arbitrary: st)
  case (Cons i "is")
  obtain q1 st1 where it: "consumer_iter wb cfg i st = (q1, st1)" by (cases "consumer_iter wb cfg i st")
  have f: "list_all decodes (fetched [i])" "list_all decodes (fetched is)"
    using Cons.prems(2) by (auto split: sum.splits)
  from consumer_iter_no_decode [OF it f(1), of e] Cons.IH [of st1, OF _ f(2)] Cons.prems(1) it show ?case
    by (cases q1) auto
qed simp

text \<open>Iterations in which the fetch, the writes and the commit work, whatever the message.\<close>

definition live :: "loop_in \<Rightarrow> bool" where
  "live i \<longleftrightarrow> (\<exists>m. li_fetch i = Inr m) \<and> (\<forall>a. li_wctx i a = None) \<and> li_commit i = None"

lemma live_healthy: "list_all live is \<Longrightarrow> list_all decodes (fetched is) \<Longrightarrow> list_all healthy is"
  by (induction "is") (auto simp: live_def healthy_def)

text \<open>
  An iteration in which the fetch times out, the ticker has fired, and the writes and the commit work. It
  empties the buffer into the store and commits its messages.
\<close>

definition idle_tick :: "loop_in \<Rightarrow> bool" where
  "idle_tick i \<longleftrightarrow> (\<exists>e. li_fetch i = Inl e \<and> errors_Is e DeadlineExceeded) \<and> li_tick i \<and> li_ctx i = None
     \<and> (\<forall>a. li_wctx i a = None) \<and> li_commit i = None"

lemma idle_tick_flushes:
  assumes "idle_tick i" and "batched cfg r0 st" and "1 \<le> MaxRetries cfg"
  shows "\<exists>st'. consumer_iter ms_WriteBatch cfg i st = (None, st') \<and> c_events st' = []
    \<and> c_committed st' = c_committed st @ c_msgs st
    \<and> ms_All (c_store st') = r0 @ decoded (c_committed st @ c_msgs st)"
proof (cases "c_events st = []")
  case True
  then have "c_msgs st = []" using assms(2) by (simp add: batched_def buffer_ok_def decoded_def)
  with True assms(1,2) show ?thesis by (auto simp: idle_tick_def consumer_iter_def flush_commit_def batched_def)
next
  case False
  let ?s' = "(c_store st)\<lparr>ms_events := ms_events (c_store st) @ c_events st\<rparr>"
  have "writeWithRetry ms_WriteBatch cfg (li_wctx i) (c_events st) (c_store st) = (None, ?s')"
    using assms False by (intro ms_write_live) (auto simp: batched_def idle_tick_def)
  with False assms(1,2) show ?thesis
    by (auto simp: idle_tick_def consumer_iter_def flush_commit_def flush_def batched_def buffer_ok_def ms_All_def)
qed

lemma consumer_loop_snoc:
  assumes "consumer_loop wb cfg is st = (None, st1)" and "consumer_iter wb cfg i st1 = (None, st2)"
  shows "consumer_loop wb cfg (is @ [i]) st = (None, st2)"
  using assms by (induction "is" arbitrary: st) (auto split: prod.splits option.splits)

lemma decodes_decodable: "list_all decodes ms \<longleftrightarrow> list_all decodable (map km_Value ms)"
  by (induction ms) (simp_all add: decodes_def decodable_def)

definition decode_all :: "bytes list \<Rightarrow> LogEvent list" where
  "decode_all bs = map (\<lambda>b. case UnmarshalEvent b of Inr e \<Rightarrow> e | Inl _ \<Rightarrow> zero_event) bs"

lemma decoded_decode_all: "decoded ms = decode_all (map km_Value ms)"
  by (simp add: decoded_def decode_all_def)

lemma gateway_log_decodable:
  assumes "kafka_write_ok attempts wmsg klog" and "list_all clock_wf calls"
    and "gateway_run d (rp_Publish wmsg) cfg calls (s, m) = (s', m')" and "klog (snd s) (gc_topic cfg) = []"
  shows "list_all decodable (klog (snd s') (gc_topic cfg))"
  using event_publisher.gateway_run_grows [OF rp_event_publisher [OF assms(1)] assms(2), of cfg "(s, m)" d] assms(3,4)
  by (auto simp: grows_def)

text \<open>Samples: fetches of a list of payloads, and the log after one accepted request.\<close>

definition fetches :: "bytes list \<Rightarrow> loop_in list" where
  "fetches bs = map (\<lambda>b. fetch_of (sample_message\<lparr>km_Value := b\<rparr>)) bs"

lemma fetches_simps [simp]: "map km_Value (fetched (fetches bs)) = bs" "list_all live (fetches bs)"
  by (induction bs) (simp_all add: fetches_def fetch_of_def live_def)

lemma sample_run:
  "\<exists>body b s' m'. gateway_run sample_decoders (rp_Publish list_write) sample_cfg [Http (\<lambda>_. sample_now) (sample_post body)]
       ((sample_rp, \<lambda>_. []), zero_ingestMetrics) = (s', m') \<and> snd s' DefaultTopic = [b]"
proof -
  obtain body resp k' m' b where i: "k' DefaultTopic = [b]"
    "ingest_ServeHTTP (rp_Publish list_write) DefaultTopic sample_now (sample_post body)
       ((sample_rp, \<lambda>_. []), zero_ingestMetrics) = (resp, ((sample_rp, k'), m'))"
    using sample_ingest by blast
  have "gateway_run sample_decoders (rp_Publish list_write) sample_cfg [Http (\<lambda>_. sample_now) (sample_post body)]
      ((sample_rp, \<lambda>_. []), zero_ingestMetrics) = ((sample_rp, k'), m')"
    using i(2) by (simp add: gateway_run_def gateway_call_def mux_rest is_rest_def api_ok_def)
  with i(1) show ?thesis by (metis snd_conv)
qed

lemma sample_calls_wf: "list_all clock_wf [Http (\<lambda>_. sample_now) r]"
  by (simp add: clock_wf_def sample_clock)

text \<open>
  C7. The gateway never stops the writer: of the messages that the gateway publishes to a fresh topic,
  whatever it was sent, none makes the writer fail to decode, over any store and in any order of
  fetches and failures.
\<close>

theorem gateway_never_stops_writer:
  assumes "kafka_write_ok attempts wmsg klog" and "klog (snd s) (gc_topic cfg) = []" and "list_all clock_wf calls"
    and "gateway_run d (rp_Publish wmsg) cfg calls (s, m) = (s', m')"
    and "set (map km_Value (fetched is)) \<subseteq> set (klog (snd s') (gc_topic cfg))"
    and "consumer_loop wb bcfg is (init_consumer st0 m0) = (q, st)"
  shows "decodeErrors (c_metrics st) = decodeErrors m0 \<and> q \<noteq> Some (Some (Wrap ''writer: decode: %w'' [] e))"
proof -
  have "list_all decodable (map km_Value (fetched is))"
    using gateway_log_decodable [OF assms(1,3,4,2)] assms(5) unfolding list_all_iff by blast
  then have "list_all decodes (fetched is)" by (simp add: decodes_decodable)
  from consumer_loop_no_decode [OF assms(6) this, of e] show ?thesis by (simp add: init_consumer_def)
qed

theorem gateway_never_stops_writer_witness:
  "\<exists>b. decodeErrors (c_metrics (snd (consumer_loop ms_WriteBatch one_by_one (fetches [b]) (init_consumer NewMemStore zero_writerMetrics)))) = 0"
proof -
  obtain body b s' m' where r: "gateway_run sample_decoders (rp_Publish list_write) sample_cfg
      [Http (\<lambda>_. sample_now) (sample_post body)] ((sample_rp, \<lambda>_. []), zero_ingestMetrics) = (s', m')"
    "snd s' DefaultTopic = [b]" using sample_run by blast
  have "set (map km_Value (fetched (fetches [b]))) \<subseteq> set (snd s' (gc_topic sample_cfg))" unfolding fetches_simps by (simp add: r(2))
  from gateway_never_stops_writer [where klog = "\<lambda>k. k", OF list_write_ok [OF order_refl] _ sample_calls_wf r(1) this prod.collapse [symmetric],
      of ms_WriteBatch one_by_one NewMemStore zero_writerMetrics EOF]
  show ?thesis by (intro exI [of _ b]) (simp add: zero_writerMetrics_def)
qed

text \<open>
  C2. The pipeline delivers: when the writer fetches what the gateway has published to a fresh topic
  and nothing fails, the store followed by the incomplete batch in the buffer is what it was before,
  followed by the events of all published messages, each once and in the order of publication.
\<close>

theorem pipeline_delivers:
  assumes "kafka_write_ok attempts wmsg klog" and "klog (snd s) (gc_topic cfg) = []" and "list_all clock_wf calls"
    and "gateway_run d (rp_Publish wmsg) cfg calls (s, m) = (s', m')"
    and "map km_Value (fetched is) = klog (snd s') (gc_topic cfg)" and "list_all live is"
    and "1 \<le> BatchSize bcfg" and "1 \<le> MaxRetries bcfg" and "\<not> ms_closed st0"
  shows "\<exists>st. consumer_loop ms_WriteBatch bcfg is (init_consumer st0 m0) = (None, st)
    \<and> ms_All (c_store st) @ c_events st = ms_All st0 @ decode_all (klog (snd s') (gc_topic cfg))
    \<and> int (length (c_events st)) < BatchSize bcfg"
proof -
  have "list_all healthy is"
    using live_healthy [OF assms(6)] gateway_log_decodable [OF assms(1,3,4,2)] assms(5) by (simp add: decodes_decodable)
  moreover have "batched bcfg (ms_All st0) (init_consumer st0 m0)"
    using assms(7,9) by (intro batched_init) simp_all
  ultimately obtain st where st: "consumer_loop ms_WriteBatch bcfg is (init_consumer st0 m0) = (None, st)"
    "batched bcfg (ms_All st0) st" "c_committed st @ c_msgs st = fetched is"
    using healthy_loop [OF _ _ assms(7,8)] by (force simp: init_consumer_def)
  have "ms_All (c_store st) @ c_events st = ms_All st0 @ decoded (fetched is)"
    using st(2) unfolding st(3) [symmetric] by (simp add: batched_def buffer_ok_def)
  with st assms(5) show ?thesis by (auto simp: batched_def decoded_decode_all)
qed

theorem pipeline_delivers_witness:
  "\<exists>b st. consumer_loop ms_WriteBatch one_by_one (fetches [b]) (init_consumer NewMemStore zero_writerMetrics) = (None, st)
     \<and> length (ms_All (c_store st)) = 1"
proof -
  obtain body b s' m' where r: "gateway_run sample_decoders (rp_Publish list_write) sample_cfg
      [Http (\<lambda>_. sample_now) (sample_post body)] ((sample_rp, \<lambda>_. []), zero_ingestMetrics) = (s', m')"
    "snd s' DefaultTopic = [b]" using sample_run by blast
  have "map km_Value (fetched (fetches [b])) = snd s' (gc_topic sample_cfg)" unfolding fetches_simps by (simp add: r(2))
  from pipeline_delivers [where klog = "\<lambda>k. k", OF list_write_ok [OF order_refl] _ sample_calls_wf r(1) this fetches_simps(2), of one_by_one NewMemStore zero_writerMetrics]
  show ?thesis by (auto simp: one_by_one_def NewMemStore_def ms_All_def decode_all_def r(2) intro!: exI [of _ b])
qed

text \<open>
  C8. A REST log that is acknowledged with 201 ends up in the store, with any batch size: let a writer
  that has started with an open in-memory store, and may already have fetched other messages, fetch what the request
  added to the topic, and let then one fetch time out after the ticker has fired, and let nothing
  fail. Then the store holds what it held at the start, the events of the other messages and the
  event of the request with invalid UTF-8 replaced, as often as the client sent it and at least once;
  nothing is left in the buffer and all fetched messages are committed.
\<close>

theorem acknowledged_log_is_stored:
  assumes "kafka_write_ok attempts wmsg klog" and "time_wf now"
    and "ingest_ServeHTTP (rp_Publish wmsg) topic now r (s, m) = (resp, (s', m'))" and "w_Status resp = 201"
    and "list_all healthy earlier"
    and "map km_Value (fetched is) = drop (length (klog (snd s) topic)) (klog (snd s') topic)" and "list_all live is"
    and "idle_tick i" and "1 \<le> BatchSize bcfg" and "1 \<le> MaxRetries bcfg" and "\<not> ms_closed st0"
  shows "\<exists>payload ev st n. decode_body r = Inr payload \<and> FromREST now payload = Inr ev
    \<and> consumer_loop ms_WriteBatch bcfg (earlier @ is @ [i]) (init_consumer st0 m0) = (None, st)
    \<and> ms_All (c_store st) = ms_All st0 @ decoded (fetched earlier) @ replicate n (wire_event ev)
    \<and> 1 \<le> n \<and> n \<le> attempts
    \<and> c_events st = [] \<and> c_committed st = fetched earlier @ fetched is"
proof -
  obtain payload ev where ev: "decode_body r = Inr payload" "FromREST now payload = Inr ev"
    "publishEvents (rp_Publish wmsg) topic (r_ctx r) [ev] s = (None, s')"
    using assms(3,4) by (cases rule: ingest_cases) (auto simp: writeErr_def)
  from event_publisher.publishEvents_ok [OF rp_event_publisher [OF assms(1)] ev(3)] obtain b n where
    b: "MarshalEvent ev = Inr b" "1 \<le> n" "n \<le> attempts"
      "klog (snd s') = (klog (snd s))(topic := klog (snd s) topic @ replicate n b)"
    by auto
  have u: "UnmarshalEvent b = Inr (wire_event ev)"
    using MarshalEvent_decodes [OF FromREST_wf FromREST_utc b(1)] ev(2) assms(2) by blast
  have f: "map km_Value (fetched is) = replicate n b" using assms(6) b(4) by simp
  have "list_all decodable (replicate n b)" using u by (simp add: decodable_def list_all_iff)
  then have "list_all decodes (fetched is)" by (simp add: decodes_decodable f)
  then have "list_all healthy (earlier @ is)" using live_healthy [OF assms(7)] assms(5) by simp
  moreover have "batched bcfg (ms_All st0) (init_consumer st0 m0)"
    using assms(9,11) by (intro batched_init) simp_all
  ultimately have "\<exists>st. consumer_loop ms_WriteBatch bcfg (earlier @ is) (init_consumer st0 m0) = (None, st)
      \<and> batched bcfg (ms_All st0) st \<and> c_committed st @ c_msgs st = [] @ [] @ fetched (earlier @ is)"
    using healthy_loop [OF _ _ assms(9,10), of "earlier @ is" "ms_All st0" "init_consumer st0 m0"]
    by (simp add: init_consumer_def)
  then obtain st where st: "consumer_loop ms_WriteBatch bcfg (earlier @ is) (init_consumer st0 m0) = (None, st)"
    "batched bcfg (ms_All st0) st" "c_committed st @ c_msgs st = fetched (earlier @ is)"
    by auto
  from idle_tick_flushes [OF assms(8) st(2) assms(10)] obtain st' where
    st': "consumer_iter ms_WriteBatch bcfg i st = (None, st')" "c_events st' = []"
      "c_committed st' = fetched (earlier @ is)" "ms_All (c_store st') = ms_All st0 @ decoded (fetched (earlier @ is))"
    unfolding st(3) by blast
  have "decoded (fetched (earlier @ is)) = decoded (fetched earlier) @ replicate n (wire_event ev)"
    using f u by (simp add: fetched_append decoded_decode_all decode_all_def)
  with ev(1,2) b(2,3) st' consumer_loop_snoc [OF st(1) st'(1)] show ?thesis by (auto simp: fetched_append)
qed

text \<open>The log is fetched after another message with the default batch size of 50.\<close>

definition default_batches :: batchConfig where
  "default_batches = \<lparr>BatchSize = 50, FlushInterval = 1000000000, MaxRetries = 3, RetryBackoff = 200000000\<rparr>"

definition idle_in :: loop_in where
  "idle_in = (fetch_of sample_message)\<lparr>li_fetch := Inl DeadlineExceeded, li_tick := True\<rparr>"

theorem acknowledged_log_is_stored_witness:
  "\<exists>b ev st. consumer_loop ms_WriteBatch default_batches (fetch_of sample_message # fetches [b] @ [idle_in])
       (init_consumer NewMemStore zero_writerMetrics) = (None, st)
     \<and> ms_All (c_store st) = [sample_event, wire_event ev] \<and> length (c_committed st) = 2"
proof -
  obtain body resp k' m' b where i: "w_Status resp = 201" "k' DefaultTopic = [b]"
    "ingest_ServeHTTP (rp_Publish list_write) DefaultTopic sample_now (sample_post body)
       ((sample_rp, \<lambda>_. []), zero_ingestMetrics) = (resp, ((sample_rp, k'), m'))"
    using sample_ingest by blast
  have f: "map km_Value (fetched (fetches [b])) =
      drop (length (snd (sample_rp, \<lambda>_. [] :: bytes list) DefaultTopic)) (snd (sample_rp, k') DefaultTopic)"
    unfolding fetches_simps by (simp add: i(2))
  have h: "list_all healthy [fetch_of sample_message]" by simp
  have t: "idle_tick idle_in" by (simp add: idle_tick_def idle_in_def fetch_of_def)
  have c: "1 \<le> BatchSize default_batches" "1 \<le> MaxRetries default_batches" "\<not> ms_closed NewMemStore"
    by (simp_all add: default_batches_def NewMemStore_def)
  from acknowledged_log_is_stored [where klog = "\<lambda>k. k", OF list_write_ok [OF order_refl] sample_clock(5) i(3,1) h f fetches_simps(2) t c,
      of zero_writerMetrics]
  obtain ev st n where st: "consumer_loop ms_WriteBatch default_batches ([fetch_of sample_message] @ fetches [b] @ [idle_in])
       (init_consumer NewMemStore zero_writerMetrics) = (None, st)" "1 \<le> n" "n \<le> 1"
     "ms_All (c_store st) = ms_All NewMemStore @ decoded (fetched [fetch_of sample_message]) @ replicate n (wire_event ev)"
     "c_committed st = fetched [fetch_of sample_message] @ fetched (fetches [b])" by blast
  then have "n = 1" by simp
  with st show ?thesis
    by (intro exI [of _ b] exI [of _ ev] exI [of _ st])
      (simp add: NewMemStore_def ms_All_def decoded_def fetch_of_def fetches_def)
qed

end
